(* ===== verification/Prelude.thy ===== *)
theory Prelude
  imports Main "HOL-Library.Word"
begin

text \<open>
  Shared ground of the development: Python strings, the parts of \<open>str\<close>, \<open>uuid\<close> and
  \<open>int\<close> rendering the service uses, and the generic facts on lists and options that
  the component theories share.

  A Python \<open>str\<close> is a sequence of code points, so \<open>pystr\<close> is a list of natural
  numbers and \<open>len\<close> is \<^term>\<open>length\<close>; \<open>str.encode("utf-8")\<close> is \<open>utf8_encode\<close>,
  which fails (\<open>None\<close>) on a lone surrogate exactly as Python raises
  \<open>UnicodeEncodeError\<close>. A literal is written \<open>str ''abc''\<close>.
\<close>

section \<open>Collections of facts\<close>

named_theorems table_simps \<open>equations of the table operations\<close>
named_theorems io_simps \<open>equations of the effect combinators\<close>
named_theorems tx_defs \<open>definitions of the transactions\<close>

section \<open>Python strings\<close>

type_synonym pystr = "nat list"

definition str :: "string \<Rightarrow> pystr" where
  "str s = map of_char s"

lemma str_eq_iff [simp]: "str a = str b \<longleftrightarrow> a = b"
  unfolding str_def by (simp add: inj_map_eq_map [OF inj_of_char])

lemma str_Nil [simp]: "str [] = []"
  by (simp add: str_def)

lemma str_eq_Nil_iff [simp]: "str s = [] \<longleftrightarrow> s = []"
  by (simp add: str_def)

text \<open>\<open>str.isspace\<close>: the code points Python counts as whitespace.\<close>

definition is_space :: "nat \<Rightarrow> bool" where
  "is_space c \<longleftrightarrow> (9 \<le> c \<and> c \<le> 13) \<or> (28 \<le> c \<and> c \<le> 32) \<or> c = 133 \<or> c = 160 \<or> c = 5760
     \<or> (8192 \<le> c \<and> c \<le> 8202) \<or> c = 8232 \<or> c = 8233 \<or> c = 8239 \<or> c = 8287 \<or> c = 12288"

text \<open>\<open>s.strip()\<close>, and \<open>s.rstrip(c)\<close> for a single character.\<close>

definition strip :: "pystr \<Rightarrow> pystr" where
  "strip s = rev (dropWhile is_space (rev (dropWhile is_space s)))"

definition rstrip_char :: "nat \<Rightarrow> pystr \<Rightarrow> pystr" where
  "rstrip_char c s = rev (dropWhile (\<lambda>x. x = c) (rev s))"

text \<open>\<open>not s or not s.strip()\<close>, the blank test of the service.\<close>

definition blank :: "pystr \<Rightarrow> bool" where
  "blank s \<longleftrightarrow> s = [] \<or> strip s = []"

lemma strip_eq_Nil_iff: "strip s = [] \<longleftrightarrow> (\<forall>c \<in> set s. is_space c)"
proof -
  have "strip s = [] \<longleftrightarrow> (\<forall>c \<in> set (dropWhile is_space s). is_space c)"
    by (simp add: strip_def dropWhile_eq_Nil_conv)
  also have "\<dots> \<longleftrightarrow> (\<forall>c \<in> set s. is_space c)"
  proof
    assume l: "\<forall>c \<in> set (dropWhile is_space s). is_space c"
    show "\<forall>c \<in> set s. is_space c"
    proof (cases "dropWhile is_space s")
      case Nil
      then show ?thesis by (simp add: dropWhile_eq_Nil_conv)
    next
      case (Cons x xs)
      then have "\<not> is_space x" by (metis hd_dropWhile list.distinct(1) list.sel(1))
      with l Cons show ?thesis by simp
    qed
  next
    assume "\<forall>c \<in> set s. is_space c"
    then show "\<forall>c \<in> set (dropWhile is_space s). is_space c"
      by (auto dest: set_dropWhileD)
  qed
  finally show ?thesis .
qed

lemma blank_iff: "blank s \<longleftrightarrow> (\<forall>c \<in> set s. is_space c)"
  by (auto simp: blank_def strip_eq_Nil_iff)

lemma last_rstrip_char: "rstrip_char c s \<noteq> [] \<Longrightarrow> last (rstrip_char c s) \<noteq> c"
  using hd_dropWhile [of "\<lambda>x. x = c" "rev s"] by (simp add: rstrip_char_def last_rev)

lemma rstrip_char_prefix: "\<exists>n. s = rstrip_char c s @ replicate n c"
proof -
  have "rev s = takeWhile (\<lambda>x. x = c) (rev s) @ dropWhile (\<lambda>x. x = c) (rev s)"
    by simp
  then have "s = rstrip_char c s @ rev (takeWhile (\<lambda>x. x = c) (rev s))"
    unfolding rstrip_char_def by (metis rev_append rev_rev_ident)
  moreover have "takeWhile (\<lambda>x. x = c) (rev s)
      = replicate (length (takeWhile (\<lambda>x. x = c) (rev s))) c"
    by (metis (mono_tags, lifting) replicate_length_same set_takeWhileD)
  ultimately show ?thesis by (metis rev_replicate)
qed

section \<open>UTF-8\<close>

definition is_surrogate :: "nat \<Rightarrow> bool" where
  "is_surrogate c \<longleftrightarrow> 55296 \<le> c \<and> c \<le> 57343"

definition utf8_bytes :: "nat \<Rightarrow> nat list" where
  "utf8_bytes c =
     (if c < 128 then [c]
      else if c < 2048 then [192 + c div 64, 128 + c mod 64]
      else if c < 65536 then [224 + c div 4096, 128 + c div 64 mod 64, 128 + c mod 64]
      else [240 + c div 262144, 128 + c div 4096 mod 64, 128 + c div 64 mod 64, 128 + c mod 64])"

definition utf8_encode :: "pystr \<Rightarrow> nat list option" where
  "utf8_encode s = (if list_ex is_surrogate s then None else Some (concat (map utf8_bytes s)))"

lemma length_utf8_bytes: "1 \<le> length (utf8_bytes c) \<and> length (utf8_bytes c) \<le> 4"
  by (simp add: utf8_bytes_def)

lemma utf8_encode_length:
  assumes "utf8_encode s = Some bs"
  shows "length s \<le> length bs" and "length bs \<le> 4 * length s"
proof -
  have bs: "bs = concat (map utf8_bytes s)"
    using assms by (auto simp: utf8_encode_def split: if_splits)
  have "length s \<le> length (concat (map utf8_bytes s))
      \<and> length (concat (map utf8_bytes s)) \<le> 4 * length s"
  proof (induction s)
    case (Cons c s)
    then show ?case using length_utf8_bytes [of c] by simp
  qed simp
  then show "length s \<le> length bs" and "length bs \<le> 4 * length s" by (simp_all add: bs)
qed

section \<open>Decimal rendering of a number\<close>

fun dec :: "nat \<Rightarrow> pystr" where
  "dec n = (if n < 10 then [48 + n] else dec (n div 10) @ [48 + n mod 10])"

declare dec.simps [simp del]

lemma dec_small [simp]: "n < 10 \<Longrightarrow> dec n = [48 + n]"
  by (simp add: dec.simps)

lemma dec_not_Nil [simp]: "dec n \<noteq> []"
  by (subst dec.simps) simp

section \<open>UUIDs\<close>

text \<open>
  A \<open>uuid.UUID\<close> is its 128-bit integer; \<open>str(uuid)\<close> is the lowercase 8-4-4-4-12
  hexadecimal form, which every resource name of the service embeds.
\<close>

type_synonym uuid = "128 word"

definition hex_digits :: "nat \<Rightarrow> nat \<Rightarrow> nat list" where
  "hex_digits n x = map (\<lambda>i. x div 16 ^ i mod 16) (rev [0..<n])"

definition hex_char :: "nat \<Rightarrow> nat" where
  "hex_char d = (if d < 10 then 48 + d else 87 + d)"

definition uuid_hex :: "uuid \<Rightarrow> pystr" where
  "uuid_hex u = map hex_char (hex_digits 32 (unat u))"

definition uuid_str :: "uuid \<Rightarrow> pystr" where
  "uuid_str u = (let h = uuid_hex u in
     take 8 h @ str ''-'' @ take 4 (drop 8 h) @ str ''-'' @ take 4 (drop 12 h) @ str ''-''
       @ take 4 (drop 16 h) @ str ''-'' @ drop 20 h)"

lemma hex_digits_value:
  "foldl (\<lambda>acc d. acc * 16 + d) 0 (hex_digits n x) = x mod 16 ^ n"
proof (induction n arbitrary: x)
  case 0
  then show ?case by (simp add: hex_digits_def)
next
  case (Suc n)
  have split: "hex_digits (Suc n) x = hex_digits n (x div 16) @ [x mod 16]"
  proof -
    have "[0..<Suc n] = 0 # map Suc [0..<n]" by (simp add: map_Suc_upt upt_conv_Cons del: upt_Suc)
    then show ?thesis
      unfolding hex_digits_def by (simp add: rev_map div_mult2_eq comp_def del: upt_Suc)
  qed
  have "foldl (\<lambda>acc d. acc * 16 + d) 0 (hex_digits (Suc n) x)
      = (x div 16) mod 16 ^ n * 16 + x mod 16"
    by (simp add: split Suc.IH)
  also have "\<dots> = x mod 16 ^ Suc n"
    by (simp add: mod_mult2_eq mult.commute add.commute)
  finally show ?case .
qed

lemma hex_digits_bound: "d \<in> set (hex_digits n x) \<Longrightarrow> d < 16"
  by (auto simp: hex_digits_def)

lemma inj_on_hex_char: "inj_on hex_char {..<16}"
  by (rule inj_onI) (auto simp: hex_char_def split: if_splits)

lemma uuid_hex_inj: "uuid_hex u = uuid_hex v \<Longrightarrow> u = v"
proof -
  assume "uuid_hex u = uuid_hex v"
  then have "hex_digits 32 (unat u) = hex_digits 32 (unat v)"
    unfolding uuid_hex_def
    by (rule map_inj_on) (auto intro: inj_on_subset [OF inj_on_hex_char] dest: hex_digits_bound)
  then have "unat u mod 16 ^ 32 = unat v mod 16 ^ 32"
    by (metis hex_digits_value)
  moreover have "unat u < 16 ^ 32" and "unat v < 16 ^ 32"
    using unsigned_less [of u] unsigned_less [of v] by simp_all
  ultimately have "unat u = unat v" by simp
  then show "u = v" by (simp add: word_unat_eq_iff)
qed

lemma length_uuid_hex: "length (uuid_hex u) = 32"
  by (simp add: uuid_hex_def hex_digits_def)

lemma uuid_str_eq_iff [simp]: "uuid_str u = uuid_str v \<longleftrightarrow> u = v"
proof
  define cut where "cut h = [take 8 h, take 4 (drop 8 h), take 4 (drop 12 h), take 4 (drop 16 h), drop 20 h]"
    for h :: pystr
  have join: "concat (cut h) = h" for h
    using append_take_drop_id [of 8 h] append_take_drop_id [of 4 "drop 8 h"]
      append_take_drop_id [of 4 "drop 12 h"] append_take_drop_id [of 4 "drop 16 h"]
    by (simp add: cut_def)
  assume "uuid_str u = uuid_str v"
  then have "cut (uuid_hex u) = cut (uuid_hex v)"
    by (simp add: uuid_str_def cut_def Let_def length_uuid_hex append_eq_append_conv)
  then show "u = v" using join uuid_hex_inj by metis
qed simp

lemma uuid_str_chars: "c \<in> set (uuid_str u) \<Longrightarrow> c = 45 \<or> (48 \<le> c \<and> c \<le> 57) \<or> (97 \<le> c \<and> c \<le> 102)"
proof -
  assume "c \<in> set (uuid_str u)"
  then have "c = 45 \<or> c \<in> set (uuid_hex u)"
    by (auto simp: uuid_str_def Let_def str_def dest: in_set_takeD in_set_dropD)
  then show ?thesis
    by (auto simp: uuid_hex_def hex_char_def dest!: hex_digits_bound)
qed

lemma uuid_str_not_Nil [simp]: "uuid_str u \<noteq> []"
  by (simp add: uuid_str_def Let_def)

section \<open>Results\<close>

text \<open>Points in time, as microseconds since the epoch (the resolution of both Python's
  \<open>datetime\<close> and Postgres' \<open>timestamptz\<close>).\<close>

type_synonym datetime = int

lemma sum_case_Inr: "(case x of Inl e \<Rightarrow> Inl e | Inr a \<Rightarrow> f a) = Inr b \<longleftrightarrow> (\<exists>a. x = Inr a \<and> f a = Inr b)"
  by (cases x) auto

end
