(* ===== verification/Schema.thy ===== *)
theory Schema
  imports Prelude
begin

text \<open>
  The data of the service: the enums and rows of \<open>src/models/db/\<close>, the authoring
  payload of \<open>src/models/api/automation.py\<close>, the limits, allowlist and error codes of
  \<open>src/contracts/\<close>, and the exceptions of \<open>src/exceptions.py\<close>. Field names carry a
  prefix per row type (\<open>a_\<close> automations, \<open>rv_\<close> revisions, \<open>r_\<close> runs, \<open>in_\<close> the
  authoring payload). Two columns are left out because no code of the service reads them:
  the random primary key of a revision row and the human-readable \<open>message\<close> of a
  \<open>FieldError\<close> (the UI keys off \<open>code\<close>).
\<close>

section \<open>Enums\<close>

datatype matching_state = INACTIVE | ACTIVE | DELETING | DELETED

datatype build_state = IDLE | BUILDING | BUILD_FAILED

datatype revision_action =
  CREATE | EDIT | ENABLE | DISABLE | DELETE | BUILD_SUCCEEDED | REV_BUILD_FAILED

datatype run_state = PENDING | SUBMITTED | SUCCEEDED | FAILED | STALLED | SUPPRESSED

datatype suppression_reason = DUPLICATE | COOLDOWN | SUPPRESSED_INACTIVE

datatype failure_class =
  TRANSIENT | PERMANENT | DEADLINE | UNCLASSIFIED | INFRA | TERMINATED_BY_DELETION

definition DELETION_STATES :: "matching_state list" where
  "DELETION_STATES = [DELETING, DELETED]"

lemma in_DELETION_STATES [simp]: "m \<in> set DELETION_STATES \<longleftrightarrow> m = DELETING \<or> m = DELETED"
  by (auto simp: DELETION_STATES_def)

text \<open>The pinned string values of the enums.\<close>

fun matching_state_value :: "matching_state \<Rightarrow> pystr" where
  "matching_state_value INACTIVE = str ''inactive''"
| "matching_state_value ACTIVE = str ''active''"
| "matching_state_value DELETING = str ''deleting''"
| "matching_state_value DELETED = str ''deleted''"

fun build_state_value :: "build_state \<Rightarrow> pystr" where
  "build_state_value IDLE = str ''idle''"
| "build_state_value BUILDING = str ''building''"
| "build_state_value BUILD_FAILED = str ''build_failed''"

section \<open>JSON values\<close>

text \<open>A decoded JSON value, as a JSONB column or an untyped \<open>list\<close> field holds it. An
  object is a dictionary, so its keys are distinct; a float is kept as its literal.\<close>

datatype json =
    JNull
  | JBool bool
  | JInt int
  | JFloat pystr
  | JStr pystr
  | JList "json list"
  | JObj "(pystr \<times> json) list"

section \<open>Rows\<close>

record automation =
  a_id :: uuid
  a_tenant_id :: pystr
  a_name :: pystr
  a_namespace :: pystr
  a_capp_deployment_id :: "pystr option"
  a_deployment_url :: "pystr option"
  a_triggers :: "json list"
  a_script_path :: pystr
  a_secret_name :: "pystr option"
  a_cooldown_seconds :: "int option"
  a_cooldown_fields :: "json list option"
  a_timeout_seconds :: "int option"
  a_grace_seconds :: int
  a_logstash_url :: "pystr option"
  a_matching_state :: matching_state
  a_build_state :: build_state
  a_active_digest :: "pystr option"
  a_building_sha :: "pystr option"
  a_contract_version :: "pystr option"
  a_build_lock_deadline :: "datetime option"
  a_delete_cascade_step :: "nat option"
  a_index_generation :: int
  a_created_by :: pystr
  a_updated_by :: pystr
  a_created_at :: datetime
  a_updated_at :: datetime

record automation_revision =
  rv_automation_id :: uuid
  rv_action :: revision_action
  rv_git_sha :: "pystr option"
  rv_resulting_digest :: "pystr option"
  rv_actor :: pystr
  rv_created_at :: datetime

record automation_run =
  r_run_id :: uuid
  r_automation_id :: uuid
  r_tenant_id :: pystr
  r_history_id :: pystr
  r_fingerprint :: pystr
  r_payload :: json
  r_state :: run_state
  r_suppression_reason :: "suppression_reason option"
  r_gate_flags :: "json option"
  r_automation_digest :: "pystr option"
  r_matched_m :: int
  r_attempts :: "int option"
  r_outcome_status :: "pystr option"
  r_failure_class :: "failure_class option"
  r_result :: "json option"
  r_created_at :: datetime
  r_submitted_at :: "datetime option"
  r_finished_at :: "datetime option"

text \<open>The authoring payload. It has no tenant: the tenant is an argument of every
  operation, taken from the session.\<close>

record automation_in =
  in_name :: pystr
  in_namespace :: pystr
  in_script :: pystr
  in_triggers :: "json list"
  in_secret_name :: "pystr option"
  in_cooldown_seconds :: "int option"
  in_cooldown_fields :: "json list option"
  in_timeout_seconds :: "int option"
  in_grace_seconds :: "int option"
  in_logstash_url :: "pystr option"

section \<open>Contracts: allowlist, limits, error codes\<close>

definition MATCHABLE_REQUIRED :: "pystr list" where
  "MATCHABLE_REQUIRED = map str [''application'', ''component'', ''status'', ''site'',
     ''severity'', ''environment'', ''operator'']"

definition MATCHABLE_OPTIONAL :: "pystr list" where
  "MATCHABLE_OPTIONAL = map str [''node_name'', ''network'']"

definition MATCHABLE_FIELDS :: "pystr set" where
  "MATCHABLE_FIELDS = set MATCHABLE_REQUIRED \<union> set MATCHABLE_OPTIONAL"

definition TRIGGERS_MIN :: nat where "TRIGGERS_MIN = 2"

definition TRIGGERS_MAX :: nat where "TRIGGERS_MAX = 9"

definition TRIGGER_VALUE_MAX_BYTES :: nat where "TRIGGER_VALUE_MAX_BYTES = 512"

definition COOLDOWN_FIELDS_MAX :: nat where "COOLDOWN_FIELDS_MAX = 9"

definition COOLDOWN_SECONDS_MAX :: int where "COOLDOWN_SECONDS_MAX = 86400"

definition TIMEOUT_SECONDS_MAX :: int where "TIMEOUT_SECONDS_MAX = 900"

definition TIMEOUT_SECONDS_DEFAULT :: int where "TIMEOUT_SECONDS_DEFAULT = 300"

definition GRACE_SECONDS_MIN :: int where "GRACE_SECONDS_MIN = 60"

definition GRACE_SECONDS_MAX :: int where "GRACE_SECONDS_MAX = 3600"

definition GRACE_SECONDS_DEFAULT :: int where "GRACE_SECONDS_DEFAULT = 300"

definition SCRIPT_MAX_BYTES :: nat where "SCRIPT_MAX_BYTES = 262144"

lemmas limits_defs = TRIGGERS_MIN_def TRIGGERS_MAX_def TRIGGER_VALUE_MAX_BYTES_def
  COOLDOWN_FIELDS_MAX_def COOLDOWN_SECONDS_MAX_def TIMEOUT_SECONDS_MAX_def
  TIMEOUT_SECONDS_DEFAULT_def GRACE_SECONDS_MIN_def GRACE_SECONDS_MAX_def
  GRACE_SECONDS_DEFAULT_def SCRIPT_MAX_BYTES_def

lemmas matchable_defs = MATCHABLE_FIELDS_def MATCHABLE_REQUIRED_def MATCHABLE_OPTIONAL_def

text \<open>The import-time assertions of \<open>limits.py\<close>.\<close>

lemma grace_default_covers_timeout: "TIMEOUT_SECONDS_DEFAULT \<le> GRACE_SECONDS_DEFAULT"
  by (simp add: limits_defs)

lemma card_MATCHABLE_FIELDS: "card MATCHABLE_FIELDS = 9"
  by (simp add: matchable_defs)

lemma finite_MATCHABLE_FIELDS [simp]: "finite MATCHABLE_FIELDS"
  by (simp add: matchable_defs)

lemma count_caps_track_allowlist:
  "TRIGGERS_MAX = card MATCHABLE_FIELDS" "COOLDOWN_FIELDS_MAX = card MATCHABLE_FIELDS"
  by (simp_all add: limits_defs card_MATCHABLE_FIELDS)

datatype error_code =
    FIELD_REQUIRED | INVALID_VALUE | TRIGGERS_TOO_FEW | TRIGGERS_TOO_MANY
  | TRIGGERS_DUPLICATE_FIELD | UNKNOWN_FIELD | INVALID_TRIGGER_SHAPE
  | TRIGGER_VALUE_TOO_LONG | COOLDOWN_OUT_OF_RANGE | COOLDOWN_FIELDS_REQUIRED
  | COOLDOWN_FIELDS_WITHOUT_SECONDS | COOLDOWN_FIELDS_TOO_MANY | TIMEOUT_OUT_OF_RANGE
  | GRACE_OUT_OF_RANGE | LOGSTASH_SCHEME_NOT_HTTPS | LOGSTASH_PRIVATE_ADDRESS
  | LOGSTASH_UNRESOLVABLE | SCRIPT_TOO_LARGE | SCRIPT_SYNTAX_ERROR | HANDLE_MISSING
  | HANDLE_BAD_ARITY | NAMESPACE_INVALID | NAMESPACE_IMMUTABLE | ACTIVE_DIGEST_REQUIRED

record field_error =
  fe_field :: pystr
  fe_code :: error_code

abbreviation field_err :: "pystr \<Rightarrow> error_code \<Rightarrow> field_error" where
  "field_err f c \<equiv> \<lparr>fe_field = f, fe_code = c\<rparr>"

section \<open>Exceptions\<close>

text \<open>
  The exceptions of \<open>exceptions.py\<close> and of the adapters, plus those of Python and
  SQLAlchemy that cross the service's own code. Every one is an \<open>Exception\<close>, so
  \<open>except Exception\<close> catches each. \<open>AutomationLifecycleConflictError\<close> carries the
  state whose \<open>.value\<close> the response renders.
\<close>

datatype exn =
    AutomationValidationError "field_error list"
  | AutomationNotFoundError
  | AutomationBuildingError
  | AutomationLifecycleConflictError matching_state
  | RunNotFoundError
  | BuildNotRecordedError
  | AutomationBusyError
  | LifecycleAuthenticationNotConfiguredError
  | AutomationEditSupersededError
  | ScriptRepoUnavailableError
  | CappUnavailableError
  | ExternalDependencyNotConfiguredError
  | RegistryError
  | CascadeStepError nat pystr
  | SQLAlchemyError
  | PySyntaxError
  | PyUnicodeEncodeError
  | PyValueError
  | PyKeyError
  | PyRuntimeError
  | PyException pystr

text \<open>The tables. A table is the list of its rows in insertion order; \<open>tenants\<close> is the
  key column of the platform's \<open>tenant\<close> table, the target of the foreign key.\<close>

record database =
  automations :: "automation list"
  revisions :: "automation_revision list"
  runs :: "automation_run list"
  tenants :: "pystr list"

end
