(* ===== verification/Store.thy ===== *)
theory Store
  imports Schema
begin

text \<open>
  The tables as the service uses them: \<open>SELECT \<dots> WHERE id = \<dots>\<close> (\<open>find_automation\<close>,
  \<open>find_run\<close>), \<open>UPDATE \<dots> WHERE \<dots>\<close> with its row count, the write-back of a loaded ORM
  row (\<open>put_automation\<close>), and the two inserts. The locale \<open>row_store\<close> states what a
  keyed table promises; it is interpreted for \<open>automations\<close> and \<open>automation_runs\<close>.
\<close>

section \<open>Tables\<close>

definition update_where :: "('r \<Rightarrow> bool) \<Rightarrow> ('r \<Rightarrow> 'r) \<Rightarrow> 'r list \<Rightarrow> 'r list" where
  "update_where p f t = map (\<lambda>r. if p r then f r else r) t"

definition rowcount :: "('r \<Rightarrow> bool) \<Rightarrow> 'r list \<Rightarrow> nat" where
  "rowcount p t = length (filter p t)"

lemma length_update_where [simp]: "length (update_where p f t) = length t"
  by (simp add: update_where_def)

lemma set_update_where: "set (update_where p f t) = (\<lambda>r. if p r then f r else r) ` set t"
  by (simp add: update_where_def)

lemma find_update_where:
  assumes "\<And>r. key (f r) = key r"
  shows "find (\<lambda>r. key r = k) (update_where p f t)
    = map_option (\<lambda>r. if p r then f r else r) (find (\<lambda>r. key r = k) t)"
  by (induction t) (auto simp: update_where_def assms)

lemma map_key_update_where:
  assumes "\<And>r. key (f r) = key r"
  shows "map key (update_where p f t) = map key t"
  using assms by (auto simp: update_where_def)

lemma find_key_Some:
  assumes "distinct (map key t)" and "r \<in> set t"
  shows "find (\<lambda>x. key x = key r) t = Some r"
  using assms by (induction t) (auto simp: image_iff)

lemma find_key_SomeD: "find (\<lambda>x. key x = k) t = Some r \<Longrightarrow> r \<in> set t \<and> key r = k"
  by (auto simp: find_Some_iff)

lemma rowcount_key:
  assumes "distinct (map key t)"
  shows "rowcount (\<lambda>r. key r = k \<and> q r) t
    = (case find (\<lambda>r. key r = k) t of None \<Rightarrow> 0 | Some r \<Rightarrow> if q r then 1 else 0)"
  using assms
proof (induction t)
  case Nil
  then show ?case by (simp add: rowcount_def)
next
  case (Cons x t)
  show ?case
  proof (cases "key x = k")
    case True
    with Cons.prems have "filter (\<lambda>r. key r = k \<and> q r) t = []"
      by (auto simp: filter_empty_conv image_iff)
    with True show ?thesis by (simp add: rowcount_def)
  next
    case False
    with Cons show ?thesis by (simp add: rowcount_def)
  qed
qed

text \<open>The contract of a keyed table inside a database: an update changes exactly the rows
  it selects, and keeps the primary key.\<close>

locale row_store =
  fixes key :: "'r \<Rightarrow> 'k"
    and rows :: "'d \<Rightarrow> 'r list"
    and get :: "'d \<Rightarrow> 'k \<Rightarrow> 'r option"
    and upd :: "('r \<Rightarrow> bool) \<Rightarrow> ('r \<Rightarrow> 'r) \<Rightarrow> 'd \<Rightarrow> 'd"
  assumes get_rows: "get d k = find (\<lambda>r. key r = k) (rows d)"
    and rows_upd: "rows (upd p f d) = update_where p f (rows d)"
begin

lemma get_upd:
  assumes "\<And>r. key (f r) = key r"
  shows "get (upd p f d) k = map_option (\<lambda>r. if p r then f r else r) (get d k)"
  using find_update_where [of key f, OF assms] by (simp add: get_rows rows_upd)

lemma keys_upd:
  assumes "\<And>r. key (f r) = key r"
  shows "map key (rows (upd p f d)) = map key (rows d)"
  using map_key_update_where [of key f, OF assms] by (simp add: rows_upd)

lemma get_key: "get d k = Some r \<Longrightarrow> key r = k"
  by (auto simp: get_rows dest: find_key_SomeD)

lemma get_in_rows: "get d k = Some r \<Longrightarrow> r \<in> set (rows d)"
  by (auto simp: get_rows dest: find_key_SomeD)

lemma get_of_row: "distinct (map key (rows d)) \<Longrightarrow> r \<in> set (rows d) \<Longrightarrow> get d (key r) = Some r"
  by (simp add: get_rows find_key_Some)

lemma get_None_iff: "get d k = None \<longleftrightarrow> k \<notin> key ` set (rows d)"
  by (auto simp: get_rows find_None_iff)

lemma rowcount_get:
  assumes "distinct (map key (rows d))"
  shows "rowcount (\<lambda>r. key r = k \<and> q r) (rows d)
    = (case get d k of None \<Rightarrow> 0 | Some r \<Rightarrow> if q r then 1 else 0)"
  using rowcount_key [OF assms] by (simp add: get_rows)

end

section \<open>The automation tables\<close>

definition find_automation :: "database \<Rightarrow> uuid \<Rightarrow> automation option" where
  "find_automation d i = find (\<lambda>a. a_id a = i) (automations d)"

definition update_automations ::
  "(automation \<Rightarrow> bool) \<Rightarrow> (automation \<Rightarrow> automation) \<Rightarrow> database \<Rightarrow> database" where
  "update_automations p f d = d\<lparr>automations := update_where p f (automations d)\<rparr>"

text \<open>Flushing a loaded row: the row with its id is replaced by the object's fields.\<close>

definition put_automation :: "automation \<Rightarrow> database \<Rightarrow> database" where
  "put_automation a d = update_automations (\<lambda>r. a_id r = a_id a) (\<lambda>_. a) d"

definition find_run :: "database \<Rightarrow> uuid \<Rightarrow> automation_run option" where
  "find_run d i = find (\<lambda>r. r_run_id r = i) (runs d)"

definition update_runs ::
  "(automation_run \<Rightarrow> bool) \<Rightarrow> (automation_run \<Rightarrow> automation_run) \<Rightarrow> database \<Rightarrow> database" where
  "update_runs p f d = d\<lparr>runs := update_where p f (runs d)\<rparr>"

definition add_revision :: "automation_revision \<Rightarrow> database \<Rightarrow> database" where
  "add_revision r d = d\<lparr>revisions := revisions d @ [r]\<rparr>"

definition update_revisions ::
  "(automation_revision \<Rightarrow> bool) \<Rightarrow> (automation_revision \<Rightarrow> automation_revision) \<Rightarrow> database \<Rightarrow> database" where
  "update_revisions p f d = d\<lparr>revisions := update_where p f (revisions d)\<rparr>"

text \<open>An insert the schema refuses raises: a duplicate primary key, or a tenant the foreign
  key does not find.\<close>

definition insert_automation :: "automation \<Rightarrow> database \<Rightarrow> exn + database" where
  "insert_automation a d =
     (if a_id a \<in> a_id ` set (automations d) \<or> a_tenant_id a \<notin> set (tenants d)
      then Inl SQLAlchemyError
      else Inr (d\<lparr>automations := automations d @ [a]\<rparr>))"

interpretation atab: row_store a_id automations find_automation update_automations
  by unfold_locales (simp_all add: find_automation_def update_automations_def)

interpretation rtab: row_store r_run_id runs find_run update_runs
  by unfold_locales (simp_all add: find_run_def update_runs_def)

lemma update_automations_frame [table_simps]:
  "revisions (update_automations p f d) = revisions d"
  "runs (update_automations p f d) = runs d"
  "tenants (update_automations p f d) = tenants d"
  "automations (update_automations p f d) = update_where p f (automations d)"
  by (simp_all add: update_automations_def)

lemma put_automation_frame [table_simps]:
  "revisions (put_automation a d) = revisions d"
  "runs (put_automation a d) = runs d"
  "tenants (put_automation a d) = tenants d"
  by (simp_all add: put_automation_def table_simps)

lemma add_revision_frame [table_simps]:
  "automations (add_revision r d) = automations d"
  "runs (add_revision r d) = runs d"
  "tenants (add_revision r d) = tenants d"
  "revisions (add_revision r d) = revisions d @ [r]"
  by (simp_all add: add_revision_def)

lemma update_revisions_frame [table_simps]:
  "automations (update_revisions p f d) = automations d"
  "runs (update_revisions p f d) = runs d"
  "tenants (update_revisions p f d) = tenants d"
  "revisions (update_revisions p f d) = update_where p f (revisions d)"
  by (simp_all add: update_revisions_def)

lemma update_runs_frame [table_simps]:
  "automations (update_runs p f d) = automations d"
  "revisions (update_runs p f d) = revisions d"
  "tenants (update_runs p f d) = tenants d"
  "runs (update_runs p f d) = update_where p f (runs d)"
  by (simp_all add: update_runs_def)

lemma find_automation_add_revision [table_simps]:
  "find_automation (add_revision r d) i = find_automation d i"
  by (simp add: find_automation_def table_simps)

lemma find_automation_update_revisions [table_simps]:
  "find_automation (update_revisions p f d) i = find_automation d i"
  by (simp add: find_automation_def table_simps)

lemma find_automation_update_runs [table_simps]:
  "find_automation (update_runs p f d) i = find_automation d i"
  by (simp add: find_automation_def table_simps)

lemma find_run_update_automations [table_simps]:
  "find_run (update_automations p f d) i = find_run d i"
  by (simp add: find_run_def table_simps)

lemma find_put_automation [table_simps]:
  "find_automation (put_automation a d) i =
     (if i = a_id a then map_option (\<lambda>_. a) (find_automation d i) else find_automation d i)"
proof -
  have "find (\<lambda>x. a_id x = i) (update_where (\<lambda>r. a_id r = a_id a) (\<lambda>_. a) t)
      = (if i = a_id a then map_option (\<lambda>_. a) (find (\<lambda>x. a_id x = i) t) else find (\<lambda>x. a_id x = i) t)"
    for t
    by (induction t) (auto simp: update_where_def)
  then show ?thesis by (simp add: find_automation_def put_automation_def table_simps)
qed

lemma keys_put_automation [table_simps]:
  "map a_id (automations (put_automation a d)) = map a_id (automations d)"
  by (auto simp: put_automation_def update_automations_def update_where_def)

lemma set_put_automation:
  "r \<in> set (automations (put_automation a d)) \<Longrightarrow> r = a \<or> (r \<in> set (automations d) \<and> a_id r \<noteq> a_id a)"
  by (auto simp: put_automation_def update_automations_def set_update_where split: if_splits)

lemma insert_automation_InrD:
  assumes "insert_automation a d = Inr d'"
  shows "d' = d\<lparr>automations := automations d @ [a]\<rparr>"
    and "a_id a \<notin> a_id ` set (automations d)" and "a_tenant_id a \<in> set (tenants d)"
  using assms by (auto simp: insert_automation_def split: if_splits)

lemma find_insert_automation:
  assumes "insert_automation a d = Inr d'"
  shows "find_automation d' i = (if i = a_id a then Some a else find_automation d i)"
proof -
  have "find_automation d (a_id a) = None"
    using insert_automation_InrD(2) [OF assms] by (simp add: atab.get_None_iff)
  moreover have "find (\<lambda>x. a_id x = i) (t @ [a])
      = (case find (\<lambda>x. a_id x = i) t of None \<Rightarrow> if a_id a = i then Some a else None | Some x \<Rightarrow> Some x)" for t
    by (induction t) auto
  ultimately show ?thesis
    using insert_automation_InrD(1) [OF assms]
    by (auto simp: find_automation_def split: option.splits)
qed

end
