(* ===== verification/Pylib.thy ===== *)
theory Pylib
  imports Prelude
begin

text \<open>
  The parts of Python 3.12's standard library the service's checks rest on:
  \<open>urllib.parse.urlsplit\<close> with the attributes of its result, and \<open>ipaddress\<close> up to \<open>is_global\<close>.
  The Unicode tables behind \<open>unicodedata.normalize("NFKC", \<dots>)\<close> and \<open>str.lower\<close> are
  parameters (\<open>unicode_tables\<close>); a \<open>ValueError\<close> is \<open>None\<close>.
\<close>

section \<open>Splitting strings at a character\<close>

text \<open>\<open>s.partition(c)\<close>: the part before the first \<open>c\<close> and, when there is one, the part after.\<close>

definition partition_at :: "nat \<Rightarrow> pystr \<Rightarrow> pystr \<times> pystr option" where
  "partition_at c s = (takeWhile (\<lambda>x. x \<noteq> c) s,
     (case dropWhile (\<lambda>x. x \<noteq> c) s of [] \<Rightarrow> None | _ # r \<Rightarrow> Some r))"

text \<open>\<open>s.rpartition(c)[2]\<close>: what follows the last \<open>c\<close>, or all of \<open>s\<close>.\<close>

definition after_last :: "nat \<Rightarrow> pystr \<Rightarrow> pystr" where
  "after_last c s = rev (takeWhile (\<lambda>x. x \<noteq> c) (rev s))"

fun split_at :: "nat \<Rightarrow> pystr \<Rightarrow> pystr list" where
  "split_at c [] = [[]]"
| "split_at c (x # xs) =
     (if x = c then [] # split_at c xs
      else (case split_at c xs of [] \<Rightarrow> [[x]] | p # ps \<Rightarrow> (x # p) # ps))"

lemma split_at_not_Nil [simp]: "split_at c s \<noteq> []"
  by (cases s) (auto split: list.splits)

lemma split_at_none: "c \<notin> set s \<Longrightarrow> split_at c s = [s]"
  by (induction s) auto

lemma partition_at_absent: "c \<notin> set s \<Longrightarrow> partition_at c s = (s, None)"
proof -
  assume "c \<notin> set s"
  then have "takeWhile (\<lambda>x. x \<noteq> c) s = s" and "dropWhile (\<lambda>x. x \<noteq> c) s = []"
    by (auto simp: takeWhile_eq_all_conv dropWhile_eq_Nil_conv)
  then show ?thesis by (simp only: partition_at_def list.case)
qed

lemma partition_at_append:
  assumes "c \<notin> set s"
  shows "partition_at c (s @ c # r) = (s, Some r)"
proof -
  have "takeWhile (\<lambda>x. x \<noteq> c) (s @ c # r) = s" and "dropWhile (\<lambda>x. x \<noteq> c) (s @ c # r) = c # r"
    using assms by (induction s) auto
  then show ?thesis by (simp add: partition_at_def)
qed

section \<open>Character classes\<close>

definition is_ascii_lower :: "nat \<Rightarrow> bool" where
  "is_ascii_lower c \<longleftrightarrow> 97 \<le> c \<and> c \<le> 122"

definition is_ascii_upper :: "nat \<Rightarrow> bool" where
  "is_ascii_upper c \<longleftrightarrow> 65 \<le> c \<and> c \<le> 90"

definition is_ascii_digit :: "nat \<Rightarrow> bool" where
  "is_ascii_digit c \<longleftrightarrow> 48 \<le> c \<and> c \<le> 57"

definition is_hex_lower :: "nat \<Rightarrow> bool" where
  "is_hex_lower c \<longleftrightarrow> is_ascii_digit c \<or> (97 \<le> c \<and> c \<le> 102)"

definition is_hex :: "nat \<Rightarrow> bool" where
  "is_hex c \<longleftrightarrow> is_hex_lower c \<or> (65 \<le> c \<and> c \<le> 70)"

definition ascii_lower :: "pystr \<Rightarrow> pystr" where
  "ascii_lower s = map (\<lambda>c. if is_ascii_upper c then c + 32 else c) s"

definition digit_value :: "nat \<Rightarrow> nat" where
  "digit_value c =
     (if is_ascii_digit c then c - 48 else if 97 \<le> c then c - 87 else c - 55)"

definition int_of_digits :: "nat \<Rightarrow> pystr \<Rightarrow> nat" where
  "int_of_digits base s = foldl (\<lambda>n c. n * base + digit_value c) 0 s"

lemmas char_class_defs = is_ascii_lower_def is_ascii_upper_def is_ascii_digit_def
  is_hex_lower_def is_hex_def

section \<open>IP addresses\<close>

datatype ip = IPv4Address nat | IPv6Address nat

definition parse_octet :: "pystr \<Rightarrow> nat option" where
  "parse_octet s =
     (if s = [] \<or> \<not> list_all is_ascii_digit s \<or> 3 < length s \<or> (s \<noteq> [48] \<and> hd s = 48)
      then None
      else let n = int_of_digits 10 s in if 255 < n then None else Some n)"

definition ipv4_of_string :: "pystr \<Rightarrow> nat option" where
  "ipv4_of_string s =
     (if s = [] \<or> 47 \<in> set s then None
      else case split_at 46 s of
        [a, b, c, d] \<Rightarrow>
          (case (parse_octet a, parse_octet b, parse_octet c, parse_octet d) of
             (Some i, Some j, Some k, Some l) \<Rightarrow> Some (((i * 256 + j) * 256 + k) * 256 + l)
           | _ \<Rightarrow> None)
      | _ \<Rightarrow> None)"

definition parse_hextet :: "pystr \<Rightarrow> nat option" where
  "parse_hextet s =
     (if \<not> list_all is_hex s \<or> 4 < length s \<or> s = [] then None else Some (int_of_digits 16 s))"

text \<open>The hextets of one side of \<open>::\<close>, most significant first.\<close>

fun join_hextets :: "nat \<Rightarrow> pystr list \<Rightarrow> nat option" where
  "join_hextets acc [] = Some acc"
| "join_hextets acc (p # ps) =
     (case parse_hextet p of None \<Rightarrow> None | Some h \<Rightarrow> join_hextets (acc * 65536 + h) ps)"

definition hex4 :: "nat \<Rightarrow> pystr" where
  "hex4 n = map hex_char (hex_digits 4 n)"

text \<open>The dotted suffix of an IPv6 string, rewritten to two hextets.\<close>

definition expand_ipv4_suffix :: "pystr list \<Rightarrow> pystr list option" where
  "expand_ipv4_suffix parts =
     (if 46 \<in> set (last parts)
      then (case ipv4_of_string (last parts) of
              None \<Rightarrow> None
            | Some v4 \<Rightarrow> Some (butlast parts @ [hex4 (v4 div 65536), hex4 (v4 mod 65536)]))
      else Some parts)"

definition skip_indices :: "pystr list \<Rightarrow> nat list" where
  "skip_indices parts = filter (\<lambda>i. parts ! i = []) [1..<length parts - 1]"

definition ipv6_of_parts :: "pystr list \<Rightarrow> nat option" where
  "ipv6_of_parts parts =
     (case skip_indices parts of
        [] \<Rightarrow>
          if length parts \<noteq> 8 \<or> hd parts = [] \<or> last parts = [] then None
          else join_hextets 0 parts
      | [i] \<Rightarrow>
          (let hi = (if hd parts = [] then i - 1 else i);
               lo = (if last parts = [] then length parts - i - 2 else length parts - i - 1)
           in if (hd parts = [] \<and> hi \<noteq> 0) \<or> (last parts = [] \<and> lo \<noteq> 0) \<or> 8 < hi + lo + 1 then None
              else (case join_hextets 0 (take hi parts) of
                      None \<Rightarrow> None
                    | Some h \<Rightarrow>
                        join_hextets (h * 65536 ^ (8 - (hi + lo))) (drop (length parts - lo) parts)))
      | _ \<Rightarrow> None)"

definition ipv6_of_string :: "pystr \<Rightarrow> nat option" where
  "ipv6_of_string s =
     (if 47 \<in> set s then None
      else case partition_at 37 s of (addr, scope) \<Rightarrow>
        (if (case scope of None \<Rightarrow> False | Some z \<Rightarrow> z = [] \<or> 37 \<in> set z) then None
         else if addr = [] \<or> length (split_at 58 addr) < 3 then None
         else case expand_ipv4_suffix (split_at 58 addr) of
                None \<Rightarrow> None
              | Some parts \<Rightarrow> if 9 < length parts then None else ipv6_of_parts parts))"

definition ip_address :: "pystr \<Rightarrow> ip option" where
  "ip_address s =
     (case ipv4_of_string s of
        Some n \<Rightarrow> Some (IPv4Address n)
      | None \<Rightarrow> map_option IPv6Address (ipv6_of_string s))"

definition in_network :: "nat \<Rightarrow> nat \<Rightarrow> nat \<times> nat \<Rightarrow> bool" where
  "in_network width ip net =
     (case net of (base, len) \<Rightarrow> ip div 2 ^ (width - len) = base div 2 ^ (width - len))"

definition v4 :: "nat \<Rightarrow> nat \<Rightarrow> nat \<Rightarrow> nat \<Rightarrow> nat" where
  "v4 a b c d = ((a * 256 + b) * 256 + c) * 256 + d"

definition v4_private_networks :: "(nat \<times> nat) list" where
  "v4_private_networks =
     [(v4 0 0 0 0, 8), (v4 10 0 0 0, 8), (v4 127 0 0 0, 8), (v4 169 254 0 0, 16),
      (v4 172 16 0 0, 12), (v4 192 0 0 0, 24), (v4 192 0 0 170, 31), (v4 192 0 2 0, 24),
      (v4 192 168 0 0, 16), (v4 198 18 0 0, 15), (v4 198 51 100 0, 24), (v4 203 0 113 0, 24),
      (v4 240 0 0 0, 4), (v4 255 255 255 255, 32)]"

definition v4_private_exceptions :: "(nat \<times> nat) list" where
  "v4_private_exceptions = [(v4 192 0 0 9, 32), (v4 192 0 0 10, 32)]"

text \<open>\<open>v6 hi k\<close>: the address whose leading hextets, up to \<open>k\<close> of them, spell \<open>hi\<close>.\<close>

definition v6 :: "nat \<Rightarrow> nat \<Rightarrow> nat" where
  "v6 hi k = hi * 65536 ^ (8 - k)"

definition v6_private_networks :: "(nat \<times> nat) list" where
  "v6_private_networks =
     [(1, 128), (0, 128), (0xFFFF * 2 ^ 32, 96), (v6 0x0064FF9B0001 3, 48), (v6 0x100 1, 64),
      (v6 0x2001 1, 23), (v6 0x20010DB8 2, 32), (v6 0x2002 1, 16), (v6 0xFC00 1, 7), (v6 0xFE80 1, 10)]"

definition v6_private_exceptions :: "(nat \<times> nat) list" where
  "v6_private_exceptions =
     [(v6 0x20010001 2 + 1, 128), (v6 0x20010001 2 + 2, 128), (v6 0x20010003 2, 32),
      (v6 0x200100040112 3, 48), (v6 0x20010020 2, 28), (v6 0x20010030 2, 28)]"

definition v4_is_private :: "nat \<Rightarrow> bool" where
  "v4_is_private n \<longleftrightarrow> list_ex (in_network 32 n) v4_private_networks
     \<and> \<not> list_ex (in_network 32 n) v4_private_exceptions"

definition v6_is_private :: "nat \<Rightarrow> bool" where
  "v6_is_private n \<longleftrightarrow>
     (if n div 2 ^ 32 = 0xFFFF then v4_is_private (n mod 2 ^ 32)
      else list_ex (in_network 128 n) v6_private_networks
        \<and> \<not> list_ex (in_network 128 n) v6_private_exceptions)"

text \<open>\<open>is_global\<close>: 100.64.0.0/10 is neither private nor global for an \<open>IPv4Address\<close>; an
  \<open>IPv6Address\<close> is global exactly when it is not private.\<close>

fun is_global :: "ip \<Rightarrow> bool" where
  "is_global (IPv4Address n) \<longleftrightarrow> \<not> in_network 32 n (v4 100 64 0 0, 10) \<and> \<not> v4_is_private n"
| "is_global (IPv6Address n) \<longleftrightarrow> \<not> v6_is_private n"

lemmas ip_defs = in_network_def v4_def v6_def v4_private_networks_def v4_private_exceptions_def
  v6_private_networks_def v6_private_exceptions_def v4_is_private_def v6_is_private_def

lemmas ip_parse_defs = ip_address_def ipv4_of_string_def parse_octet_def int_of_digits_def
  digit_value_def char_class_defs ipv6_of_string_def partition_at_def expand_ipv4_suffix_def
  ipv6_of_parts_def skip_indices_def parse_hextet_def

section \<open>URLs\<close>

record unicode_tables =
  u_nfkc :: "pystr \<Rightarrow> pystr"
  u_lower :: "pystr \<Rightarrow> pystr"

record split_result =
  url_scheme :: pystr
  url_netloc :: pystr
  url_path :: pystr
  url_query :: pystr
  url_fragment :: pystr

definition scheme_char :: "nat \<Rightarrow> bool" where
  "scheme_char c \<longleftrightarrow> is_ascii_lower c \<or> is_ascii_upper c \<or> is_ascii_digit c \<or> c \<in> set [43, 45, 46]"

text \<open>\<open>lstrip\<close> of C0 controls and space, then removal of tab, CR and LF.\<close>

definition clean_url :: "pystr \<Rightarrow> pystr" where
  "clean_url u = filter (\<lambda>c. c \<notin> set [9, 13, 10]) (dropWhile (\<lambda>c. c \<le> 32) u)"

definition split_scheme :: "pystr \<Rightarrow> pystr \<times> pystr" where
  "split_scheme u =
     (case partition_at 58 u of
        (s, Some rest) \<Rightarrow>
          if s \<noteq> [] \<and> (is_ascii_lower (hd s) \<or> is_ascii_upper (hd s)) \<and> list_all scheme_char s
          then (ascii_lower s, rest) else ([], u)
      | (_, None) \<Rightarrow> ([], u))"

definition split_netloc :: "pystr \<Rightarrow> pystr" where
  "split_netloc u = (if take 2 u = [47, 47]
     then takeWhile (\<lambda>c. c \<notin> set [47, 63, 35]) (drop 2 u) else [])"

definition split_tail :: "pystr \<Rightarrow> pystr" where
  "split_tail u = (if take 2 u = [47, 47]
     then dropWhile (\<lambda>c. c \<notin> set [47, 63, 35]) (drop 2 u) else u)"

definition text_of :: "pystr option \<Rightarrow> pystr" where
  "text_of t = (case t of None \<Rightarrow> [] | Some s \<Rightarrow> s)"

definition bracketed_host_ok :: "pystr \<Rightarrow> bool" where
  "bracketed_host_ok h =
     (if take 1 h = [118]
      then (case partition_at 46 (tl h) of
              (hex, Some rest) \<Rightarrow> hex \<noteq> [] \<and> list_all is_hex hex \<and> rest \<noteq> []
            | (_, None) \<Rightarrow> False)
      else (case ip_address h of Some (IPv6Address _) \<Rightarrow> True | _ \<Rightarrow> False))"

definition bracketed_netloc_ok :: "pystr \<Rightarrow> bool" where
  "bracketed_netloc_ok n =
     (let hp = after_last 64 n in
      case partition_at 91 hp of
        (pre, Some bracketed) \<Rightarrow>
          (case partition_at 93 bracketed of (host, port) \<Rightarrow>
             pre = [] \<and> (case port of None \<Rightarrow> True | Some p \<Rightarrow> p = [] \<or> hd p = 58)
               \<and> bracketed_host_ok host)
      | (_, None) \<Rightarrow> bracketed_host_ok (fst (partition_at 58 hp)))"

definition netloc_nfkc_ok :: "unicode_tables \<Rightarrow> pystr \<Rightarrow> bool" where
  "netloc_nfkc_ok u n =
     (if n = [] \<or> list_all (\<lambda>c. c < 128) n then True
      else let m = filter (\<lambda>c. c \<notin> set [64, 58, 35, 63]) n in
        u_nfkc u m = m \<or> list_all (\<lambda>c. c \<notin> set [47, 63, 35, 64, 58]) (u_nfkc u m))"

definition urlsplit :: "unicode_tables \<Rightarrow> pystr \<Rightarrow> split_result option" where
  "urlsplit u url =
     (case split_scheme (clean_url url) of (scheme, rest) \<Rightarrow>
        let netloc = split_netloc rest in
        if (91 \<in> set netloc) \<noteq> (93 \<in> set netloc) then None
        else if 91 \<in> set netloc \<and> \<not> bracketed_netloc_ok netloc then None
        else if \<not> netloc_nfkc_ok u netloc then None
        else case partition_at 35 (split_tail rest) of (located, fragment) \<Rightarrow>
          (case partition_at 63 located of (path, query) \<Rightarrow>
            Some \<lparr>url_scheme = scheme, url_netloc = netloc, url_path = path,
                  url_query = text_of query, url_fragment = text_of fragment\<rparr>))"

text \<open>The \<open>hostname\<close> attribute: lowercased up to a zone, \<open>None\<close> when empty.\<close>

definition url_hostname :: "unicode_tables \<Rightarrow> split_result \<Rightarrow> pystr option" where
  "url_hostname u r =
     (let hi = after_last 64 (url_netloc r);
          h = (case partition_at 91 hi of
                 (_, Some bracketed) \<Rightarrow> fst (partition_at 93 bracketed)
               | (_, None) \<Rightarrow> fst (partition_at 58 hi))
      in if h = [] then None
         else case partition_at 37 h of
                (a, None) \<Rightarrow> Some (u_lower u a)
              | (a, Some z) \<Rightarrow> Some (u_lower u a @ [37] @ z))"

text \<open>The \<open>username\<close> and \<open>password\<close> attributes: \<open>netloc.rpartition("@")\<close>, then \<open>partition(":")\<close>.\<close>

definition before_last :: "nat \<Rightarrow> pystr \<Rightarrow> pystr option" where
  "before_last c s = (if c \<in> set s then Some (take (length s - length (after_last c s) - 1) s) else None)"

definition url_username :: "split_result \<Rightarrow> pystr option" where
  "url_username r = map_option (\<lambda>i. fst (partition_at 58 i)) (before_last 64 (url_netloc r))"

definition url_password :: "split_result \<Rightarrow> pystr option" where
  "url_password r = Option.bind (before_last 64 (url_netloc r)) (\<lambda>i. snd (partition_at 58 i))"

lemmas url_defs = split_tail_def text_of_def urlsplit_def clean_url_def split_scheme_def partition_at_def scheme_char_def
  split_netloc_def ascii_lower_def after_last_def netloc_nfkc_ok_def char_class_defs

end
