(* ===== verification/Validation.thy ===== *)
theory Validation
  imports Store Pylib
begin

text \<open>
  The authoring checks: \<open>src/bl/validation.py\<close>, \<open>src/bl/namespaces.py\<close>,
  \<open>src/bl/ssrf.py\<close>, \<open>src/bl/ast_check.py\<close> and the byte cap of
  \<open>src/models/api/automation.py\<close>. A check returns the list of field errors, or the
  exception that escapes it. What they take from outside is a parameter
  (\<open>validation_env\<close>): Python's parser, the name resolver and the Unicode tables.
  The theorems say which payloads pass, that the error list cannot be amplified by the
  size of the request, and which inputs make a check raise instead of reporting.
\<close>

section \<open>Parameters\<close>

datatype stmt =
    FunctionDef pystr "pystr list" "pystr list"
  | AsyncFunctionDef pystr "pystr list" "pystr list"
  | OtherStmt

text \<open>\<open>getaddrinfo\<close>: the addresses, or how the lookup failed, and the milliseconds it took.\<close>

datatype dns_answer = Addresses "pystr list" | LookupFailed | LookupRaised exn

datatype resolution = Resolved "pystr list" | ResolveTimeout | ResolveFailed | ResolveRaised exn

record validation_env =
  ve_ast_parse :: "pystr \<Rightarrow> exn + stmt list"
  ve_getaddrinfo :: "pystr \<Rightarrow> dns_answer \<times> nat"
  ve_unicode :: unicode_tables

section \<open>namespaces.py\<close>

definition validate_namespace :: "pystr \<Rightarrow> field_error option" where
  "validate_namespace ns =
     (if blank ns then Some (field_err (str ''namespace'') NAMESPACE_INVALID) else None)"

section \<open>ast_check.py\<close>

definition HANDLE_PARAMS_MIN :: nat where "HANDLE_PARAMS_MIN = 1"

definition HANDLE_PARAMS_MAX :: nat where "HANDLE_PARAMS_MAX = 2"

text \<open>The top-level functions named \<open>handle\<close>, each as its positional parameters.\<close>

fun handle_params :: "stmt \<Rightarrow> (pystr list \<times> pystr list) option" where
  "handle_params (FunctionDef n pos args) = (if n = str ''handle'' then Some (pos, args) else None)"
| "handle_params (AsyncFunctionDef n pos args) = (if n = str ''handle'' then Some (pos, args) else None)"
| "handle_params OtherStmt = None"

definition first_handle :: "stmt list \<Rightarrow> (pystr list \<times> pystr list) option" where
  "first_handle body = (case List.map_filter handle_params body of [] \<Rightarrow> None | h # _ \<Rightarrow> Some h)"

definition validate_script :: "(pystr \<Rightarrow> exn + stmt list) \<Rightarrow> pystr \<Rightarrow> exn + field_error list" where
  "validate_script ast_parse script =
     (case utf8_encode script of
        None \<Rightarrow> Inl PyUnicodeEncodeError
      | Some bs \<Rightarrow>
          if SCRIPT_MAX_BYTES < length bs then Inr [field_err (str ''script'') SCRIPT_TOO_LARGE]
          else (case ast_parse script of
            Inl PySyntaxError \<Rightarrow> Inr [field_err (str ''script'') SCRIPT_SYNTAX_ERROR]
          | Inl e \<Rightarrow> Inl e
          | Inr body \<Rightarrow>
              (case first_handle body of
                 None \<Rightarrow> Inr [field_err (str ''script'') HANDLE_MISSING]
               | Some (posonlyargs, args) \<Rightarrow>
                   let positional = length posonlyargs + length args in
                   if \<not> (HANDLE_PARAMS_MIN \<le> positional \<and> positional \<le> HANDLE_PARAMS_MAX)
                   then Inr [field_err (str ''script'') HANDLE_BAD_ARITY]
                   else Inr [])))"

text \<open>The model-boundary guard of \<open>AutomationIn\<close>; \<open>UnicodeEncodeError\<close> is a
  \<open>ValueError\<close>, so pydantic reports either as a field error.\<close>

definition script_within_byte_cap :: "pystr \<Rightarrow> exn + pystr" where
  "script_within_byte_cap value =
     (case utf8_encode value of
        None \<Rightarrow> Inl PyUnicodeEncodeError
      | Some bs \<Rightarrow> if SCRIPT_MAX_BYTES < length bs then Inl PyValueError else Inr value)"

section \<open>ssrf.py\<close>

definition RESOLVE_TIMEOUT_MS :: nat where "RESOLVE_TIMEOUT_MS = 3000"

text \<open>
  \<open>future.result(timeout=3)\<close> gives up after three seconds, but the \<open>with
  ThreadPoolExecutor\<close> block around it ends with \<open>shutdown(wait=True)\<close>, which waits for the
  worker: the caller is released when \<open>getaddrinfo\<close> returns. The second component is the
  time the call takes.
\<close>

definition resolve_bounded ::
  "(pystr \<Rightarrow> dns_answer \<times> nat) \<Rightarrow> pystr \<Rightarrow> resolution \<times> nat" where
  "resolve_bounded getaddrinfo hostname =
     (case getaddrinfo hostname of (answer, ms) \<Rightarrow>
        ((if RESOLVE_TIMEOUT_MS < ms then ResolveTimeout
          else case answer of
                 Addresses addrs \<Rightarrow> Resolved addrs
               | LookupFailed \<Rightarrow> ResolveFailed
               | LookupRaised e \<Rightarrow> ResolveRaised e), ms))"

text \<open>The address loop: an unparsable address is skipped, the first non-global one decides.\<close>

fun any_non_global :: "pystr list \<Rightarrow> bool" where
  "any_non_global [] = False"
| "any_non_global (a # as) =
     (case ip_address a of
        None \<Rightarrow> any_non_global as
      | Some ip \<Rightarrow> if \<not> is_global ip then True else any_non_global as)"

definition validate_logstash_url ::
  "unicode_tables \<Rightarrow> (pystr \<Rightarrow> dns_answer \<times> nat) \<Rightarrow> pystr option \<Rightarrow> exn + field_error list" where
  "validate_logstash_url u getaddrinfo logstash_url =
     (case logstash_url of
        None \<Rightarrow> Inr []
      | Some url \<Rightarrow>
          (case urlsplit u url of
             None \<Rightarrow> Inl PyValueError
           | Some parsed \<Rightarrow>
               (if url_scheme parsed \<noteq> str ''https'' then
                  Inr [field_err (str ''logstash_url'') LOGSTASH_SCHEME_NOT_HTTPS]
                else case url_hostname u parsed of
                  None \<Rightarrow> Inr [field_err (str ''logstash_url'') LOGSTASH_SCHEME_NOT_HTTPS]
                | Some hostname \<Rightarrow>
                    (case fst (resolve_bounded getaddrinfo hostname) of
                       ResolveTimeout \<Rightarrow> Inr [field_err (str ''logstash_url'') LOGSTASH_UNRESOLVABLE]
                     | ResolveFailed \<Rightarrow> Inr [field_err (str ''logstash_url'') LOGSTASH_UNRESOLVABLE]
                     | ResolveRaised e \<Rightarrow> Inl e
                     | Resolved addresses \<Rightarrow>
                         if any_non_global addresses
                         then Inr [field_err (str ''logstash_url'') LOGSTASH_PRIVATE_ADDRESS]
                         else Inr []))))"

section \<open>validation.py\<close>

text \<open>A condition of the exact shape \<open>{"field": str, "value": str}\<close>, as its two strings.\<close>

definition condition_parts :: "json \<Rightarrow> (pystr \<times> pystr) option" where
  "condition_parts condition =
     (case condition of
        JObj kvs \<Rightarrow>
          if fst ` set kvs \<noteq> {str ''field'', str ''value''} then None
          else (case (map_of kvs (str ''field''), map_of kvs (str ''value'')) of
                  (Some (JStr f), Some (JStr v)) \<Rightarrow> Some (f, v)
                | _ \<Rightarrow> None)
      | _ \<Rightarrow> None)"

definition trigger_path :: "nat \<Rightarrow> pystr" where
  "trigger_path i = str ''triggers['' @ dec i @ str '']''"

text \<open>One pass of the loop body: the errors appended and the fields seen so far.\<close>

definition check_condition ::
  "nat \<Rightarrow> pystr list \<Rightarrow> json \<Rightarrow> exn + (field_error list \<times> pystr list)" where
  "check_condition i seen condition =
     (case condition_parts condition of
        None \<Rightarrow> Inr ([field_err (trigger_path i) INVALID_TRIGGER_SHAPE], seen)
      | Some (field_name, val) \<Rightarrow>
          (case utf8_encode val of
             None \<Rightarrow> Inl PyUnicodeEncodeError
           | Some bs \<Rightarrow>
               let long = (if TRIGGER_VALUE_MAX_BYTES < length bs
                           then [field_err (trigger_path i @ str ''.value'') TRIGGER_VALUE_TOO_LONG]
                           else [])
               in if field_name \<notin> MATCHABLE_FIELDS
                  then Inr (long @ [field_err (trigger_path i @ str ''.field'') UNKNOWN_FIELD], seen)
                  else if field_name \<in> set seen
                  then Inr (long @ [field_err (trigger_path i @ str ''.field'') TRIGGERS_DUPLICATE_FIELD], seen)
                  else Inr (long, field_name # seen)))"

fun check_conditions :: "nat \<Rightarrow> pystr list \<Rightarrow> json list \<Rightarrow> exn + field_error list" where
  "check_conditions i seen [] = Inr []"
| "check_conditions i seen (c # cs) =
     (case check_condition i seen c of
        Inl e \<Rightarrow> Inl e
      | Inr (errs, seen') \<Rightarrow>
          (case check_conditions (Suc i) seen' cs of
             Inl e \<Rightarrow> Inl e
           | Inr rest \<Rightarrow> Inr (errs @ rest)))"

definition validate_triggers :: "json list \<Rightarrow> exn + field_error list" where
  "validate_triggers triggers =
     (if TRIGGERS_MAX < length triggers
      then Inr [field_err (str ''triggers'') TRIGGERS_TOO_MANY]
      else (case check_conditions 0 [] triggers of
              Inl e \<Rightarrow> Inl e
            | Inr errs \<Rightarrow>
                Inr ((if length triggers < TRIGGERS_MIN
                      then [field_err (str ''triggers'') TRIGGERS_TOO_FEW] else []) @ errs)))"

fun matchable_name :: "json \<Rightarrow> bool" where
  "matchable_name (JStr f) = (f \<in> MATCHABLE_FIELDS)"
| "matchable_name _ = False"

fun check_cooldown_fields :: "nat \<Rightarrow> json list \<Rightarrow> field_error list" where
  "check_cooldown_fields i [] = []"
| "check_cooldown_fields i (f # fs) =
     (if \<not> matchable_name f
      then [field_err (str ''cooldown_fields['' @ dec i @ str '']'') UNKNOWN_FIELD] else [])
     @ check_cooldown_fields (Suc i) fs"

definition validate_cooldown :: "int option \<Rightarrow> json list option \<Rightarrow> field_error list" where
  "validate_cooldown cooldown_seconds cooldown_fields =
     (let coupling =
        (case cooldown_seconds of
           Some s \<Rightarrow>
             (if s \<le> 0 \<or> COOLDOWN_SECONDS_MAX < s
              then [field_err (str ''cooldown_seconds'') COOLDOWN_OUT_OF_RANGE] else [])
             @ (if cooldown_fields = None
                then [field_err (str ''cooldown_fields'') COOLDOWN_FIELDS_REQUIRED] else [])
         | None \<Rightarrow>
             if cooldown_fields \<noteq> None
             then [field_err (str ''cooldown_fields'') COOLDOWN_FIELDS_WITHOUT_SECONDS] else []);
        fields = (case cooldown_fields of None \<Rightarrow> [] | Some fs \<Rightarrow> fs)
      in if COOLDOWN_FIELDS_MAX < length fields
         then coupling @ [field_err (str ''cooldown_fields'') COOLDOWN_FIELDS_TOO_MANY]
         else coupling @ check_cooldown_fields 0 fields)"

definition validate_timeout :: "int option \<Rightarrow> field_error list" where
  "validate_timeout timeout_seconds =
     (case timeout_seconds of
        None \<Rightarrow> []
      | Some s \<Rightarrow> if s \<le> 0 \<or> TIMEOUT_SECONDS_MAX < s
                  then [field_err (str ''timeout_seconds'') TIMEOUT_OUT_OF_RANGE] else [])"

definition validate_grace :: "int option \<Rightarrow> field_error list" where
  "validate_grace grace_seconds =
     (case grace_seconds of
        None \<Rightarrow> []
      | Some s \<Rightarrow> if s < GRACE_SECONDS_MIN \<or> GRACE_SECONDS_MAX < s
                  then [field_err (str ''grace_seconds'') GRACE_OUT_OF_RANGE] else [])"

definition validate_automation :: "validation_env \<Rightarrow> automation_in \<Rightarrow> exn + field_error list" where
  "validate_automation env data =
     (let ns = (case validate_namespace (in_namespace data) of None \<Rightarrow> [] | Some e \<Rightarrow> [e]) in
      case validate_triggers (in_triggers data) of
        Inl e \<Rightarrow> Inl e
      | Inr trig \<Rightarrow>
          let own = ns @ trig
                @ validate_cooldown (in_cooldown_seconds data) (in_cooldown_fields data)
                @ validate_timeout (in_timeout_seconds data)
                @ validate_grace (in_grace_seconds data)
          in (case validate_logstash_url (ve_unicode env) (ve_getaddrinfo env) (in_logstash_url data) of
                Inl e \<Rightarrow> Inl e
              | Inr url \<Rightarrow>
                  (case validate_script (ve_ast_parse env) (in_script data) of
                     Inl e \<Rightarrow> Inl e
                   | Inr script \<Rightarrow> Inr (own @ url @ script))))"

lemmas validation_defs = validate_namespace_def validate_script_def validate_logstash_url_def
  validate_triggers_def validate_cooldown_def validate_timeout_def validate_grace_def

section \<open>What the checks accept\<close>

definition condition_ok :: "json \<Rightarrow> bool" where
  "condition_ok c \<longleftrightarrow>
     (case condition_parts c of
        None \<Rightarrow> False
      | Some (f, v) \<Rightarrow> f \<in> MATCHABLE_FIELDS
          \<and> (case utf8_encode v of None \<Rightarrow> False | Some bs \<Rightarrow> length bs \<le> TRIGGER_VALUE_MAX_BYTES))"

definition condition_field :: "json \<Rightarrow> pystr" where
  "condition_field c = (case condition_parts c of None \<Rightarrow> [] | Some (f, _) \<Rightarrow> f)"

definition triggers_ok :: "json list \<Rightarrow> bool" where
  "triggers_ok ts \<longleftrightarrow> TRIGGERS_MIN \<le> length ts \<and> length ts \<le> TRIGGERS_MAX
     \<and> list_all condition_ok ts \<and> distinct (map condition_field ts)"

definition cooldown_ok :: "int option \<Rightarrow> json list option \<Rightarrow> bool" where
  "cooldown_ok secs flds \<longleftrightarrow>
     (case (secs, flds) of
        (None, None) \<Rightarrow> True
      | (Some s, Some fs) \<Rightarrow> 0 < s \<and> s \<le> COOLDOWN_SECONDS_MAX
          \<and> length fs \<le> COOLDOWN_FIELDS_MAX \<and> list_all matchable_name fs
      | _ \<Rightarrow> False)"

definition logstash_ok :: "unicode_tables \<Rightarrow> (pystr \<Rightarrow> dns_answer \<times> nat) \<Rightarrow> pystr \<Rightarrow> bool" where
  "logstash_ok u g url \<longleftrightarrow>
     (\<exists>parsed host addrs ms. urlsplit u url = Some parsed \<and> url_scheme parsed = str ''https''
        \<and> url_hostname u parsed = Some host \<and> g host = (Addresses addrs, ms)
        \<and> ms \<le> RESOLVE_TIMEOUT_MS
        \<and> (\<forall>a \<in> set addrs. \<forall>ip. ip_address a = Some ip \<longrightarrow> is_global ip))"

definition script_ok :: "(pystr \<Rightarrow> exn + stmt list) \<Rightarrow> pystr \<Rightarrow> bool" where
  "script_ok p s \<longleftrightarrow>
     (\<exists>bs body posonly args. utf8_encode s = Some bs \<and> length bs \<le> SCRIPT_MAX_BYTES
        \<and> p s = Inr body \<and> first_handle body = Some (posonly, args)
        \<and> 1 \<le> length posonly + length args \<and> length posonly + length args \<le> 2)"

definition authoring_ok :: "validation_env \<Rightarrow> automation_in \<Rightarrow> bool" where
  "authoring_ok env data \<longleftrightarrow>
     \<not> blank (in_namespace data)
     \<and> triggers_ok (in_triggers data)
     \<and> cooldown_ok (in_cooldown_seconds data) (in_cooldown_fields data)
     \<and> (\<forall>s. in_timeout_seconds data = Some s \<longrightarrow> 0 < s \<and> s \<le> TIMEOUT_SECONDS_MAX)
     \<and> (\<forall>s. in_grace_seconds data = Some s \<longrightarrow> GRACE_SECONDS_MIN \<le> s \<and> s \<le> GRACE_SECONDS_MAX)
     \<and> (\<forall>url. in_logstash_url data = Some url \<longrightarrow> logstash_ok (ve_unicode env) (ve_getaddrinfo env) url)
     \<and> script_ok (ve_ast_parse env) (in_script data)"

section \<open>Triggers\<close>

lemma check_condition_clean_iff:
  "check_condition i seen c = Inr ([], seen') \<longleftrightarrow>
     condition_ok c \<and> condition_field c \<notin> set seen \<and> seen' = condition_field c # seen"
  by (auto simp: check_condition_def condition_ok_def condition_field_def Let_def
      split: option.splits prod.splits if_splits)

lemma check_conditions_clean_iff:
  "check_conditions i seen cs = Inr [] \<longleftrightarrow>
     list_all condition_ok cs \<and> distinct (map condition_field cs)
       \<and> set (map condition_field cs) \<inter> set seen = {}"
proof (induction cs arbitrary: i seen)
  case (Cons c cs)
  have "check_conditions i seen (c # cs) = Inr [] \<longleftrightarrow>
      (\<exists>seen'. check_condition i seen c = Inr ([], seen') \<and> check_conditions (Suc i) seen' cs = Inr [])"
    by (auto split: sum.splits prod.splits)
  also have "\<dots> \<longleftrightarrow> condition_ok c \<and> condition_field c \<notin> set seen
      \<and> check_conditions (Suc i) (condition_field c # seen) cs = Inr []"
    by (auto simp: check_condition_clean_iff)
  finally show ?case by (auto simp: Cons.IH)
qed simp

lemma check_condition_length: "check_condition i seen c = Inr (errs, seen') \<Longrightarrow> length errs \<le> 2"
  by (auto simp: check_condition_def Let_def split: option.splits prod.splits if_splits)

lemma check_conditions_length:
  "check_conditions i seen cs = Inr errs \<Longrightarrow> length errs \<le> 2 * length cs"
proof (induction cs arbitrary: i seen errs)
  case (Cons c cs)
  then obtain e1 seen' rest where "check_condition i seen c = Inr (e1, seen')"
    and "check_conditions (Suc i) seen' cs = Inr rest" and "errs = e1 @ rest"
    by (auto split: sum.splits prod.splits)
  with Cons.IH [of "Suc i" seen' rest] check_condition_length [of i seen c e1 seen']
  show ?case by simp
qed simp

definition surrogate_value :: "json \<Rightarrow> bool" where
  "surrogate_value c \<longleftrightarrow>
     (case condition_parts c of None \<Rightarrow> False | Some (_, v) \<Rightarrow> list_ex is_surrogate v)"

lemma check_condition_raises:
  "check_condition i seen c = Inl e \<longleftrightarrow> surrogate_value c \<and> e = PyUnicodeEncodeError"
  by (auto simp: check_condition_def surrogate_value_def utf8_encode_def Let_def
      split: option.splits prod.splits if_splits)

lemma check_conditions_raises:
  "check_conditions i seen cs = Inl e \<longleftrightarrow> list_ex surrogate_value cs \<and> e = PyUnicodeEncodeError"
proof (induction cs arbitrary: i seen)
  case (Cons c cs)
  show ?case
  proof (cases "check_condition i seen c")
    case (Inl e')
    then have "surrogate_value c \<and> e' = PyUnicodeEncodeError" by (simp add: check_condition_raises)
    with Inl show ?thesis by auto
  next
    case (Inr p)
    then have "\<not> surrogate_value c" using check_condition_raises [of i seen c PyUnicodeEncodeError] by auto
    with Inr Cons.IH show ?thesis by (cases p) (auto split: sum.splits)
  qed
qed simp

lemma validate_triggers_accepts_iff: "validate_triggers ts = Inr [] \<longleftrightarrow> triggers_ok ts"
  using check_conditions_clean_iff [of 0 "[]" ts]
  by (auto simp: validate_triggers_def triggers_ok_def split: sum.splits)

lemma validate_triggers_not_amplified:
  assumes "validate_triggers ts = Inr errs"
  shows "length errs \<le> 2 * TRIGGERS_MAX"
proof (cases "check_conditions 0 [] ts")
  case (Inl e)
  with assms show ?thesis by (auto simp: validate_triggers_def limits_defs split: if_splits)
next
  case (Inr es)
  from check_conditions_length [OF this] Inr assms show ?thesis
    by (auto simp: validate_triggers_def limits_defs split: if_splits)
qed

lemma validate_triggers_raises_iff:
  "validate_triggers ts = Inl e \<longleftrightarrow>
     length ts \<le> TRIGGERS_MAX \<and> list_ex surrogate_value ts \<and> e = PyUnicodeEncodeError"
  using check_conditions_raises [of 0 "[]" ts e]
  by (auto simp: validate_triggers_def split: sum.splits)

section \<open>The other fields\<close>

lemma check_cooldown_fields_clean_iff: "check_cooldown_fields i fs = [] \<longleftrightarrow> list_all matchable_name fs"
  by (induction fs arbitrary: i) auto

lemma validate_cooldown_accepts_iff: "validate_cooldown secs flds = [] \<longleftrightarrow> cooldown_ok secs flds"
  by (auto simp: validate_cooldown_def cooldown_ok_def Let_def check_cooldown_fields_clean_iff
      split: option.splits if_splits)

lemma any_non_global_iff:
  "any_non_global addrs \<longleftrightarrow> (\<exists>a \<in> set addrs. \<exists>ip. ip_address a = Some ip \<and> \<not> is_global ip)"
  by (induction addrs) (auto split: option.splits)

lemma resolve_bounded_Resolved_iff:
  "fst (resolve_bounded g h) = Resolved addrs \<longleftrightarrow>
     (\<exists>ms. g h = (Addresses addrs, ms) \<and> ms \<le> RESOLVE_TIMEOUT_MS)"
  by (auto simp: resolve_bounded_def split: prod.splits dns_answer.splits)

lemma validate_logstash_url_accepts_iff:
  "validate_logstash_url u g (Some url) = Inr [] \<longleftrightarrow> logstash_ok u g url"
proof -
  have "validate_logstash_url u g (Some url) = Inr [] \<longleftrightarrow>
      (\<exists>parsed host addrs. urlsplit u url = Some parsed \<and> url_scheme parsed = str ''https''
        \<and> url_hostname u parsed = Some host \<and> fst (resolve_bounded g host) = Resolved addrs
        \<and> \<not> any_non_global addrs)"
    by (auto simp: validate_logstash_url_def split: option.splits resolution.splits)
  then show ?thesis
    unfolding logstash_ok_def resolve_bounded_Resolved_iff any_non_global_iff by blast
qed

lemma validate_script_accepts_iff: "validate_script p s = Inr [] \<longleftrightarrow> script_ok p s"
  by (auto simp: validate_script_def script_ok_def Let_def HANDLE_PARAMS_MIN_def HANDLE_PARAMS_MAX_def
      split: option.splits sum.splits exn.splits)

lemma validate_timeout_accepts_iff:
  "validate_timeout t = [] \<longleftrightarrow> (\<forall>s. t = Some s \<longrightarrow> 0 < s \<and> s \<le> TIMEOUT_SECONDS_MAX)"
  by (auto simp: validate_timeout_def split: option.splits)

lemma validate_grace_accepts_iff:
  "validate_grace t = [] \<longleftrightarrow> (\<forall>s. t = Some s \<longrightarrow> GRACE_SECONDS_MIN \<le> s \<and> s \<le> GRACE_SECONDS_MAX)"
  by (auto simp: validate_grace_def split: option.splits)

lemma validate_namespace_accepts_iff: "validate_namespace ns = None \<longleftrightarrow> \<not> blank ns"
  by (simp add: validate_namespace_def)

lemma validate_automation_accepts_iff: "validate_automation env data = Inr [] \<longleftrightarrow> authoring_ok env data"
proof -
  have url: "validate_logstash_url u g x = Inr [] \<longleftrightarrow> (\<forall>url. x = Some url \<longrightarrow> logstash_ok u g url)" for u g x
    by (cases x) (auto simp: validate_logstash_url_accepts_iff, simp add: validate_logstash_url_def)
  have "validate_automation env data = Inr [] \<longleftrightarrow>
      validate_namespace (in_namespace data) = None
      \<and> validate_triggers (in_triggers data) = Inr []
      \<and> validate_cooldown (in_cooldown_seconds data) (in_cooldown_fields data) = []
      \<and> validate_timeout (in_timeout_seconds data) = []
      \<and> validate_grace (in_grace_seconds data) = []
      \<and> validate_logstash_url (ve_unicode env) (ve_getaddrinfo env) (in_logstash_url data) = Inr []
      \<and> validate_script (ve_ast_parse env) (in_script data) = Inr []"
    by (auto simp: validate_automation_def Let_def split: option.splits sum.splits)
  then show ?thesis
    by (simp add: authoring_ok_def validate_namespace_accepts_iff validate_triggers_accepts_iff
        validate_cooldown_accepts_iff validate_timeout_accepts_iff validate_grace_accepts_iff url
        validate_script_accepts_iff)
qed

section \<open>What the checks report\<close>

text \<open>The rule an error is about: its field up to the index or the unit.\<close>

definition error_rule :: "field_error \<Rightarrow> pystr" where
  "error_rule e = takeWhile (\<lambda>c. c \<noteq> 91 \<and> c \<noteq> 95) (fe_field e)"

text \<open>A check reports one rule, within a number of errors.\<close>

definition reports :: "pystr \<Rightarrow> nat \<Rightarrow> bool \<Rightarrow> field_error list \<Rightarrow> bool" where
  "reports rule n ok errs \<longleftrightarrow>
     error_rule ` set errs = (if ok then {} else {rule}) \<and> length errs \<le> n"

lemma reportsI:
  assumes "\<And>e. e \<in> set errs \<Longrightarrow> error_rule e = rule" and "errs = [] \<longleftrightarrow> ok" and "length errs \<le> n"
  shows "reports rule n ok errs"
  using assms by (cases errs) (auto simp: reports_def)

lemma check_condition_rule:
  "check_condition i seen c = Inr (errs, seen') \<Longrightarrow> e \<in> set errs \<Longrightarrow> error_rule e = str ''triggers''"
  by (auto simp: check_condition_def Let_def error_rule_def trigger_path_def str_def
      split: option.splits prod.splits if_splits)

lemma check_conditions_rule:
  "check_conditions i seen cs = Inr errs \<Longrightarrow> e \<in> set errs \<Longrightarrow> error_rule e = str ''triggers''"
  by (induction cs arbitrary: i seen errs)
    (auto split: sum.splits prod.splits dest: check_condition_rule)

lemma triggers_report:
  assumes "validate_triggers ts = Inr errs"
  shows "reports (str ''triggers'') 18 (triggers_ok ts) errs"
proof (rule reportsI)
  show "error_rule e = str ''triggers''" if "e \<in> set errs" for e
    using assms that check_conditions_rule [of 0 "[]" ts _ e]
    by (auto simp: validate_triggers_def error_rule_def [of "field_err f c" for f c] str_def split: if_splits sum.splits)
  show "errs = [] \<longleftrightarrow> triggers_ok ts" using validate_triggers_accepts_iff [of ts] assms by auto
  show "length errs \<le> 18" using validate_triggers_not_amplified [OF assms] by (simp add: limits_defs)
qed

lemma cooldown_fields_report:
  "(\<forall>e \<in> set (check_cooldown_fields i fs). error_rule e = str ''cooldown'')
   \<and> length (check_cooldown_fields i fs) \<le> length fs"
  by (induction fs arbitrary: i) (auto simp: error_rule_def str_def le_SucI)

lemma cooldown_report: "reports (str ''cooldown'') 11 (cooldown_ok secs flds) (validate_cooldown secs flds)"
proof (rule reportsI)
  note fields = cooldown_fields_report [of 0]
  show "error_rule e = str ''cooldown''" if "e \<in> set (validate_cooldown secs flds)" for e
    using that fields
    by (auto simp: validate_cooldown_def Let_def error_rule_def [of "field_err f c" for f c] str_def
        split: option.splits if_splits)
  show "validate_cooldown secs flds = [] \<longleftrightarrow> cooldown_ok secs flds" by (rule validate_cooldown_accepts_iff)
  have "length (check_cooldown_fields 0 fs) \<le> 9" "length (check_cooldown_fields 0 fs) \<le> 10"
      "length (check_cooldown_fields 0 fs) \<le> 11" if "length fs \<le> 9" for fs
    using fields [of fs] that by simp_all
  then show "length (validate_cooldown secs flds) \<le> 11"
    by (auto simp: validate_cooldown_def Let_def limits_defs not_less split: option.splits if_splits)
qed

lemma single_reports:
  "reports (str ''namespace'') 1 (\<not> blank ns) (case validate_namespace ns of None \<Rightarrow> [] | Some e \<Rightarrow> [e])"
  "reports (str ''timeout'') 1 (\<forall>s. t = Some s \<longrightarrow> 0 < s \<and> s \<le> TIMEOUT_SECONDS_MAX) (validate_timeout t)"
  "reports (str ''grace'') 1 (\<forall>s. t = Some s \<longrightarrow> GRACE_SECONDS_MIN \<le> s \<and> s \<le> GRACE_SECONDS_MAX) (validate_grace t)"
  by (auto simp: reports_def error_rule_def validate_namespace_def validate_timeout_def validate_grace_def str_def
      split: option.splits)

lemma logstash_report:
  assumes "validate_logstash_url u g x = Inr errs"
  shows "reports (str ''logstash'') 1 (\<forall>url. x = Some url \<longrightarrow> logstash_ok u g url) errs"
proof (rule reportsI)
  show "error_rule e = str ''logstash''" if "e \<in> set errs" for e
    using assms that
    by (auto simp: validate_logstash_url_def error_rule_def str_def split: option.splits resolution.splits if_splits)
  show "errs = [] \<longleftrightarrow> (\<forall>url. x = Some url \<longrightarrow> logstash_ok u g url)"
    using assms validate_logstash_url_accepts_iff [of u g "the x"]
    by (cases x) (auto simp: validate_logstash_url_def [of u g None])
  show "length errs \<le> 1"
    using assms by (auto simp: validate_logstash_url_def split: option.splits resolution.splits if_splits)
qed

lemma script_report:
  assumes "validate_script p s = Inr errs"
  shows "reports (str ''script'') 1 (script_ok p s) errs"
proof (rule reportsI)
  show "error_rule e = str ''script''" if "e \<in> set errs" for e
    using assms that
    by (auto simp: validate_script_def Let_def error_rule_def str_def split: option.splits sum.splits exn.splits if_splits)
  show "errs = [] \<longleftrightarrow> script_ok p s" using assms validate_script_accepts_iff [of p s] by auto
  show "length errs \<le> 1"
    using assms by (auto simp: validate_script_def Let_def split: option.splits sum.splits exn.splits if_splits)
qed

section \<open>Every violation, with its field and its code\<close>

text \<open>What a payload violates, rule by rule and entry by entry, without the order, the accumulation or
  the early exits of the checks.\<close>

definition violated :: "bool \<Rightarrow> pystr \<Rightarrow> error_code \<Rightarrow> field_error set" where
  "violated b f c = (if b then {field_err f c} else {})"

definition fields_named :: "json list \<Rightarrow> pystr set" where
  "fields_named ts = {f. \<exists>c \<in> set ts. \<exists>v. condition_parts c = Some (f, v)}"

definition condition_violations :: "nat \<Rightarrow> pystr set \<Rightarrow> json \<Rightarrow> field_error set" where
  "condition_violations i earlier c =
     (case condition_parts c of
        None \<Rightarrow> {field_err (trigger_path i) INVALID_TRIGGER_SHAPE}
      | Some (f, v) \<Rightarrow>
          violated (\<exists>bs. utf8_encode v = Some bs \<and> TRIGGER_VALUE_MAX_BYTES < length bs)
            (trigger_path i @ str ''.value'') TRIGGER_VALUE_TOO_LONG
        \<union> violated (f \<notin> MATCHABLE_FIELDS) (trigger_path i @ str ''.field'') UNKNOWN_FIELD
        \<union> violated (f \<in> MATCHABLE_FIELDS \<and> f \<in> earlier) (trigger_path i @ str ''.field'') TRIGGERS_DUPLICATE_FIELD)"

definition trigger_violations :: "json list \<Rightarrow> field_error set" where
  "trigger_violations ts =
     (if TRIGGERS_MAX < length ts then {field_err (str ''triggers'') TRIGGERS_TOO_MANY}
      else violated (length ts < TRIGGERS_MIN) (str ''triggers'') TRIGGERS_TOO_FEW
         \<union> (\<Union>i \<in> {0..<length ts}. condition_violations i (fields_named (take i ts)) (ts ! i)))"

definition cooldown_violations :: "int option \<Rightarrow> json list option \<Rightarrow> field_error set" where
  "cooldown_violations secs flds =
     violated (\<exists>s. secs = Some s \<and> \<not> (0 < s \<and> s \<le> COOLDOWN_SECONDS_MAX)) (str ''cooldown_seconds'') COOLDOWN_OUT_OF_RANGE
   \<union> violated (secs \<noteq> None \<and> flds = None) (str ''cooldown_fields'') COOLDOWN_FIELDS_REQUIRED
   \<union> violated (secs = None \<and> flds \<noteq> None) (str ''cooldown_fields'') COOLDOWN_FIELDS_WITHOUT_SECONDS
   \<union> (case flds of
        None \<Rightarrow> {}
      | Some fs \<Rightarrow>
          if COOLDOWN_FIELDS_MAX < length fs then {field_err (str ''cooldown_fields'') COOLDOWN_FIELDS_TOO_MANY}
          else \<Union>i \<in> {0..<length fs}. violated (\<not> matchable_name (fs ! i))
            (str ''cooldown_fields['' @ dec i @ str '']'') UNKNOWN_FIELD)"

definition logstash_violations ::
  "unicode_tables \<Rightarrow> (pystr \<Rightarrow> dns_answer \<times> nat) \<Rightarrow> pystr \<Rightarrow> field_error set" where
  "logstash_violations u g url =
     (case urlsplit u url of
        None \<Rightarrow> {}
      | Some parsed \<Rightarrow>
          if url_scheme parsed \<noteq> str ''https'' \<or> url_hostname u parsed = None
          then {field_err (str ''logstash_url'') LOGSTASH_SCHEME_NOT_HTTPS}
          else let answer = g (the (url_hostname u parsed)) in
            violated (RESOLVE_TIMEOUT_MS < snd answer \<or> fst answer = LookupFailed)
              (str ''logstash_url'') LOGSTASH_UNRESOLVABLE
          \<union> violated (snd answer \<le> RESOLVE_TIMEOUT_MS
               \<and> (\<exists>addrs. fst answer = Addresses addrs \<and> (\<exists>a \<in> set addrs. \<exists>ip. ip_address a = Some ip \<and> \<not> is_global ip)))
              (str ''logstash_url'') LOGSTASH_PRIVATE_ADDRESS)"

definition script_violations :: "(pystr \<Rightarrow> exn + stmt list) \<Rightarrow> pystr \<Rightarrow> field_error set" where
  "script_violations p s =
     (if \<exists>bs. utf8_encode s = Some bs \<and> SCRIPT_MAX_BYTES < length bs then {field_err (str ''script'') SCRIPT_TOO_LARGE}
      else violated (p s = Inl PySyntaxError) (str ''script'') SCRIPT_SYNTAX_ERROR
         \<union> violated (\<exists>body. p s = Inr body \<and> first_handle body = None) (str ''script'') HANDLE_MISSING
         \<union> violated (\<exists>body pos args. p s = Inr body \<and> first_handle body = Some (pos, args)
              \<and> length pos + length args \<notin> {1, 2}) (str ''script'') HANDLE_BAD_ARITY)"

definition violations :: "validation_env \<Rightarrow> automation_in \<Rightarrow> field_error set" where
  "violations env data =
     violated (blank (in_namespace data)) (str ''namespace'') NAMESPACE_INVALID
   \<union> trigger_violations (in_triggers data)
   \<union> cooldown_violations (in_cooldown_seconds data) (in_cooldown_fields data)
   \<union> violated (\<exists>s. in_timeout_seconds data = Some s \<and> \<not> (0 < s \<and> s \<le> TIMEOUT_SECONDS_MAX))
       (str ''timeout_seconds'') TIMEOUT_OUT_OF_RANGE
   \<union> violated (\<exists>s. in_grace_seconds data = Some s \<and> \<not> (GRACE_SECONDS_MIN \<le> s \<and> s \<le> GRACE_SECONDS_MAX))
       (str ''grace_seconds'') GRACE_OUT_OF_RANGE
   \<union> (case in_logstash_url data of
        None \<Rightarrow> {}
      | Some url \<Rightarrow> logstash_violations (ve_unicode env) (ve_getaddrinfo env) url)
   \<union> script_violations (ve_ast_parse env) (in_script data)"

text \<open>The checks report exactly the violations, each once.\<close>

lemma fields_named_simps [simp]:
  "fields_named [] = {}" "fields_named (xs @ ys) = fields_named xs \<union> fields_named ys"
  by (auto simp: fields_named_def)

lemma fields_named_single: "fields_named [c] = (case condition_parts c of None \<Rightarrow> {} | Some (f, _) \<Rightarrow> {f})"
  by (auto simp: fields_named_def split: option.splits)

lemma check_condition_violations:
  assumes "check_condition i seen c = Inr (errs, seen')" and "set seen = earlier \<inter> MATCHABLE_FIELDS"
  shows "set errs = condition_violations i earlier c \<and> set seen' = (earlier \<union> fields_named [c]) \<inter> MATCHABLE_FIELDS"
proof (cases "condition_parts c")
  case None
  with assms show ?thesis by (auto simp: check_condition_def condition_violations_def fields_named_single)
next
  case (Some p)
  obtain f v where p: "condition_parts c = Some (f, v)" using Some by (cases p) simp
  then obtain bs where bs: "utf8_encode v = Some bs" using assms(1) by (auto simp: check_condition_def split: option.splits)
  have seen: "f \<in> set seen \<longleftrightarrow> f \<in> earlier \<and> f \<in> MATCHABLE_FIELDS" by (simp add: assms(2))
  have "errs = (if TRIGGER_VALUE_MAX_BYTES < length bs then [field_err (trigger_path i @ str ''.value'') TRIGGER_VALUE_TOO_LONG] else [])
      @ (if f \<notin> MATCHABLE_FIELDS then [field_err (trigger_path i @ str ''.field'') UNKNOWN_FIELD]
         else if f \<in> earlier then [field_err (trigger_path i @ str ''.field'') TRIGGERS_DUPLICATE_FIELD] else [])"
    and "seen' = (if f \<in> MATCHABLE_FIELDS \<and> f \<notin> earlier then f # seen else seen)"
    using assms(1) unfolding check_condition_def p bs Let_def option.case prod.case seen by (simp_all split: if_splits)
  then show ?thesis
    unfolding condition_violations_def violated_def fields_named_single p option.case prod.case bs
    using assms(2) by (cases "f \<in> MATCHABLE_FIELDS"; cases "f \<in> earlier") (simp_all add: insert_absorb)
qed

lemma check_conditions_violations:
  assumes "check_conditions (length pre) seen cs = Inr errs" and "set seen = fields_named pre \<inter> MATCHABLE_FIELDS"
  shows "set errs = (\<Union>i \<in> {length pre..<length pre + length cs}.
    condition_violations i (fields_named (take i (pre @ cs))) ((pre @ cs) ! i))"
  using assms
proof (induction cs arbitrary: pre seen errs)
  case (Cons c cs)
  then obtain e1 seen' rest where c: "check_condition (length pre) seen c = Inr (e1, seen')"
    and cs: "check_conditions (Suc (length pre)) seen' cs = Inr rest" and errs: "errs = e1 @ rest"
    by (auto split: sum.splits prod.splits)
  note head = check_condition_violations [OF c Cons.prems(2), THEN conjunct1] check_condition_violations [OF c Cons.prems(2), THEN conjunct2]
  have "set rest = (\<Union>i \<in> {length (pre @ [c])..<length (pre @ [c]) + length cs}.
      condition_violations i (fields_named (take i ((pre @ [c]) @ cs))) (((pre @ [c]) @ cs) ! i))"
    by (rule Cons.IH [where seen = seen']) (use cs head(2) in simp_all)
  moreover have "{length pre..<length pre + length (c # cs)}
      = insert (length pre) {length (pre @ [c])..<length (pre @ [c]) + length cs}" by auto
  ultimately show ?case using head(1) by (simp add: errs)
qed simp

lemma check_conditions_distinct:
  assumes "check_conditions i seen cs = Inr errs" and "i + length cs \<le> 10"
  shows "distinct errs \<and> (\<forall>e \<in> set errs. 9 < length (fe_field e) \<and> 48 + i \<le> fe_field e ! 9)"
  using assms
proof (induction cs arbitrary: i seen errs)
  case (Cons c cs)
  then obtain e1 seen' rest where c: "check_condition i seen c = Inr (e1, seen')"
    and cs: "check_conditions (Suc i) seen' cs = Inr rest" and errs: "errs = e1 @ rest"
    by (auto split: sum.splits prod.splits)
  have "trigger_path i = str ''triggers['' @ [48 + i, 93]"
    using Cons.prems(2) by (simp add: trigger_path_def str_def)
  then have "distinct e1 \<and> (\<forall>e \<in> set e1. 9 < length (fe_field e) \<and> fe_field e ! 9 = 48 + i)"
    using c by (auto simp: check_condition_def Let_def str_def split: option.splits prod.splits if_splits)
  moreover have "distinct rest \<and> (\<forall>e \<in> set rest. 9 < length (fe_field e) \<and> 48 + Suc i \<le> fe_field e ! 9)"
    by (rule Cons.IH [OF cs]) (use Cons.prems(2) in simp)
  ultimately show ?case by (fastforce simp: errs)
qed simp

lemma triggers_violations:
  assumes "validate_triggers ts = Inr errs"
  shows "set errs = trigger_violations ts \<and> distinct errs"
proof (cases "TRIGGERS_MAX < length ts")
  case True
  with assms show ?thesis by (auto simp: validate_triggers_def trigger_violations_def)
next
  case False
  with assms obtain es where es: "check_conditions 0 [] ts = Inr es"
    and errs: "errs = (if length ts < TRIGGERS_MIN then [field_err (str ''triggers'') TRIGGERS_TOO_FEW] else []) @ es"
    by (auto simp: validate_triggers_def split: sum.splits)
  have "distinct es \<and> (\<forall>e \<in> set es. 9 < length (fe_field e))"
    using check_conditions_distinct [OF es] False by (auto simp: limits_defs)
  then have "distinct errs" by (auto simp: errs str_def)
  moreover have "set es = (\<Union>i \<in> {0..<length ts}. condition_violations i (fields_named (take i ts)) (ts ! i))"
    using check_conditions_violations [of "[]" "[]" ts es] es by simp
  ultimately show ?thesis using False by (simp add: errs trigger_violations_def violated_def)
qed

lemma check_cooldown_fields_violations:
  "set (check_cooldown_fields (length pre) fs) = (\<Union>i \<in> {length pre..<length pre + length fs}.
     violated (\<not> matchable_name ((pre @ fs) ! i)) (str ''cooldown_fields['' @ dec i @ str '']'') UNKNOWN_FIELD)"
proof (induction fs arbitrary: pre)
  case (Cons f fs)
  have "{length pre..<length pre + length (f # fs)}
      = insert (length pre) {length (pre @ [f])..<length (pre @ [f]) + length fs}" by auto
  with Cons.IH [of "pre @ [f]"] show ?case
    by (cases "matchable_name f") (simp_all add: violated_def [of True] violated_def [of False])
qed simp

lemma check_cooldown_fields_distinct:
  "i + length fs \<le> 10 \<Longrightarrow> distinct (check_cooldown_fields i fs)
   \<and> (\<forall>e \<in> set (check_cooldown_fields i fs). 16 < length (fe_field e) \<and> 48 + i \<le> fe_field e ! 16)"
proof (induction fs arbitrary: i)
  case (Cons f fs)
  have "distinct (check_cooldown_fields (Suc i) fs)
      \<and> (\<forall>e \<in> set (check_cooldown_fields (Suc i) fs). 16 < length (fe_field e) \<and> 48 + Suc i \<le> fe_field e ! 16)"
    by (rule Cons.IH) (use Cons.prems in simp)
  moreover have "dec i = [48 + i]" using Cons.prems by simp
  ultimately show ?case by (fastforce simp: str_def)
qed simp

lemma cooldown_violations:
  "set (validate_cooldown secs flds) = cooldown_violations secs flds \<and> distinct (validate_cooldown secs flds)"
proof (cases flds)
  case None
  then show ?thesis
    by (cases secs) (auto simp: validate_cooldown_def cooldown_violations_def violated_def Let_def limits_defs str_def)
next
  case (Some fs)
  define fields where "fields = (if COOLDOWN_FIELDS_MAX < length fs
    then [field_err (str ''cooldown_fields'') COOLDOWN_FIELDS_TOO_MANY] else check_cooldown_fields 0 fs)"
  have long: "distinct fields \<and> (\<forall>e \<in> set fields. fe_code e \<in> {COOLDOWN_FIELDS_TOO_MANY, UNKNOWN_FIELD})"
  proof -
    have "fe_code e = UNKNOWN_FIELD" if "e \<in> set (check_cooldown_fields i fs)" for e i
      using that by (induction fs arbitrary: i) (auto split: if_splits)
    with check_cooldown_fields_distinct [of 0 fs] show ?thesis by (auto simp: fields_def limits_defs)
  qed
  have "validate_cooldown secs flds =
      (case secs of
         Some s \<Rightarrow> if s \<le> 0 \<or> COOLDOWN_SECONDS_MAX < s then [field_err (str ''cooldown_seconds'') COOLDOWN_OUT_OF_RANGE] else []
       | None \<Rightarrow> [field_err (str ''cooldown_fields'') COOLDOWN_FIELDS_WITHOUT_SECONDS]) @ fields"
    by (auto simp: validate_cooldown_def Some Let_def fields_def split: option.splits)
  moreover have "cooldown_violations secs flds = set (case secs of
         Some s \<Rightarrow> if s \<le> 0 \<or> COOLDOWN_SECONDS_MAX < s then [field_err (str ''cooldown_seconds'') COOLDOWN_OUT_OF_RANGE] else []
       | None \<Rightarrow> [field_err (str ''cooldown_fields'') COOLDOWN_FIELDS_WITHOUT_SECONDS]) \<union> set fields"
    using check_cooldown_fields_violations [of "[]" fs]
    by (auto simp: cooldown_violations_def Some fields_def violated_def split: option.splits)
  ultimately show ?thesis using long by (auto split: option.splits)
qed

lemma reportsD: "reports rule n ok errs \<Longrightarrow> e \<in> set errs \<Longrightarrow> error_rule e = rule"
  by (auto simp: reports_def split: if_splits)

lemma distinct_concat_tagged:
  assumes "list_all2 (\<lambda>t xs. distinct xs \<and> (\<forall>x \<in> set xs. f x = t)) ts xss" and "distinct ts"
  shows "distinct (concat xss) \<and> f ` set (concat xss) \<subseteq> set ts"
  using assms by (induction rule: list_all2_induct) fastforce+

lemma distinct_short: "length xs \<le> 1 \<Longrightarrow> distinct xs"
  by (cases xs) auto

lemma single_violations:
  "set (case validate_namespace ns of None \<Rightarrow> [] | Some e \<Rightarrow> [e]) = violated (blank ns) (str ''namespace'') NAMESPACE_INVALID"
  "set (validate_timeout t) = violated (\<exists>s. t = Some s \<and> \<not> (0 < s \<and> s \<le> TIMEOUT_SECONDS_MAX))
     (str ''timeout_seconds'') TIMEOUT_OUT_OF_RANGE"
  "set (validate_grace t) = violated (\<exists>s. t = Some s \<and> \<not> (GRACE_SECONDS_MIN \<le> s \<and> s \<le> GRACE_SECONDS_MAX))
     (str ''grace_seconds'') GRACE_OUT_OF_RANGE"
  by (auto simp: validate_namespace_def validate_timeout_def validate_grace_def violated_def split: option.splits)

lemma logstash_url_violations:
  assumes "validate_logstash_url u g x = Inr errs"
  shows "set errs = (case x of None \<Rightarrow> {} | Some url \<Rightarrow> logstash_violations u g url)"
  using assms any_non_global_iff
  by (auto simp: validate_logstash_url_def logstash_violations_def violated_def resolve_bounded_def Let_def
      split: option.splits prod.splits dns_answer.splits if_splits)

lemma script_reports_violations:
  assumes "validate_script p s = Inr errs"
  shows "set errs = script_violations p s"
  using assms
  by (auto simp: validate_script_def script_violations_def violated_def Let_def HANDLE_PARAMS_MIN_def HANDLE_PARAMS_MAX_def
      split: option.splits sum.splits exn.splits prod.splits if_splits)

section \<open>Properties\<close>

text \<open>C37. A create or edit payload passes validation (the accumulated error list is empty
  and no check raises) exactly when it satisfies every authoring rule at once: a non-blank
  wallet, two to nine exact-equality conditions on distinct matchable fields with values of at
  most 512 UTF-8 bytes, coupled and bounded cooldown, timeout and grace in range, an https
  logstash URL whose every resolved address is global, and a script of bounded size that
  parses and defines a top-level \<open>handle\<close> with one or two positional parameters.\<close>

theorem authoring_validation_correct:
  "validate_automation env data = Inr [] \<longleftrightarrow> authoring_ok env data"
  by (rule validate_automation_accepts_iff)

text \<open>C36. A rejected payload is answered with everything that is wrong with it, entry by entry, and
  the answer stays small: the accumulated errors are exactly the violations of the payload, each
  once, with its field (the index of the condition or cooldown field included) and its code,
  whatever else is wrong with the payload; a list longer than its cap counts as one violation,
  and so there are never more than 34 errors, whatever is submitted.\<close>

theorem rejections_name_every_broken_rule:
  assumes "validate_automation env data = Inr errs"
  shows "set errs = violations env data \<and> distinct errs \<and> length errs \<le> 34"
proof -
  let ?ns = "case validate_namespace (in_namespace data) of None \<Rightarrow> [] | Some e \<Rightarrow> [e]"
  let ?cooldown = "validate_cooldown (in_cooldown_seconds data) (in_cooldown_fields data)"
  let ?timeout = "validate_timeout (in_timeout_seconds data)" and ?grace = "validate_grace (in_grace_seconds data)"
  from assms obtain trig url script where
    parts: "validate_triggers (in_triggers data) = Inr trig"
      "validate_logstash_url (ve_unicode env) (ve_getaddrinfo env) (in_logstash_url data) = Inr url"
      "validate_script (ve_ast_parse env) (in_script data) = Inr script"
    and errs: "errs = concat [?ns, trig, ?cooldown, ?timeout, ?grace, url, script]"
    by (auto simp: validate_automation_def Let_def split: sum.splits)
  note checks = single_reports(1) [of "in_namespace data"] triggers_report [OF parts(1)]
    cooldown_report [of "in_cooldown_seconds data" "in_cooldown_fields data"]
    single_reports(2) [of "in_timeout_seconds data"] single_reports(3) [of "in_grace_seconds data"]
    logstash_report [OF parts(2)] script_report [OF parts(3)]
  note lengths = checks [unfolded reports_def, THEN conjunct2]
  have "length errs \<le> 34" using lengths by (simp add: errs)
  moreover have "list_all2 (\<lambda>t xs. distinct xs \<and> (\<forall>x \<in> set xs. error_rule x = t))
      [str ''namespace'', str ''triggers'', str ''cooldown'', str ''timeout'', str ''grace'', str ''logstash'', str ''script'']
      [?ns, trig, ?cooldown, ?timeout, ?grace, url, script]"
    using checks [THEN reportsD] lengths(1,4-7) [THEN distinct_short] triggers_violations [OF parts(1)]
      cooldown_violations [of "in_cooldown_seconds data" "in_cooldown_fields data"] by simp
  from distinct_concat_tagged [OF this] have "distinct errs" by (simp add: errs str_def)
  moreover have "set errs = violations env data"
    using single_violations(1) [of "in_namespace data"] single_violations(2) [of "in_timeout_seconds data"]
      single_violations(3) [of "in_grace_seconds data"] triggers_violations [OF parts(1)]
      cooldown_violations [of "in_cooldown_seconds data" "in_cooldown_fields data"]
      logstash_url_violations [OF parts(2)] script_reports_violations [OF parts(3)]
    by (simp add: errs violations_def Un_assoc)
  ultimately show ?thesis by blast
qed

text \<open>A payload with a blank wallet, two ill-shaped conditions and a negative timeout is told of all
  four, the conditions by their index.\<close>

theorem rejections_name_every_broken_rule_witness:
  "violations
      \<lparr>ve_ast_parse = (\<lambda>_. Inr [FunctionDef (str ''handle'') [] [str ''event'']]),
       ve_getaddrinfo = (\<lambda>_. (LookupFailed, 0)), ve_unicode = \<lparr>u_nfkc = (\<lambda>s. s), u_lower = ascii_lower\<rparr>\<rparr>
      \<lparr>in_name = [], in_namespace = [], in_script = str ''s'', in_triggers = [JNull, JNull], in_secret_name = None,
       in_cooldown_seconds = None, in_cooldown_fields = None, in_timeout_seconds = Some (- 1),
       in_grace_seconds = None, in_logstash_url = None\<rparr>
   = {field_err (str ''namespace'') NAMESPACE_INVALID, field_err (str ''triggers[0]'') INVALID_TRIGGER_SHAPE,
      field_err (str ''triggers[1]'') INVALID_TRIGGER_SHAPE, field_err (str ''timeout_seconds'') TIMEOUT_OUT_OF_RANGE}"
proof -
  let ?env = "\<lparr>ve_ast_parse = (\<lambda>_. Inr [FunctionDef (str ''handle'') [] [str ''event'']]),
       ve_getaddrinfo = (\<lambda>_. (LookupFailed, 0)), ve_unicode = \<lparr>u_nfkc = (\<lambda>s. s), u_lower = ascii_lower\<rparr>\<rparr>"
  let ?data = "\<lparr>in_name = [], in_namespace = [], in_script = str ''s'', in_triggers = [JNull, JNull], in_secret_name = None,
       in_cooldown_seconds = None, in_cooldown_fields = None, in_timeout_seconds = Some (- 1),
       in_grace_seconds = None, in_logstash_url = None\<rparr>"
  have "validate_automation ?env ?data = Inr [field_err (str ''namespace'') NAMESPACE_INVALID,
      field_err (str ''triggers[0]'') INVALID_TRIGGER_SHAPE, field_err (str ''triggers[1]'') INVALID_TRIGGER_SHAPE,
      field_err (str ''timeout_seconds'') TIMEOUT_OUT_OF_RANGE]"
    by (simp add: validate_automation_def Let_def validation_defs limits_defs blank_iff str_def first_handle_def
        List.map_filter_simps HANDLE_PARAMS_MIN_def HANDLE_PARAMS_MAX_def utf8_encode_def is_surrogate_def utf8_bytes_def
        check_condition_def condition_parts_def trigger_path_def)
  from rejections_name_every_broken_rule [OF this, THEN conjunct1] show ?thesis by simp
qed

text \<open>The trigger check never amplifies a request: whatever list is submitted, it
  reports at most two errors for each of the nine conditions allowed.\<close>

lemma trigger_errors_bounded:
  "validate_triggers ts = Inr errs \<Longrightarrow> length errs \<le> 18"
  using validate_triggers_not_amplified [of ts errs] by (simp add: limits_defs)

lemma trigger_errors_bounded_witness:
  "validate_triggers (replicate 50 JNull) = Inr [field_err (str ''triggers'') TRIGGERS_TOO_MANY]
   \<and> length [field_err (str ''triggers'') TRIGGERS_TOO_MANY] \<le> 18"
proof -
  have h: "validate_triggers (replicate 50 JNull) = Inr [field_err (str ''triggers'') TRIGGERS_TOO_MANY]"
    by (simp add: validate_triggers_def limits_defs)
  from h trigger_errors_bounded [OF h] show ?thesis by simp
qed

text \<open>The trigger check raises instead of reporting exactly when a condition of the
  right shape, in a list within the count cap, has a value with a lone surrogate (which a JSON
  body can carry as an escape): \<open>str.encode\<close> then raises \<open>UnicodeEncodeError\<close>, which no
  handler maps to the machine-readable 400.\<close>

lemma trigger_check_raises_iff:
  "validate_triggers ts = Inl e \<longleftrightarrow>
     length ts \<le> 9 \<and> list_ex surrogate_value ts \<and> e = PyUnicodeEncodeError"
  using validate_triggers_raises_iff [of ts e] by (simp add: limits_defs)

text \<open>A logstash URL with an unbalanced IPv6 bracket is not reported as a field error:
  \<open>urlparse\<close> raises \<open>ValueError\<close> and the check does not catch it, whatever the resolver says.\<close>

lemma logstash_unbalanced_bracket_raises:
  "validate_logstash_url u g (Some (str ''https://[::1/ingest'')) = Inl PyValueError"
proof -
  have "urlsplit u (str ''https://[::1/ingest'') = None" by (simp add: url_defs str_def)
  then show ?thesis by (simp add: validate_logstash_url_def)
qed

text \<open>The address check lets the carrier-grade NAT range through when the resolver
  returns it in IPv4-mapped form: the plain address is rejected as non-global, the mapped one
  is accepted, because an \<open>IPv6Address\<close> is global whenever it is not private.\<close>

lemma logstash_mapped_cgnat_accepted:
  "validate_logstash_url \<lparr>u_nfkc = (\<lambda>s. s), u_lower = ascii_lower\<rparr>
     (\<lambda>_. (Addresses [str ''100.64.0.1''], 5)) (Some (str ''https://logs.example/ingest''))
     = Inr [field_err (str ''logstash_url'') LOGSTASH_PRIVATE_ADDRESS]
   \<and> validate_logstash_url \<lparr>u_nfkc = (\<lambda>s. s), u_lower = ascii_lower\<rparr>
     (\<lambda>_. (Addresses [str ''::ffff:100.64.0.1''], 5)) (Some (str ''https://logs.example/ingest''))
     = Inr []"
proof -
  have plain: "ip_address (str ''100.64.0.1'') = Some (IPv4Address 1681915905)"
    by (simp add: ip_parse_defs str_def)
  have mapped: "ip_address (str ''::ffff:100.64.0.1'') = Some (IPv6Address 281472363659265)"
    by (simp add: ip_parse_defs str_def hex4_def hex_char_def hex_digits_def upt_conv_Cons)
  have nets: "\<not> is_global (IPv4Address 1681915905)" "is_global (IPv6Address 281472363659265)"
    by (simp_all add: ip_defs)
  have url: "urlsplit \<lparr>u_nfkc = (\<lambda>s. s), u_lower = ascii_lower\<rparr> (str ''https://logs.example/ingest'')
      = Some \<lparr>url_scheme = str ''https'', url_netloc = str ''logs.example'', url_path = str ''/ingest'',
          url_query = [], url_fragment = []\<rparr>"
    by (simp add: url_defs str_def)
  have host: "url_hostname \<lparr>u_nfkc = (\<lambda>s. s), u_lower = ascii_lower\<rparr>
      \<lparr>url_scheme = str ''https'', url_netloc = str ''logs.example'', url_path = str ''/ingest'',
        url_query = [], url_fragment = []\<rparr> = Some (str ''logs.example'')"
    by (simp add: url_hostname_def url_defs str_def)
  show ?thesis
    by (simp add: validate_logstash_url_def url host resolve_bounded_def RESOLVE_TIMEOUT_MS_def
        plain mapped nets del: is_global.simps)
qed

end
