(* ===== verification/Runtime.thy ===== *)
theory Runtime
  imports Store
begin

text \<open>
  How the service runs: database sessions, calls to external systems, and the signals it
  publishes. A computation \<open>('x, 'a) io\<close> takes the world and returns an exception or a
  value together with the world it leaves; \<open>'x\<close> is the state of the external systems
  (git, CAPP, the registry), which only the client functions passed as parameters touch.

  A session (\<open>with get_session() as session\<close>, \<open>src/core/db.py\<close>) is one transaction. Other
  requests run concurrently: before each session of a request the other requests may have
  committed anything, which is the session's \<open>se_interfere\<close>, and time may have passed
  (\<open>se_elapse\<close>). The session itself may land, fail without writing, or commit and lose the
  answer. \<open>w_env\<close> lists what surrounds the sessions to come, in order; when it is empty the
  request runs alone and every session lands. One clock serves the process and the database.
\<close>

section \<open>The world\<close>

datatype db_fault = LockNotAvailable | OtherDbFault

datatype session_outcome = Lands | Aborts db_fault | LostAck

record session_env =
  se_interfere :: "database \<Rightarrow> database"
  se_elapse :: nat
  se_outcome :: session_outcome

record build_event =
  be_automation_id :: uuid
  be_tenant_id :: pystr
  be_commit_sha :: pystr
  be_build_state :: pystr
  be_matching_state :: pystr
  be_active_digest :: "pystr option"

datatype ext_op =
    GitCommit pystr
  | GitRead pystr
  | GitArchive uuid pystr
  | CappCreate uuid pystr pystr "pystr list"
  | CappRollout pystr pystr "pystr list"
  | CappDelete pystr pystr
  | SecretDelete pystr pystr
  | RegistryList uuid
  | RegistryDelete uuid pystr

datatype effect =
    Committed
  | Called ext_op
  | PublishReload
  | PublishEvent build_event

record 'x world =
  w_db :: database
  w_clock :: datetime
  w_env :: "session_env list"
  w_ext :: 'x
  w_trace :: "effect list"

type_synonym ('x, 'a) io = "'x world \<Rightarrow> (exn + 'a) \<times> 'x world"

type_synonym 'a tx = "datetime \<Rightarrow> database \<Rightarrow> exn + ('a \<times> database)"

type_synonym ('x, 'a) client = "'x \<Rightarrow> (exn + 'a) \<times> 'x"

section \<open>Combinators\<close>

definition io_return :: "'a \<Rightarrow> ('x, 'a) io" where
  "io_return a w = (Inr a, w)"

definition io_raise :: "exn \<Rightarrow> ('x, 'a) io" where
  "io_raise e w = (Inl e, w)"

definition io_lift :: "exn + 'a \<Rightarrow> ('x, 'a) io" where
  "io_lift r w = (r, w)"

definition io_bind :: "('x, 'a) io \<Rightarrow> ('a \<Rightarrow> ('x, 'b) io) \<Rightarrow> ('x, 'b) io" where
  "io_bind m k w = (case m w of (Inl e, w') \<Rightarrow> (Inl e, w') | (Inr a, w') \<Rightarrow> k a w')"

text \<open>\<open>try: m except Exception as exc: h(exc)\<close>.\<close>

definition io_catch :: "('x, 'a) io \<Rightarrow> (exn \<Rightarrow> ('x, 'a) io) \<Rightarrow> ('x, 'a) io" where
  "io_catch m h w = (case m w of (Inl e, w') \<Rightarrow> h e w' | (Inr a, w') \<Rightarrow> (Inr a, w'))"

definition io_now :: "('x, datetime) io" where
  "io_now w = (Inr (w_clock w), w)"

definition io_log :: "effect \<Rightarrow> ('x, unit) io" where
  "io_log e w = (Inr (), w\<lparr>w_trace := w_trace w @ [e]\<rparr>)"

text \<open>A call to an external system: recorded, then run on the external state.\<close>

definition io_call :: "ext_op \<Rightarrow> ('x, 'a) client \<Rightarrow> ('x, 'a) io" where
  "io_call c f w =
     (case f (w_ext w) of (r, x') \<Rightarrow> (r, w\<lparr>w_ext := x', w_trace := w_trace w @ [Called c]\<rparr>))"

section \<open>Sessions\<close>

definition begin_session :: "'x world \<Rightarrow> session_outcome \<times> 'x world" where
  "begin_session w =
     (case w_env w of
        [] \<Rightarrow> (Lands, w)
      | e # es \<Rightarrow> (se_outcome e,
          w\<lparr>w_db := se_interfere e (w_db w), w_clock := w_clock w + int (se_elapse e), w_env := es\<rparr>))"

text \<open>
  \<open>lock_first\<close> turns the lock timeout (SQLSTATE 55P03) of a \<open>SELECT \<dots> FOR UPDATE\<close> into
  \<open>AutomationBusyError\<close> and lets any other database error through; a session that takes no
  row lock sees every fault as SQLAlchemy's.
\<close>

definition lock_first_error :: "db_fault \<Rightarrow> exn" where
  "lock_first_error f =
     (case f of LockNotAvailable \<Rightarrow> AutomationBusyError | OtherDbFault \<Rightarrow> SQLAlchemyError)"

definition session_error :: "bool \<Rightarrow> db_fault \<Rightarrow> exn" where
  "session_error lock f = (if lock then lock_first_error f else SQLAlchemyError)"

definition get_session :: "bool \<Rightarrow> 'a tx \<Rightarrow> ('x, 'a) io" where
  "get_session lock t w =
     (case begin_session w of (oc, w1) \<Rightarrow>
        (case oc of
           Aborts f \<Rightarrow> (Inl (session_error lock f), w1)
         | Lands \<Rightarrow>
             (case t (w_clock w1) (w_db w1) of
                Inl e \<Rightarrow> (Inl e, w1)
              | Inr (a, d) \<Rightarrow> (Inr a, w1\<lparr>w_db := d, w_trace := w_trace w1 @ [Committed]\<rparr>))
         | LostAck \<Rightarrow>
             (case t (w_clock w1) (w_db w1) of
                Inl e \<Rightarrow> (Inl e, w1)
              | Inr (a, d) \<Rightarrow> (Inl SQLAlchemyError, w1\<lparr>w_db := d, w_trace := w_trace w1 @ [Committed]\<rparr>))))"

text \<open>A session that may return before its commit: the transaction yields \<open>None\<close> for the
  database when the code leaves the block without writing, which rolls back.\<close>

definition get_session_opt ::
  "bool \<Rightarrow> (datetime \<Rightarrow> database \<Rightarrow> exn + ('a \<times> database option)) \<Rightarrow> ('x, 'a) io" where
  "get_session_opt lock t w =
     (case begin_session w of (oc, w1) \<Rightarrow>
        (case oc of
           Aborts f \<Rightarrow> (Inl (session_error lock f), w1)
         | _ \<Rightarrow>
             (case t (w_clock w1) (w_db w1) of
                Inl e \<Rightarrow> (Inl e, w1)
              | Inr (a, None) \<Rightarrow> (if oc = LostAck then Inl SQLAlchemyError else Inr a, w1)
              | Inr (a, Some d) \<Rightarrow>
                  (if oc = LostAck then Inl SQLAlchemyError else Inr a,
                   w1\<lparr>w_db := d, w_trace := w_trace w1 @ [Committed]\<rparr>))))"

text \<open>A session that only reads, and so has nothing to commit or to lose.\<close>

definition read_session :: "bool \<Rightarrow> (database \<Rightarrow> exn + 'a) \<Rightarrow> ('x, 'a) io" where
  "read_session lock q w =
     (case begin_session w of (oc, w1) \<Rightarrow>
        (case oc of
           Aborts f \<Rightarrow> (Inl (session_error lock f), w1)
         | LostAck \<Rightarrow> (Inl SQLAlchemyError, w1)
         | Lands \<Rightarrow> (q (w_db w1), w1)))"

lemmas io_defs = io_return_def io_raise_def io_lift_def io_bind_def io_catch_def io_now_def
  io_log_def io_call_def

lemma io_run [io_simps]:
  "io_return a w = (Inr a, w)"
  "io_raise e w = (Inl e, w)"
  "io_now w = (Inr (w_clock w), w)"
  "io_log ef w = (Inr (), w\<lparr>w_trace := w_trace w @ [ef]\<rparr>)"
  by (simp_all add: io_defs)

lemma io_bind_Inr [io_simps]: "m w = (Inr a, w') \<Longrightarrow> io_bind m k w = k a w'"
  by (simp add: io_bind_def)

lemma io_bind_Inl [io_simps]: "m w = (Inl e, w') \<Longrightarrow> io_bind m k w = (Inl e, w')"
  by (simp add: io_bind_def)

lemma io_catch_Inr [io_simps]: "m w = (Inr a, w') \<Longrightarrow> io_catch m h w = (Inr a, w')"
  by (simp add: io_catch_def)

lemma io_catch_Inl [io_simps]: "m w = (Inl e, w') \<Longrightarrow> io_catch m h w = h e w'"
  by (simp add: io_catch_def)

lemma io_bind_raise [io_simps]: "io_bind (io_raise e) k = io_raise e"
  by (rule ext) (simp add: io_defs)

lemma io_bind_return [io_simps]: "io_bind (io_return a) k = k a"
  by (rule ext) (simp add: io_defs)

lemma io_bind_InrE:
  assumes "io_bind m k w = (Inr b, w')"
  obtains a w1 where "m w = (Inr a, w1)" and "k a w1 = (Inr b, w')"
  using assms by (auto simp: io_bind_def split: prod.splits sum.splits)

text \<open>A request that runs alone: no interference, no fault.\<close>

lemma get_session_alone [io_simps]:
  "w_env w = [] \<Longrightarrow> get_session lock t w =
     (case t (w_clock w) (w_db w) of
        Inl e \<Rightarrow> (Inl e, w)
      | Inr (a, d) \<Rightarrow> (Inr a, w\<lparr>w_db := d, w_trace := w_trace w @ [Committed]\<rparr>))"
  by (simp add: get_session_def begin_session_def)

lemma get_session_opt_alone [io_simps]:
  "w_env w = [] \<Longrightarrow> get_session_opt lock t w =
     (case t (w_clock w) (w_db w) of
        Inl e \<Rightarrow> (Inl e, w)
      | Inr (a, None) \<Rightarrow> (Inr a, w)
      | Inr (a, Some d) \<Rightarrow> (Inr a, w\<lparr>w_db := d, w_trace := w_trace w @ [Committed]\<rparr>))"
  by (auto simp: get_session_opt_def begin_session_def split: sum.splits option.splits)

lemma read_session_alone [io_simps]: "w_env w = [] \<Longrightarrow> read_session lock q w = (q (w_db w), w)"
  by (simp add: read_session_def begin_session_def)

lemma io_call_run [io_simps]:
  "f (w_ext w) = (r, x') \<Longrightarrow>
     io_call c f w = (r, w\<lparr>w_ext := x', w_trace := w_trace w @ [Called c]\<rparr>)"
  by (simp add: io_call_def)

section \<open>What a computation can emit\<close>

text \<open>\<open>emits m S\<close>: every commit, call and signal of the computation is in \<open>S\<close>, in every
  world.\<close>

definition emits :: "('x, 'a) io \<Rightarrow> effect set \<Rightarrow> bool" where
  "emits m S \<longleftrightarrow> (\<forall>w r w'. m w = (r, w') \<longrightarrow> (\<exists>tr. w_trace w' = w_trace w @ tr \<and> set tr \<subseteq> S))"

lemma emitsD:
  assumes "emits m S" and "m w = (r, w')"
  obtains tr where "w_trace w' = w_trace w @ tr" and "set tr \<subseteq> S"
  using assms unfolding emits_def by blast

lemma emits_pure: "emits (io_return a) S" "emits (io_raise e) S" "emits (io_lift x) S" "emits io_now S"
  by (auto simp: emits_def io_defs)

lemma emits_log: "ef \<in> S \<Longrightarrow> emits (io_log ef) S"
  by (auto simp: emits_def io_defs)

lemma emits_call: "Called c \<in> S \<Longrightarrow> emits (io_call c f) S"
  by (auto simp: emits_def io_defs split: prod.splits)

lemma emits_bind:
  assumes m: "emits m S" and k: "\<And>a w w'. m w = (Inr a, w') \<Longrightarrow> emits (k a) S"
  shows "emits (io_bind m k) S"
  unfolding emits_def
proof (intro allI impI)
  fix w r w'
  assume run: "io_bind m k w = (r, w')"
  obtain r1 w1 where r1: "m w = (r1, w1)" by (cases "m w")
  from emitsD [OF m r1] obtain tr where tr: "w_trace w1 = w_trace w @ tr" "set tr \<subseteq> S" .
  show "\<exists>tr. w_trace w' = w_trace w @ tr \<and> set tr \<subseteq> S"
  proof (cases r1)
    case (Inl e)
    with r1 run tr show ?thesis by (auto simp: io_bind_def)
  next
    case (Inr a)
    with r1 run have "k a w1 = (r, w')" by (simp add: io_bind_def)
    from emitsD [OF k [OF r1 [unfolded Inr]] this] obtain tr' where "w_trace w' = w_trace w1 @ tr'" "set tr' \<subseteq> S" .
    with tr have "w_trace w' = w_trace w @ (tr @ tr') \<and> set (tr @ tr') \<subseteq> S" by simp
    then show ?thesis by blast
  qed
qed

lemma emits_catch:
  assumes m: "emits m S" and h: "\<And>e. emits (h e) S"
  shows "emits (io_catch m h) S"
  unfolding emits_def
proof (intro allI impI)
  fix w r w'
  assume run: "io_catch m h w = (r, w')"
  obtain r1 w1 where r1: "m w = (r1, w1)" by (cases "m w")
  from emitsD [OF m r1] obtain tr where tr: "w_trace w1 = w_trace w @ tr" "set tr \<subseteq> S" .
  show "\<exists>tr. w_trace w' = w_trace w @ tr \<and> set tr \<subseteq> S"
  proof (cases r1)
    case (Inr a)
    with r1 run tr show ?thesis by (auto simp: io_catch_def)
  next
    case (Inl e)
    with r1 run have "h e w1 = (r, w')" by (simp add: io_catch_def)
    from emitsD [OF h this] obtain tr' where "w_trace w' = w_trace w1 @ tr'" "set tr' \<subseteq> S" .
    with tr have "w_trace w' = w_trace w @ (tr @ tr') \<and> set (tr @ tr') \<subseteq> S" by simp
    then show ?thesis by blast
  qed
qed

lemma begin_session_trace: "begin_session w = (oc, w1) \<Longrightarrow> w_trace w1 = w_trace w"
  by (auto simp: begin_session_def split: list.splits)

lemma emits_session: "Committed \<in> S \<Longrightarrow> emits (get_session lock t) S"
  by (auto simp: emits_def get_session_def dest!: begin_session_trace
      split: prod.splits session_outcome.splits sum.splits)

lemma emits_session_opt: "Committed \<in> S \<Longrightarrow> emits (get_session_opt lock t) S"
  by (auto simp: emits_def get_session_opt_def dest!: begin_session_trace
      split: prod.splits session_outcome.splits sum.splits option.splits)

lemma emits_read: "emits (read_session lock q) S"
  by (auto simp: emits_def read_session_def dest!: begin_session_trace
      split: prod.splits session_outcome.splits)

lemma emits_if: "(b \<Longrightarrow> emits m S) \<Longrightarrow> (\<not> b \<Longrightarrow> emits m' S) \<Longrightarrow> emits (if b then m else m') S"
  by simp

lemmas emits_rules = emits_pure emits_log emits_call emits_bind emits_catch emits_session
  emits_session_opt emits_read emits_if

section \<open>A rely-guarantee logic for the database\<close>

text \<open>
  \<open>tx_spec R P t Q\<close>: from a database that satisfies \<open>P\<close>, every commit of the transaction is
  related by \<open>R\<close> and establishes \<open>Q\<close> of its result and the new database. \<open>env_rely R w\<close>: what
  the other requests do before each session is related by \<open>R\<close>. \<open>io_spec R P m Q\<close>: relying on
  that, the database after the whole computation is related by \<open>R\<close> to the one before and a
  returned value satisfies \<open>Q\<close>, whatever the external systems answer and whichever sessions
  fail. A predicate that a session starts from must be stable: \<open>R\<close> preserves it.
\<close>

definition tx_spec ::
  "(database \<Rightarrow> database \<Rightarrow> bool) \<Rightarrow> (database \<Rightarrow> bool) \<Rightarrow> 'a tx \<Rightarrow> ('a \<Rightarrow> database \<Rightarrow> bool) \<Rightarrow> bool" where
  "tx_spec R P t Q \<longleftrightarrow> (\<forall>now d a d'. P d \<longrightarrow> t now d = Inr (a, d') \<longrightarrow> R d d' \<and> Q a d')"

definition stable :: "(database \<Rightarrow> database \<Rightarrow> bool) \<Rightarrow> (database \<Rightarrow> bool) \<Rightarrow> bool" where
  "stable R P \<longleftrightarrow> (\<forall>d d'. R d d' \<longrightarrow> P d \<longrightarrow> P d')"

definition env_rely :: "(database \<Rightarrow> database \<Rightarrow> bool) \<Rightarrow> 'x world \<Rightarrow> bool" where
  "env_rely R w \<longleftrightarrow> (\<forall>e \<in> set (w_env w). \<forall>d. R d (se_interfere e d))"

definition io_spec ::
  "(database \<Rightarrow> database \<Rightarrow> bool) \<Rightarrow> (database \<Rightarrow> bool) \<Rightarrow> ('x, 'a) io
     \<Rightarrow> ('a \<Rightarrow> database \<Rightarrow> bool) \<Rightarrow> bool" where
  "io_spec R P m Q \<longleftrightarrow>
     (\<forall>w r w'. env_rely R w \<longrightarrow> P (w_db w) \<longrightarrow> m w = (r, w') \<longrightarrow>
        R (w_db w) (w_db w') \<and> env_rely R w' \<and> (\<forall>a. r = Inr a \<longrightarrow> Q a (w_db w')))"

lemma tx_specI:
  "(\<And>now d a d'. P d \<Longrightarrow> t now d = Inr (a, d') \<Longrightarrow> R d d' \<and> Q a d') \<Longrightarrow> tx_spec R P t Q"
  by (auto simp: tx_spec_def)

lemma stableI: "(\<And>d d'. R d d' \<Longrightarrow> P d \<Longrightarrow> P d') \<Longrightarrow> stable R P"
  by (auto simp: stable_def)

lemma stableD: "stable R P \<Longrightarrow> R d d' \<Longrightarrow> P d \<Longrightarrow> P d'"
  by (auto simp: stable_def)

lemma io_specI:
  "(\<And>w r w'. env_rely R w \<Longrightarrow> P (w_db w) \<Longrightarrow> m w = (r, w') \<Longrightarrow>
      R (w_db w) (w_db w') \<and> env_rely R w' \<and> (\<forall>a. r = Inr a \<longrightarrow> Q a (w_db w'))) \<Longrightarrow> io_spec R P m Q"
  by (simp add: io_spec_def)

lemma io_specD:
  assumes "io_spec R P m Q" and "env_rely R w" and "P (w_db w)" and "m w = (r, w')"
  shows "R (w_db w) (w_db w')" and "env_rely R w'" and "\<And>a. r = Inr a \<Longrightarrow> Q a (w_db w')"
  using assms by (auto simp: io_spec_def)

lemma io_spec_weaken:
  "io_spec R P m Q \<Longrightarrow> (\<And>d. P' d \<Longrightarrow> P d) \<Longrightarrow> (\<And>a d. Q a d \<Longrightarrow> Q' a d) \<Longrightarrow> io_spec R P' m Q'"
  by (auto simp: io_spec_def)

lemma env_rely_alone [simp]: "w_env w = [] \<Longrightarrow> env_rely R w"
  by (simp add: env_rely_def)

locale db_rely =
  fixes R :: "database \<Rightarrow> database \<Rightarrow> bool"
  assumes R_refl: "R d d"
    and R_trans: "R d d' \<Longrightarrow> R d' d'' \<Longrightarrow> R d d''"
begin

lemma begin_session_rely:
  assumes "env_rely R w" and "begin_session w = (oc, w1)"
  shows "R (w_db w) (w_db w1) \<and> env_rely R w1"
  using assms by (auto simp: begin_session_def env_rely_def R_refl split: list.splits)

lemma spec_return: "(\<And>d. P d \<Longrightarrow> Q a d) \<Longrightarrow> io_spec R P (io_return a) Q"
  by (auto simp: io_spec_def io_defs R_refl)

lemma spec_raise: "io_spec R P (io_raise e) Q"
  by (auto simp: io_spec_def io_defs R_refl)

lemma spec_lift: "(\<And>d a. P d \<Longrightarrow> r = Inr a \<Longrightarrow> Q a d) \<Longrightarrow> io_spec R P (io_lift r) Q"
  by (auto simp: io_spec_def io_defs R_refl)

lemma spec_now: "(\<And>d t. P d \<Longrightarrow> Q t d) \<Longrightarrow> io_spec R P io_now Q"
  by (auto simp: io_spec_def io_defs R_refl)

lemma spec_log: "(\<And>d. P d \<Longrightarrow> Q () d) \<Longrightarrow> io_spec R P (io_log ef) Q"
  by (auto simp: io_spec_def io_defs R_refl env_rely_def)

lemma spec_call:
  "(\<And>x a x' d. f x = (Inr a, x') \<Longrightarrow> P d \<Longrightarrow> Q a d) \<Longrightarrow> io_spec R P (io_call c f) Q"
  by (auto simp: io_spec_def io_defs R_refl env_rely_def split: prod.splits)

lemma spec_bind:
  assumes m: "io_spec R P m Q" and k: "\<And>a. io_spec R (Q a) (k a) Q'"
  shows "io_spec R P (io_bind m k) Q'"
proof (rule io_specI)
  fix w r w'
  assume rely: "env_rely R w" and pre: "P (w_db w)" and run: "io_bind m k w = (r, w')"
  obtain r1 w1 where r1: "m w = (r1, w1)" by (cases "m w")
  note m1 = io_specD [OF m rely pre r1]
  show "R (w_db w) (w_db w') \<and> env_rely R w' \<and> (\<forall>a. r = Inr a \<longrightarrow> Q' a (w_db w'))"
  proof (cases r1)
    case (Inl e)
    with r1 m1 run show ?thesis by (auto simp: io_bind_def)
  next
    case (Inr a)
    with r1 run have "k a w1 = (r, w')" by (simp add: io_bind_def)
    from io_specD [OF k m1(2) m1(3) [OF Inr] this] m1(1) show ?thesis by (blast intro: R_trans)
  qed
qed

lemma spec_catch:
  assumes P: "stable R P" and m: "io_spec R P m Q" and h: "\<And>e. io_spec R P (h e) Q"
  shows "io_spec R P (io_catch m h) Q"
proof (rule io_specI)
  fix w r w'
  assume rely: "env_rely R w" and pre: "P (w_db w)" and run: "io_catch m h w = (r, w')"
  obtain r1 w1 where r1: "m w = (r1, w1)" by (cases "m w")
  note m1 = io_specD [OF m rely pre r1]
  show "R (w_db w) (w_db w') \<and> env_rely R w' \<and> (\<forall>a. r = Inr a \<longrightarrow> Q a (w_db w'))"
  proof (cases r1)
    case (Inr a)
    with r1 m1 run show ?thesis by (auto simp: io_catch_def)
  next
    case (Inl e)
    with r1 run have "h e w1 = (r, w')" by (simp add: io_catch_def)
    from io_specD [OF h m1(2) stableD [OF P m1(1) pre] this] m1(1)
    show ?thesis by (blast intro: R_trans)
  qed
qed

lemma spec_session_opt:
  assumes P: "stable R P"
    and t: "\<And>now d a d'. P d \<Longrightarrow> t now d = Inr (a, d') \<Longrightarrow>
      (case d' of None \<Rightarrow> Q a d | Some d'' \<Rightarrow> R d d'' \<and> Q a d'')"
  shows "io_spec R P (get_session_opt lock t) Q"
proof (rule io_specI)
  fix w r w'
  assume rely: "env_rely R w" and pre: "P (w_db w)" and run: "get_session_opt lock t w = (r, w')"
  obtain oc w1 where b: "begin_session w = (oc, w1)" by (cases "begin_session w")
  note b1 = begin_session_rely [OF rely b]
  with P pre have pre1: "P (w_db w1)" by (blast intro: stableD)
  have t1: "case d' of None \<Rightarrow> Q a (w_db w1) | Some d'' \<Rightarrow> R (w_db w) d'' \<and> Q a d''"
    if "t (w_clock w1) (w_db w1) = Inr (a, d')" for a d'
    using t [OF pre1 that] b1 by (auto split: option.splits intro: R_trans)
  from b b1 t1 run show "R (w_db w) (w_db w') \<and> env_rely R w' \<and> (\<forall>a. r = Inr a \<longrightarrow> Q a (w_db w'))"
    by (fastforce simp: get_session_opt_def env_rely_def
        split: session_outcome.splits sum.splits option.splits if_splits)
qed

lemma spec_session:
  assumes P: "stable R P" and t: "tx_spec R P t Q"
  shows "io_spec R P (get_session lock t) Q"
proof (rule io_specI)
  fix w r w'
  assume rely: "env_rely R w" and pre: "P (w_db w)" and run: "get_session lock t w = (r, w')"
  obtain oc w1 where b: "begin_session w = (oc, w1)" by (cases "begin_session w")
  note b1 = begin_session_rely [OF rely b]
  with P pre have pre1: "P (w_db w1)" by (blast intro: stableD)
  have t1: "R (w_db w) d' \<and> Q a d'" if "t (w_clock w1) (w_db w1) = Inr (a, d')" for a d'
    using t pre1 b1 that unfolding tx_spec_def by (blast intro: R_trans)
  from b b1 t1 run show "R (w_db w) (w_db w') \<and> env_rely R w' \<and> (\<forall>a. r = Inr a \<longrightarrow> Q a (w_db w'))"
    by (auto simp: get_session_def env_rely_def split: session_outcome.splits sum.splits)
qed

lemma spec_read:
  assumes P: "stable R P" and q: "\<And>d a. P d \<Longrightarrow> q d = Inr a \<Longrightarrow> Q a d"
  shows "io_spec R P (read_session lock q) Q"
proof (rule io_specI)
  fix w r w'
  assume rely: "env_rely R w" and pre: "P (w_db w)" and run: "read_session lock q w = (r, w')"
  obtain oc w1 where b: "begin_session w = (oc, w1)" by (cases "begin_session w")
  note b1 = begin_session_rely [OF rely b]
  with P pre have "P (w_db w1)" by (blast intro: stableD)
  with b b1 q run show "R (w_db w) (w_db w') \<and> env_rely R w' \<and> (\<forall>a. r = Inr a \<longrightarrow> Q a (w_db w'))"
    by (auto simp: read_session_def split: session_outcome.splits)
qed

lemma spec_if:
  assumes "b \<Longrightarrow> io_spec R P m Q" and "\<not> b \<Longrightarrow> io_spec R P m' Q"
  shows "io_spec R P (if b then m else m') Q"
  using assms by simp

end

end
