(* ===== verification/Clients.thy ===== *)
theory Clients
  imports Runtime Pylib
begin

text \<open>
  The seams to the external systems: the client protocols of \<open>src/bl/git_client.py\<close>,
  \<open>src/bl/capp_client.py\<close> and \<open>src/bl/cascade_adapters.py\<close> as records of functions on the
  external state, and the implementations of the CAPP and cascade seams the repository ships:
  the in-memory CAPP client and the unconfigured clients that fail closed. The locale
  \<open>capp_service\<close> states what the CAPP protocol promises; it is interpreted on the in-memory client.
  The git clients are in \<open>Git_Client\<close> and \<open>Gitlab\<close>.
\<close>

section \<open>Protocols\<close>

record 'x git_client =
  g_commit_script :: "pystr \<Rightarrow> pystr \<Rightarrow> pystr \<Rightarrow> ('x, pystr) client"
  g_read_script :: "pystr \<Rightarrow> ('x, pystr option) client"
  g_archive :: "uuid \<Rightarrow> pystr \<Rightarrow> ('x, pystr) client"

record capp_deployment =
  deployment_id :: pystr
  deployment_url :: pystr

record 'x capp_client =
  c_create_deployment :: "uuid \<Rightarrow> pystr \<Rightarrow> pystr \<Rightarrow> pystr list \<Rightarrow> ('x, capp_deployment) client"
  c_rollout :: "pystr \<Rightarrow> pystr \<Rightarrow> pystr list \<Rightarrow> ('x, unit) client"

record 'x capp_deletion_client =
  d_delete_capp :: "pystr \<Rightarrow> pystr \<Rightarrow> ('x, unit) client"
  d_delete_secret :: "pystr \<Rightarrow> pystr \<Rightarrow> ('x, unit) client"

record 'x registry_client =
  rc_list_image_entries :: "uuid \<Rightarrow> ('x, pystr list) client"
  rc_delete_image :: "uuid \<Rightarrow> pystr \<Rightarrow> ('x, unit) client"

definition raising :: "exn \<Rightarrow> ('x, 'a) client" where
  "raising e x = (Inl e, x)"

section \<open>cascade\_adapters.py\<close>

definition capp_name_for :: "uuid \<Rightarrow> pystr option \<Rightarrow> pystr" where
  "capp_name_for automation_id capp_deployment_id =
     (case capp_deployment_id of
        Some n \<Rightarrow> if n \<noteq> [] then n else str ''automation-'' @ uuid_str automation_id
      | None \<Rightarrow> str ''automation-'' @ uuid_str automation_id)"

definition run_auth_secret_name :: "uuid \<Rightarrow> pystr" where
  "run_auth_secret_name automation_id = str ''automation-'' @ uuid_str automation_id @ str ''-run-auth''"

definition UnconfiguredCappDeletionClient :: "'x capp_deletion_client" where
  "UnconfiguredCappDeletionClient =
     \<lparr>d_delete_capp = (\<lambda>wallet name. raising ExternalDependencyNotConfiguredError),
      d_delete_secret = (\<lambda>wallet name. raising ExternalDependencyNotConfiguredError)\<rparr>"

definition UnconfiguredRegistryClient :: "'x registry_client" where
  "UnconfiguredRegistryClient =
     \<lparr>rc_list_image_entries = (\<lambda>i. raising ExternalDependencyNotConfiguredError),
      rc_delete_image = (\<lambda>i e. raising ExternalDependencyNotConfiguredError)\<rparr>"

section \<open>capp\_client.py\<close>

definition UnconfiguredCappClient :: "'x capp_client" where
  "UnconfiguredCappClient =
     \<lparr>c_create_deployment = (\<lambda>i w im refs. raising CappUnavailableError),
      c_rollout = (\<lambda>d im refs. raising CappUnavailableError)\<rparr>"

datatype capp_call =
    CallCreate pystr pystr pystr "pystr list"
  | CallTeardown pystr
  | CallRollout pystr pystr "pystr list"

record mem_capp =
  mc_fail :: bool
  mc_deployments :: "pystr \<rightharpoonup> capp_deployment"
  mc_wallets :: "pystr \<rightharpoonup> pystr"
  mc_images :: "pystr \<rightharpoonup> pystr"
  mc_calls :: "capp_call list"

definition mem_capp_init :: "bool \<Rightarrow> mem_capp" where
  "mem_capp_init fail = \<lparr>mc_fail = fail, mc_deployments = Map.empty, mc_wallets = Map.empty,
     mc_images = Map.empty, mc_calls = []\<rparr>"

definition mem_deployment :: "pystr \<Rightarrow> pystr \<Rightarrow> capp_deployment" where
  "mem_deployment key wallet =
     \<lparr>deployment_id = str ''automation-'' @ key,
      deployment_url = str ''https://'' @ wallet @ str ''.capp.test/'' @ key\<rparr>"

definition mem_create_deployment ::
  "uuid \<Rightarrow> pystr \<Rightarrow> pystr \<Rightarrow> pystr list \<Rightarrow> (mem_capp, capp_deployment) client" where
  "mem_create_deployment automation_id wallet img secret_refs c =
     (let key = uuid_str automation_id;
          c1 = c\<lparr>mc_calls := mc_calls c @ [CallCreate key wallet img secret_refs]\<rparr>
      in if mc_fail c1 then (Inl CappUnavailableError, c1)
         else case mc_deployments c1 key of
           Some dep \<Rightarrow>
             (case mc_wallets c1 key of
                None \<Rightarrow> (Inl PyKeyError, c1)
              | Some w \<Rightarrow>
                  if w \<noteq> wallet then
                    let new = mem_deployment key wallet;
                        c2 = c1\<lparr>mc_calls := mc_calls c1 @ [CallTeardown (deployment_id dep)],
                              mc_deployments := (mc_deployments c1)(key \<mapsto> new),
                              mc_wallets := (mc_wallets c1)(key \<mapsto> wallet),
                              mc_images := ((mc_images c1)(deployment_id dep := None))(deployment_id new \<mapsto> img)\<rparr>
                    in (Inr new, c2)
                  else (Inr dep, c1\<lparr>mc_images := (mc_images c1)(deployment_id dep \<mapsto> img)\<rparr>))
         | None \<Rightarrow>
             let new = mem_deployment key wallet
             in (Inr new, c1\<lparr>mc_deployments := (mc_deployments c1)(key \<mapsto> new),
                   mc_wallets := (mc_wallets c1)(key \<mapsto> wallet),
                   mc_images := (mc_images c1)(deployment_id new \<mapsto> img)\<rparr>))"

definition mem_rollout :: "pystr \<Rightarrow> pystr \<Rightarrow> pystr list \<Rightarrow> (mem_capp, unit) client" where
  "mem_rollout dep_id img secret_refs c =
     (let c1 = c\<lparr>mc_calls := mc_calls c @ [CallRollout dep_id img secret_refs]\<rparr>
      in if mc_fail c1 then (Inl CappUnavailableError, c1)
         else (Inr (), c1\<lparr>mc_images := (mc_images c1)(dep_id \<mapsto> img)\<rparr>))"

definition InMemoryCappClient :: "mem_capp capp_client" where
  "InMemoryCappClient = \<lparr>c_create_deployment = mem_create_deployment, c_rollout = mem_rollout\<rparr>"

text \<open>What \<open>CappClient\<close> promises: a deployment is named after its automation, a repeated
  create in the same wallet finds it again, a create in another wallet never returns the old
  one, and the accepted image is what the deployment serves; a failed call serves what was
  served.\<close>

locale capp_service =
  fixes create :: "uuid \<Rightarrow> pystr \<Rightarrow> pystr \<Rightarrow> pystr list \<Rightarrow> ('x, capp_deployment) client"
    and rollout :: "pystr \<Rightarrow> pystr \<Rightarrow> pystr list \<Rightarrow> ('x, unit) client"
    and wallet_of :: "'x \<Rightarrow> uuid \<Rightarrow> pystr option"
    and serves :: "'x \<Rightarrow> pystr \<Rightarrow> pystr option"
    and wf :: "'x \<Rightarrow> bool"
  assumes create_wf: "wf x \<Longrightarrow> create i w im refs x = (r, x') \<Longrightarrow> wf x'"
    and rollout_wf: "wf x \<Longrightarrow> rollout d im refs x = (u, x') \<Longrightarrow> wf x'"
    and create_named: "wf x \<Longrightarrow> create i w im refs x = (Inr dep, x') \<Longrightarrow>
          deployment_id dep = str ''automation-'' @ uuid_str i"
    and create_placed: "wf x \<Longrightarrow> create i w im refs x = (Inr dep, x') \<Longrightarrow>
          wallet_of x' i = Some w \<and> serves x' (deployment_id dep) = Some im"
    and create_again: "wf x \<Longrightarrow> create i w im refs x = (Inr dep, x') \<Longrightarrow>
          create i w im' refs' x' = (Inr dep', x'') \<Longrightarrow> dep' = dep"
    and rollout_serves: "wf x \<Longrightarrow> rollout d im refs x = (Inr (), x') \<Longrightarrow> serves x' d = Some im"
    and failed_call: "wf x \<Longrightarrow> create i w im refs x = (Inl e, x') \<Longrightarrow> serves x' = serves x"
      "wf x \<Longrightarrow> rollout d im refs x = (Inl e, x') \<Longrightarrow> serves x' = serves x"
begin

text \<open>A retried first build: the second create returns the deployment of the first, which
  then serves the second image in the wallet asked for.\<close>

lemma retried_create:
  assumes "wf x" and "create i w im refs x = (Inr dep, x1)" and "create i w im' refs' x1 = (Inr dep', x2)"
  shows "dep' = dep \<and> serves x2 (deployment_id dep) = Some im' \<and> wallet_of x2 i = Some w"
proof -
  have wf1: "wf x1" using assms(1,2) by (rule create_wf)
  have "dep' = dep" using assms by (rule create_again)
  with create_placed [OF wf1 assms(3)] show ?thesis by simp
qed

lemma create_then_rollout:
  assumes "wf x" and "create i w im refs x = (Inr dep, x1)"
    and "rollout (deployment_id dep) im' refs' x1 = (Inr (), x2)"
  shows "serves x2 (deployment_id dep) = Some im'"
  using rollout_serves [OF create_wf [OF assms(1,2)] assms(3)] .

end

definition mem_capp_wf :: "mem_capp \<Rightarrow> bool" where
  "mem_capp_wf c \<longleftrightarrow> (\<forall>key dep. mc_deployments c key = Some dep \<longrightarrow>
     (\<exists>w. mc_wallets c key = Some w \<and> dep = mem_deployment key w))"

lemma mem_create_cases:
  assumes "mem_capp_wf c" and "mem_create_deployment i w im refs c = (r, c')"
  shows "(mc_fail c \<and> r = Inl CappUnavailableError \<and> mc_deployments c' = mc_deployments c
          \<and> mc_wallets c' = mc_wallets c \<and> mc_images c' = mc_images c)
    \<or> (\<not> mc_fail c \<and> r = Inr (mem_deployment (uuid_str i) w)
          \<and> mc_deployments c' = (mc_deployments c)(uuid_str i \<mapsto> mem_deployment (uuid_str i) w)
          \<and> mc_wallets c' = (mc_wallets c)(uuid_str i \<mapsto> w)
          \<and> mc_images c' (str ''automation-'' @ uuid_str i) = Some im)"
proof (cases "mc_fail c")
  case True
  with assms(2) show ?thesis by (auto simp: mem_create_deployment_def Let_def)
next
  case False
  show ?thesis
  proof (cases "mc_deployments c (uuid_str i)")
    case None
    with False assms(2) show ?thesis
      by (auto simp: mem_create_deployment_def mem_deployment_def Let_def)
  next
    case (Some dep)
    with assms(1) obtain w' where w': "mc_wallets c (uuid_str i) = Some w'"
      and dep: "dep = mem_deployment (uuid_str i) w'"
      by (auto simp: mem_capp_wf_def)
    have same: "w' = w \<Longrightarrow> (mc_deployments c)(uuid_str i \<mapsto> mem_deployment (uuid_str i) w) = mc_deployments c
        \<and> (mc_wallets c)(uuid_str i \<mapsto> w) = mc_wallets c"
      using Some w' dep by (auto simp: fun_upd_idem_iff)
    show ?thesis
    proof (cases "w' = w")
      case True
      from same [OF True] True False Some w' dep assms(2) show ?thesis
        by (auto simp: mem_create_deployment_def mem_deployment_def Let_def)
    next
      case neq: False
      from neq False Some w' dep assms(2) show ?thesis
        by (auto simp: mem_create_deployment_def mem_deployment_def Let_def)
    qed
  qed
qed

interpretation mem_capp: capp_service mem_create_deployment mem_rollout
  "\<lambda>c i. mc_wallets c (uuid_str i)" mc_images mem_capp_wf
proof (unfold_locales, goal_cases)
  case (1 x i w im refs r x')
  from mem_create_cases [OF this] 1(1) show ?case
    by (auto simp: mem_capp_wf_def)
next
  case (2 x d im refs u x')
  then show ?case by (auto simp: mem_rollout_def mem_capp_wf_def Let_def split: if_splits)
next
  case (3 x i w im refs dep x')
  from mem_create_cases [OF this] show ?case by (auto simp: mem_deployment_def)
next
  case (4 x i w im refs dep x')
  from mem_create_cases [OF this] show ?case by (auto simp: mem_deployment_def)
next
  case (5 x i w im refs dep x' im' refs' dep' x'')
  have "mem_capp_wf x'" using mem_create_cases [OF 5(1,2)] 5(1) by (auto simp: mem_capp_wf_def)
  from mem_create_cases [OF this 5(3)] mem_create_cases [OF 5(1,2)] show ?case by auto
next
  case (6 x d im refs x')
  then show ?case by (auto simp: mem_rollout_def Let_def split: if_splits)
next
  case (7 x i w im refs e x')
  from mem_create_cases [OF this] show ?case by auto
next
  case (8 x d im refs e x')
  then show ?case by (auto simp: mem_rollout_def Let_def split: if_splits)
qed

end
