(* ===== verification/Git_Client.thy ===== *)
theory Git_Client
  imports Clients
begin

text \<open>
  \<open>src/bl/git_client.py\<close>: the contract of a script repository and the in-memory one, with SHA-1
  as a parameter. The locale \<open>script_store\<close> is what authoring relies on: what was committed is
  stored, other paths are untouched. The locale \<open>git_repo\<close> adds what the cascade relies on:
  archiving is idempotent and never erases script bytes. The GitLab client is in \<open>Gitlab\<close>.
\<close>

definition ARCHIVE_MARKER :: pystr where
  "ARCHIVE_MARKER = str ''.archived''"

definition archive_marker_path :: "uuid \<Rightarrow> pystr" where
  "archive_marker_path automation_id = uuid_str automation_id @ str ''/'' @ ARCHIVE_MARKER"

definition script_path_of :: "uuid \<Rightarrow> pystr" where
  "script_path_of automation_id = uuid_str automation_id @ str ''/script.py''"

lemma length_uuid_str: "length (uuid_str i) = 36"
  by (simp add: uuid_str_def Let_def length_uuid_hex str_def)

lemma script_path_not_marker: "script_path_of i \<noteq> archive_marker_path j"
  by (auto simp: script_path_of_def archive_marker_path_def ARCHIVE_MARKER_def append_eq_append_conv
      length_uuid_str str_def)

lemma script_path_of_eq_iff [simp]: "script_path_of i = script_path_of j \<longleftrightarrow> i = j"
  by (auto simp: script_path_of_def append_eq_append_conv length_uuid_str)

section \<open>InMemoryGitClient\<close>

record mem_git =
  mg_files :: "pystr \<rightharpoonup> pystr"
  mg_revisions :: "pystr \<rightharpoonup> nat"
  mg_shas :: "pystr \<rightharpoonup> pystr"
  mg_commit_log :: "pystr list"

definition mem_git_init :: mem_git where
  "mem_git_init = \<lparr>mg_files = Map.empty, mg_revisions = Map.empty, mg_shas = Map.empty, mg_commit_log = []\<rparr>"

text \<open>The revision counter and the file are written before the digest is computed, so a
  script that cannot be encoded raises after both.\<close>

definition mem_commit_script ::
  "(nat list \<Rightarrow> pystr) \<Rightarrow> pystr \<Rightarrow> pystr \<Rightarrow> pystr \<Rightarrow> (mem_git, pystr) client" where
  "mem_commit_script sha1 script_path content message g =
     (let revision = (case mg_revisions g script_path of None \<Rightarrow> 0 | Some r \<Rightarrow> r) + 1;
          g1 = g\<lparr>mg_revisions := (mg_revisions g)(script_path \<mapsto> revision),
                 mg_files := (mg_files g)(script_path \<mapsto> content)\<rparr>
      in case utf8_encode (script_path @ str ''@'' @ dec revision @ [10] @ content) of
           None \<Rightarrow> (Inl PyUnicodeEncodeError, g1)
         | Some bs \<Rightarrow>
             (Inr (sha1 bs),
              g1\<lparr>mg_shas := (mg_shas g1)(script_path \<mapsto> sha1 bs),
                 mg_commit_log := mg_commit_log g1 @ [message]\<rparr>))"

definition mem_read_script :: "pystr \<Rightarrow> (mem_git, pystr option) client" where
  "mem_read_script script_path g = (Inr (mg_files g script_path), g)"

definition mem_archive :: "(nat list \<Rightarrow> pystr) \<Rightarrow> uuid \<Rightarrow> pystr \<Rightarrow> (mem_git, pystr) client" where
  "mem_archive sha1 automation_id actor g =
     (let path = archive_marker_path automation_id in
      if mg_files g path \<noteq> None
      then (case mg_shas g path of None \<Rightarrow> (Inl PyKeyError, g) | Some s \<Rightarrow> (Inr s, g))
      else mem_commit_script sha1 path (str ''archived by '' @ actor @ [10])
             (str ''archive '' @ uuid_str automation_id) g)"

definition InMemoryGitClient :: "(nat list \<Rightarrow> pystr) \<Rightarrow> mem_git git_client" where
  "InMemoryGitClient sha1 =
     \<lparr>g_commit_script = mem_commit_script sha1, g_read_script = mem_read_script,
      g_archive = mem_archive sha1\<rparr>"

locale script_store =
  fixes storable :: "pystr \<Rightarrow> bool"
    and commit :: "pystr \<Rightarrow> pystr \<Rightarrow> pystr \<Rightarrow> ('x, pystr) client"
    and read :: "pystr \<Rightarrow> ('x, pystr option) client"
    and content_at :: "'x \<Rightarrow> pystr \<Rightarrow> pystr option"
  assumes commit_stores: "commit p c m x = (Inr s, x') \<Longrightarrow> storable c \<Longrightarrow> content_at x' p = Some c"
    and commit_frame: "commit p c m x = (r, x') \<Longrightarrow> q \<noteq> p \<Longrightarrow> content_at x' q = content_at x q"
    and read_content: "read p x = (Inr c', x') \<Longrightarrow> c' = content_at x p"
    and read_frame: "read p x = (r', x') \<Longrightarrow> content_at x' = content_at x"
begin

lemma commit_reads_back:
  assumes "commit p c m x = (Inr s, x1)" and "storable c" and "read p x1 = (Inr c', x2)"
  shows "c' = Some c"
  using read_content [OF assms(3)] commit_stores [OF assms(1,2)] by simp

lemma commit_other_reads_back:
  assumes "commit p c m x = (r, x1)" and "q \<noteq> p" and "read q x1 = (Inr c', x2)"
  shows "c' = content_at x q"
  using read_content [OF assms(3)] commit_frame [OF assms(1,2)] by simp

end

locale git_repo = script_store storable commit read content_at
  for storable :: "pystr \<Rightarrow> bool"
    and commit :: "pystr \<Rightarrow> pystr \<Rightarrow> pystr \<Rightarrow> ('x, pystr) client"
    and read :: "pystr \<Rightarrow> ('x, pystr option) client"
    and content_at :: "'x \<Rightarrow> pystr \<Rightarrow> pystr option" +
  fixes archive :: "uuid \<Rightarrow> pystr \<Rightarrow> ('x, pystr) client"
    and commits :: "'x \<Rightarrow> nat"
  assumes archive_marks: "archive i a x = (Inr s, x') \<Longrightarrow> content_at x' (archive_marker_path i) \<noteq> None"
    and archive_frame: "archive i a x = (r, x') \<Longrightarrow> q \<noteq> archive_marker_path i \<Longrightarrow> content_at x' q = content_at x q"
    and archive_again: "archive i a x = (Inr s, x') \<Longrightarrow> archive i b x' = (Inr s, x')"
begin

text \<open>Archiving any number of automations leaves every script readable as committed.\<close>

lemma archive_keeps_scripts:
  assumes "archive i a x = (r, x')"
  shows "content_at x' (script_path_of j) = content_at x (script_path_of j)"
  using archive_frame [OF assms] script_path_not_marker by simp

lemma commit_then_archive:
  assumes "commit (script_path_of i) c m x = (Inr s, x1)" and "storable c" and "archive j a x1 = (r, x2)"
    and "read (script_path_of i) x2 = (Inr c', x3)"
  shows "c' = Some c"
  using archive_keeps_scripts [OF assms(3)] commit_stores [OF assms(1,2)] read_content [OF assms(4)] by simp

lemma archive_once:
  assumes "archive i a x = (Inr s, x')" and "archive i b x' = (r, x'')"
  shows "r = Inr s \<and> commits x'' = commits x'"
  using archive_again [OF assms(1), of b] assms(2) by simp

end

lemma mem_commit_files:
  "mem_commit_script sha1 p c m g = (r, g') \<Longrightarrow> mg_files g' = (mg_files g)(p \<mapsto> c)"
  by (auto simp: mem_commit_script_def Let_def split: option.splits)

lemma mem_commit_sha:
  "mem_commit_script sha1 p c m g = (Inr s, g') \<Longrightarrow> mg_shas g' p = Some s"
  by (auto simp: mem_commit_script_def Let_def split: option.splits)

interpretation mem_scripts: script_store "\<lambda>_. True" "mem_commit_script sha1" mem_read_script mg_files for sha1
  by unfold_locales (auto simp: mem_commit_files mem_read_script_def)

interpretation mem_git: git_repo "\<lambda>_. True" "mem_commit_script sha1" mem_read_script mg_files "mem_archive sha1"
  "\<lambda>g. length (mg_commit_log g)" for sha1
proof (unfold_locales, goal_cases)
  case (1 i a x s x')
  then show ?case
    by (auto simp: mem_archive_def Let_def dest!: mem_commit_files split: if_splits option.splits)
next
  case (2 i a x r x' q)
  then show ?case
    by (auto simp: mem_archive_def Let_def dest!: mem_commit_files split: if_splits option.splits)
next
  case (3 i a x s x' b)
  show ?case
  proof (cases "mg_files x (archive_marker_path i)")
    case None
    with 3 have c: "mem_commit_script sha1 (archive_marker_path i) (str ''archived by '' @ a @ [10])
        (str ''archive '' @ uuid_str i) x = (Inr s, x')"
      by (simp add: mem_archive_def Let_def)
    show ?thesis using mem_commit_files [OF c] mem_commit_sha [OF c]
      by (simp add: mem_archive_def Let_def)
  next
    case (Some v)
    with 3 show ?thesis by (auto simp: mem_archive_def Let_def split: option.splits)
  qed
qed

end
