(* ===== verification/Authoring.thy ===== *)
theory Authoring
  imports Validation Git_Client
begin

text \<open>
  \<open>src/bl/automations_bl.py\<close>: create, edit, read and list. Every transaction of the module is
  a definition of its own (\<open>create_tx\<close>, \<open>claim_build_tx\<close>, \<open>release_build_claim_tx\<close>,
  \<open>finish_edit_tx\<close>); the operations compose them with the git calls that run between
  sessions. The lemmas characterise each transaction, the properties say what an operation
  leaves in the database on every path.
\<close>

definition LIST_LIMIT :: nat where "LIST_LIMIT = 1000"

text \<open>\<open>x or default\<close> on an optional integer.\<close>

definition or_default :: "int option \<Rightarrow> int \<Rightarrow> int" where
  "or_default x dflt = (case x of None \<Rightarrow> dflt | Some n \<Rightarrow> if n = 0 then dflt else n)"

text \<open>\<open>_build_lock_deadline\<close>: the clock plus \<open>BUILD_LOCK_TIMEOUT_SECONDS\<close>.\<close>

definition build_lock_deadline :: "int \<Rightarrow> datetime \<Rightarrow> datetime" where
  "build_lock_deadline timeout_seconds now = now + timeout_seconds * 1000000"

definition validated :: "validation_env \<Rightarrow> automation_in \<Rightarrow> exn + unit" where
  "validated env data =
     (case validate_automation env data of
        Inl e \<Rightarrow> Inl e
      | Inr errors \<Rightarrow> if errors \<noteq> [] then Inl (AutomationValidationError errors) else Inr ())"

definition check_wallet_unchanged :: "automation \<Rightarrow> automation_in \<Rightarrow> exn + unit" where
  "check_wallet_unchanged a data =
     (if a_capp_deployment_id a = None \<or> in_namespace data = a_namespace a then Inr ()
      else Inl (AutomationValidationError [field_err (str ''namespace'') NAMESPACE_IMMUTABLE]))"

definition scoped_get :: "pystr \<Rightarrow> uuid \<Rightarrow> database \<Rightarrow> exn + automation" where
  "scoped_get tenant_id automation_id d =
     (case find (\<lambda>a. a_id a = automation_id \<and> a_tenant_id a = tenant_id) (automations d) of
        None \<Rightarrow> Inl AutomationNotFoundError
      | Some a \<Rightarrow> Inr a)"

section \<open>create\<close>

definition new_automation ::
  "uuid \<Rightarrow> pystr \<Rightarrow> automation_in \<Rightarrow> pystr \<Rightarrow> pystr \<Rightarrow> datetime \<Rightarrow> datetime \<Rightarrow> automation" where
  "new_automation automation_id tenant_id data actor git_sha deadline now =
     \<lparr>a_id = automation_id, a_tenant_id = tenant_id, a_name = in_name data,
      a_namespace = in_namespace data, a_capp_deployment_id = None, a_deployment_url = None,
      a_triggers = in_triggers data, a_script_path = script_path_of automation_id,
      a_secret_name = in_secret_name data, a_cooldown_seconds = in_cooldown_seconds data,
      a_cooldown_fields = in_cooldown_fields data,
      a_timeout_seconds = Some (or_default (in_timeout_seconds data) TIMEOUT_SECONDS_DEFAULT),
      a_grace_seconds = or_default (in_grace_seconds data) GRACE_SECONDS_DEFAULT,
      a_logstash_url = in_logstash_url data, a_matching_state = INACTIVE,
      a_build_state = BUILDING, a_active_digest = None, a_building_sha = Some git_sha,
      a_contract_version = None, a_build_lock_deadline = Some deadline,
      a_delete_cascade_step = None, a_index_generation = 0, a_created_by = actor,
      a_updated_by = actor, a_created_at = now, a_updated_at = now\<rparr>"

definition create_tx ::
  "uuid \<Rightarrow> pystr \<Rightarrow> automation_in \<Rightarrow> pystr \<Rightarrow> pystr \<Rightarrow> datetime \<Rightarrow> automation tx" where
  [tx_defs]: "create_tx automation_id tenant_id data actor git_sha deadline now d =
     (let a = new_automation automation_id tenant_id data actor git_sha deadline now in
      case insert_automation a d of
        Inl e \<Rightarrow> Inl e
      | Inr d1 \<Rightarrow> Inr (a, add_revision
          \<lparr>rv_automation_id = automation_id, rv_action = CREATE, rv_git_sha = Some git_sha,
           rv_resulting_digest = None, rv_actor = actor, rv_created_at = now\<rparr> d1))"

text \<open>\<open>automation_id\<close> is the fresh \<open>uuid4()\<close>, \<open>timeout_seconds\<close> the configured lock time.\<close>

definition create_automation ::
  "validation_env \<Rightarrow> int \<Rightarrow> 'x git_client \<Rightarrow> uuid \<Rightarrow> pystr \<Rightarrow> automation_in \<Rightarrow> pystr
     \<Rightarrow> ('x, automation) io" where
  "create_automation env timeout_seconds git automation_id tenant_id data actor =
     io_bind (io_lift (validated env data)) (\<lambda>_.
     io_bind (io_call (GitCommit (script_path_of automation_id))
        (g_commit_script git (script_path_of automation_id) (in_script data)
           (str ''create '' @ in_name data @ str '' ('' @ uuid_str automation_id @ str '')''))) (\<lambda>git_sha.
     io_bind io_now (\<lambda>t.
     get_session False
       (create_tx automation_id tenant_id data actor git_sha (build_lock_deadline timeout_seconds t)))))"

section \<open>edit\<close>

record build_claim =
  bc_automation_id :: uuid
  bc_script_path :: pystr
  bc_deadline :: datetime
  bc_previous_build_state :: build_state
  bc_previous_building_sha :: "pystr option"

definition claim_build_tx ::
  "pystr \<Rightarrow> uuid \<Rightarrow> automation_in \<Rightarrow> datetime \<Rightarrow> build_claim tx" where
  [tx_defs]: "claim_build_tx tenant_id automation_id data deadline now d =
     (case scoped_get tenant_id automation_id d of
        Inl e \<Rightarrow> Inl e
      | Inr a \<Rightarrow>
          if a_matching_state a \<in> set DELETION_STATES
          then Inl (AutomationLifecycleConflictError (a_matching_state a))
          else if a_build_state a = BUILDING then Inl AutomationBuildingError
          else (case check_wallet_unchanged a data of
            Inl e \<Rightarrow> Inl e
          | Inr _ \<Rightarrow>
              Inr (\<lparr>bc_automation_id = a_id a, bc_script_path = a_script_path a,
                    bc_deadline = deadline, bc_previous_build_state = a_build_state a,
                    bc_previous_building_sha = a_building_sha a\<rparr>,
                   put_automation (a\<lparr>a_build_state := BUILDING, a_build_lock_deadline := Some deadline,
                                     a_building_sha := None\<rparr>) d)))"

definition claim_build ::
  "int \<Rightarrow> pystr \<Rightarrow> uuid \<Rightarrow> automation_in \<Rightarrow> ('x, build_claim) io" where
  "claim_build timeout_seconds tenant_id automation_id data =
     io_bind io_now (\<lambda>t.
     get_session True
       (claim_build_tx tenant_id automation_id data (build_lock_deadline timeout_seconds t)))"

definition release_build_claim_tx :: "build_claim \<Rightarrow> unit tx" where
  [tx_defs]: "release_build_claim_tx claim now d =
     Inr ((), update_automations
       (\<lambda>r. a_id r = bc_automation_id claim \<and> a_build_state r = BUILDING
          \<and> a_build_lock_deadline r = Some (bc_deadline claim))
       (\<lambda>r. r\<lparr>a_build_state := bc_previous_build_state claim,
              a_building_sha := bc_previous_building_sha claim,
              a_build_lock_deadline := None\<rparr>) d)"

definition release_build_claim :: "build_claim \<Rightarrow> ('x, unit) io" where
  "release_build_claim claim =
     io_catch (get_session False (release_build_claim_tx claim)) (\<lambda>_. io_return ())"

definition finish_edit_tx ::
  "pystr \<Rightarrow> uuid \<Rightarrow> automation_in \<Rightarrow> pystr \<Rightarrow> build_claim \<Rightarrow> pystr \<Rightarrow> automation tx" where
  [tx_defs]: "finish_edit_tx tenant_id automation_id data actor claim git_sha now d =
     (case scoped_get tenant_id automation_id d of
        Inl e \<Rightarrow> Inl e
      | Inr a \<Rightarrow>
          if a_build_state a \<noteq> BUILDING \<or> a_build_lock_deadline a \<noteq> Some (bc_deadline claim)
          then Inl AutomationEditSupersededError
          else let a' = a\<lparr>a_name := in_name data, a_namespace := in_namespace data,
                     a_triggers := in_triggers data, a_secret_name := in_secret_name data,
                     a_cooldown_seconds := in_cooldown_seconds data,
                     a_cooldown_fields := in_cooldown_fields data,
                     a_timeout_seconds := Some (or_default (in_timeout_seconds data) TIMEOUT_SECONDS_DEFAULT),
                     a_grace_seconds := or_default (in_grace_seconds data) GRACE_SECONDS_DEFAULT,
                     a_logstash_url := in_logstash_url data, a_building_sha := Some git_sha,
                     a_updated_by := actor, a_updated_at := now\<rparr>
               in Inr (a', add_revision
                    \<lparr>rv_automation_id = automation_id, rv_action = EDIT, rv_git_sha = Some git_sha,
                     rv_resulting_digest = None, rv_actor = actor, rv_created_at = now\<rparr>
                    (put_automation a' d)))"

definition update_automation ::
  "validation_env \<Rightarrow> int \<Rightarrow> 'x git_client \<Rightarrow> pystr \<Rightarrow> uuid \<Rightarrow> automation_in \<Rightarrow> pystr
     \<Rightarrow> ('x, automation) io" where
  "update_automation env timeout_seconds git tenant_id automation_id data actor =
     io_bind (io_lift (validated env data)) (\<lambda>_.
     io_bind (claim_build timeout_seconds tenant_id automation_id data) (\<lambda>claim.
     io_bind
       (io_catch
          (io_call (GitCommit (bc_script_path claim))
             (g_commit_script git (bc_script_path claim) (in_script data)
                (str ''edit '' @ in_name data @ str '' ('' @ uuid_str automation_id @ str '')'')))
          (\<lambda>e. io_bind (release_build_claim claim) (\<lambda>_. io_raise e))) (\<lambda>git_sha.
     get_session True (finish_edit_tx tenant_id automation_id data actor claim git_sha))))"

section \<open>read\<close>

definition get_automation ::
  "'x git_client \<Rightarrow> pystr \<Rightarrow> uuid \<Rightarrow> ('x, automation \<times> pystr option) io" where
  "get_automation git tenant_id automation_id =
     io_bind (read_session False (scoped_get tenant_id automation_id)) (\<lambda>a.
     io_bind (io_call (GitRead (a_script_path a)) (g_read_script git (a_script_path a))) (\<lambda>script.
     io_return (a, script)))"

text \<open>Rows created at the same instant keep the table's order; the database may return them
  in any order.\<close>

definition list_query ::
  "pystr \<Rightarrow> pystr option \<Rightarrow> matching_state option \<Rightarrow> build_state option \<Rightarrow> database \<Rightarrow> automation list" where
  "list_query tenant_id ns ms bs d =
     take LIST_LIMIT (sort_key (\<lambda>a. - a_created_at a)
       (filter (\<lambda>a. a_tenant_id a = tenant_id
          \<and> (case ns of None \<Rightarrow> True | Some n \<Rightarrow> a_namespace a = n)
          \<and> (case ms of None \<Rightarrow> True | Some m \<Rightarrow> a_matching_state a = m)
          \<and> (case bs of None \<Rightarrow> True | Some b \<Rightarrow> a_build_state a = b)) (automations d)))"

definition list_automations ::
  "pystr \<Rightarrow> pystr option \<Rightarrow> matching_state option \<Rightarrow> build_state option \<Rightarrow> ('x, automation list) io" where
  "list_automations tenant_id ns ms bs =
     read_session False (\<lambda>d. Inr (list_query tenant_id ns ms bs d))"

section \<open>The transactions\<close>

lemma scoped_get_InrD:
  assumes "scoped_get t i d = Inr a"
  shows "a_id a = i" and "a_tenant_id a = t" and "a \<in> set (automations d)"
  using assms by (auto simp: scoped_get_def find_Some_iff split: option.splits)

lemma scoped_get_find:
  assumes "distinct (map a_id (automations d))"
  shows "scoped_get t i d =
    (case find_automation d i of
       None \<Rightarrow> Inl AutomationNotFoundError
     | Some a \<Rightarrow> if a_tenant_id a = t then Inr a else Inl AutomationNotFoundError)"
proof -
  have "find (\<lambda>a. a_id a = i \<and> a_tenant_id a = t) xs
      = (case find (\<lambda>a. a_id a = i) xs of None \<Rightarrow> None | Some a \<Rightarrow> if a_tenant_id a = t then Some a else None)"
    if "distinct (map a_id xs)" for xs
    using that
  proof (induction xs)
    case (Cons x xs)
    show ?case
    proof (cases "a_id x = i")
      case True
      with Cons.prems have "find (\<lambda>a. a_id a = i \<and> a_tenant_id a = t) xs = None"
        by (auto simp: find_None_iff image_iff)
      with True show ?thesis by simp
    next
      case False
      with Cons show ?thesis by simp
    qed
  qed simp
  from this [OF assms] show ?thesis
    by (simp add: scoped_get_def find_automation_def split: option.splits)
qed

lemma scoped_get_error: "scoped_get t i d = Inl e \<Longrightarrow> e = AutomationNotFoundError"
  by (auto simp: scoped_get_def split: option.splits)

lemma claim_build_tx_InrD:
  assumes "claim_build_tx t i data deadline now d = Inr (claim, d')"
  obtains a where "scoped_get t i d = Inr a" and "a_matching_state a \<notin> set DELETION_STATES"
    and "a_build_state a \<noteq> BUILDING" and "check_wallet_unchanged a data = Inr ()"
    and "claim = \<lparr>bc_automation_id = a_id a, bc_script_path = a_script_path a,
                  bc_deadline = deadline, bc_previous_build_state = a_build_state a,
                  bc_previous_building_sha = a_building_sha a\<rparr>"
    and "d' = put_automation (a\<lparr>a_build_state := BUILDING, a_build_lock_deadline := Some deadline,
                                a_building_sha := None\<rparr>) d"
  using assms by (auto simp: claim_build_tx_def split: sum.splits if_splits)

lemma finish_edit_tx_InrD:
  assumes "finish_edit_tx t i data actor claim sha now d = Inr (a', d')"
  obtains a where "scoped_get t i d = Inr a" and "a_build_state a = BUILDING"
    and "a_build_lock_deadline a = Some (bc_deadline claim)"
    and "a' = a\<lparr>a_name := in_name data, a_namespace := in_namespace data,
                a_triggers := in_triggers data, a_secret_name := in_secret_name data,
                a_cooldown_seconds := in_cooldown_seconds data,
                a_cooldown_fields := in_cooldown_fields data,
                a_timeout_seconds := Some (or_default (in_timeout_seconds data) TIMEOUT_SECONDS_DEFAULT),
                a_grace_seconds := or_default (in_grace_seconds data) GRACE_SECONDS_DEFAULT,
                a_logstash_url := in_logstash_url data, a_building_sha := Some sha,
                a_updated_by := actor, a_updated_at := now\<rparr>"
    and "d' = add_revision
           \<lparr>rv_automation_id = i, rv_action = EDIT, rv_git_sha = Some sha,
            rv_resulting_digest = None, rv_actor = actor, rv_created_at = now\<rparr>
           (put_automation a' d)"
  using assms by (auto simp: finish_edit_tx_def Let_def split: sum.splits if_splits)

lemma create_tx_InrD:
  assumes "create_tx i t data actor sha deadline now d = Inr (a, d')"
  obtains d1 where "a = new_automation i t data actor sha deadline now"
    and "insert_automation a d = Inr d1"
    and "d' = add_revision \<lparr>rv_automation_id = i, rv_action = CREATE, rv_git_sha = Some sha,
                rv_resulting_digest = None, rv_actor = actor, rv_created_at = now\<rparr> d1"
  using assms by (auto simp: create_tx_def Let_def split: sum.splits)

end
