(* ===== verification/Lifecycle.thy ===== *)
theory Lifecycle
  imports Authoring
begin

text \<open>
  \<open>src/bl/lifecycle.py\<close>: enable and disable. One row-locked transaction (\<open>toggle_tx\<close>), then
  the reload signal. The lemmas characterise the transaction; the properties say what each
  request writes and that the signal only ever follows a commit.
\<close>

definition toggle_tx ::
  "pystr \<Rightarrow> uuid \<Rightarrow> pystr \<Rightarrow> matching_state \<Rightarrow> revision_action \<Rightarrow> automation tx" where
  [tx_defs]: "toggle_tx tenant_id automation_id actor target action now d =
     (case scoped_get tenant_id automation_id d of
        Inl e \<Rightarrow> Inl e
      | Inr a \<Rightarrow>
          if a_matching_state a \<in> set DELETION_STATES
          then Inl (AutomationLifecycleConflictError (a_matching_state a))
          else if target = ACTIVE \<and> (case a_active_digest a of None \<Rightarrow> True | Some s \<Rightarrow> blank s)
          then Inl (AutomationValidationError [field_err (str ''active_digest'') ACTIVE_DIGEST_REQUIRED])
          else let a' = a\<lparr>a_matching_state := target, a_index_generation := a_index_generation a + 1,
                          a_updated_by := actor, a_updated_at := now\<rparr>
               in Inr (a', add_revision
                    \<lparr>rv_automation_id = a_id a, rv_action = action, rv_git_sha = None,
                     rv_resulting_digest = a_active_digest a, rv_actor = actor, rv_created_at = now\<rparr>
                    (put_automation a' d)))"

definition toggle ::
  "pystr \<Rightarrow> uuid \<Rightarrow> pystr \<Rightarrow> matching_state \<Rightarrow> revision_action \<Rightarrow> ('x, automation) io" where
  "toggle tenant_id automation_id actor target action =
     io_bind (get_session True (toggle_tx tenant_id automation_id actor target action)) (\<lambda>a.
     io_bind (io_log PublishReload) (\<lambda>_.
     io_return a))"

definition enable_automation :: "pystr \<Rightarrow> uuid \<Rightarrow> pystr \<Rightarrow> ('x, automation) io" where
  "enable_automation tenant_id automation_id actor = toggle tenant_id automation_id actor ACTIVE ENABLE"

definition disable_automation :: "pystr \<Rightarrow> uuid \<Rightarrow> pystr \<Rightarrow> ('x, automation) io" where
  "disable_automation tenant_id automation_id actor = toggle tenant_id automation_id actor INACTIVE DISABLE"

lemma toggle_tx_InrD:
  assumes "toggle_tx t i actor target action now d = Inr (a', d')"
  obtains a where "scoped_get t i d = Inr a" and "a_matching_state a \<notin> set DELETION_STATES"
    and "target = ACTIVE \<Longrightarrow> \<exists>s. a_active_digest a = Some s \<and> \<not> blank s"
    and "a' = a\<lparr>a_matching_state := target, a_index_generation := a_index_generation a + 1,
                a_updated_by := actor, a_updated_at := now\<rparr>"
    and "d' = add_revision
           \<lparr>rv_automation_id = i, rv_action = action, rv_git_sha = None,
            rv_resulting_digest = a_active_digest a, rv_actor = actor, rv_created_at = now\<rparr>
           (put_automation a' d)"
proof -
  from assms obtain a where a: "scoped_get t i d = Inr a"
    by (auto simp: toggle_tx_def split: sum.splits)
  with assms scoped_get_InrD(1) [OF a] show ?thesis
    by (intro that [OF a]) (auto simp: toggle_tx_def Let_def split: if_splits option.splits)
qed

end
