(* ===== verification/Ci_Webhook.thy ===== *)
theory Ci_Webhook
  imports Clients
begin

text \<open>
  \<open>src/models/api/ci_webhook.py\<close>: the webhook's payload and its validators, with the two
  regular expressions as predicates on code points. \<open>parse_ci_webhook\<close> is the model class:
  it takes the already typed fields (UUID, enum and string coercion is pydantic's) and
  returns the payload or the errors the validators report, in field order. The lemmas say
  what an accepted payload looks like.
\<close>

text \<open>\<open>[0-9a-f]{40}(?:[0-9a-f]{24})?\<close>\<close>

definition is_commit_sha :: "pystr \<Rightarrow> bool" where
  "is_commit_sha s \<longleftrightarrow> list_all is_hex_lower s \<and> (length s = 40 \<or> length s = 64)"

text \<open>\<open>[a-z0-9][a-z0-9._:/-]*\<close>\<close>

definition is_repo_start :: "nat \<Rightarrow> bool" where
  "is_repo_start c \<longleftrightarrow> (97 \<le> c \<and> c \<le> 122) \<or> (48 \<le> c \<and> c \<le> 57)"

definition is_repo_char :: "nat \<Rightarrow> bool" where
  "is_repo_char c \<longleftrightarrow> is_repo_start c \<or> c \<in> {46, 95, 58, 47, 45}"

definition is_valid_repository :: "pystr \<Rightarrow> bool" where
  "is_valid_repository s \<longleftrightarrow>
     (case s of [] \<Rightarrow> False | c # cs \<Rightarrow> is_repo_start c \<and> list_all is_repo_char cs)"

text \<open>\<open>_REPOSITORY + @sha256:[0-9a-f]{64}\<close>. The repository has no \<open>@\<close>, so the split at the
  first \<open>@\<close> is the only way to match.\<close>

definition is_digest_ref :: "pystr \<Rightarrow> bool" where
  "is_digest_ref s \<longleftrightarrow>
     (let repo = takeWhile (\<lambda>c. c \<noteq> 64) s; rest = dropWhile (\<lambda>c. c \<noteq> 64) s in
      is_valid_repository repo \<and> take 8 rest = str ''@sha256:''
      \<and> length rest = 72 \<and> list_all is_hex_lower (drop 8 rest))"

definition CONTRACT_VERSION_MAX_LENGTH :: nat where "CONTRACT_VERSION_MAX_LENGTH = 64"

datatype build_outcome = SUCCESS | OUTCOME_FAILED

record ci_webhook_in =
  e_automation_id :: uuid
  e_commit_sha :: pystr
  e_status :: build_outcome
  e_image :: "pystr option"
  e_contract_version :: "pystr option"

datatype ci_webhook_result = APPLIED | IGNORED

datatype ignored_reason = NOT_BUILDING | SHA_MISMATCH | REASON_DELETING

record ci_webhook_out =
  o_status :: ci_webhook_result
  o_reason :: "ignored_reason option"

definition check_commit_sha :: "pystr \<Rightarrow> field_error list" where
  "check_commit_sha s =
     (if is_commit_sha s then [] else [field_err (str ''commit_sha'') INVALID_VALUE])"

text \<open>A failed delivery's \<open>image\<close> and \<open>contract_version\<close> are passed through unchecked.\<close>

definition check_image :: "build_outcome \<Rightarrow> pystr option \<Rightarrow> field_error list" where
  "check_image status img =
     (if status \<noteq> SUCCESS then []
      else case img of
        None \<Rightarrow> [field_err (str ''image'') FIELD_REQUIRED]
      | Some s \<Rightarrow> if is_digest_ref s then [] else [field_err (str ''image'') INVALID_VALUE])"

definition check_contract_version :: "build_outcome \<Rightarrow> pystr option \<Rightarrow> field_error list" where
  "check_contract_version status v =
     (if status \<noteq> SUCCESS then []
      else case v of
        None \<Rightarrow> [field_err (str ''contract_version'') FIELD_REQUIRED]
      | Some s \<Rightarrow> if strip s = [] \<or> length s > CONTRACT_VERSION_MAX_LENGTH
                  then [field_err (str ''contract_version'') INVALID_VALUE] else [])"

definition parse_ci_webhook ::
  "uuid \<Rightarrow> pystr \<Rightarrow> build_outcome \<Rightarrow> pystr option \<Rightarrow> pystr option \<Rightarrow> field_error list + ci_webhook_in" where
  "parse_ci_webhook automation_id commit_sha status img contract_version =
     (let errors = check_commit_sha commit_sha @ check_image status img
            @ check_contract_version status contract_version in
      if errors \<noteq> [] then Inl errors
      else Inr \<lparr>e_automation_id = automation_id, e_commit_sha = commit_sha, e_status = status,
                e_image = img, e_contract_version = contract_version\<rparr>)"

text \<open>What the rest of the service may rely on for an accepted payload.\<close>

definition event_ok :: "ci_webhook_in \<Rightarrow> bool" where
  "event_ok e \<longleftrightarrow> is_commit_sha (e_commit_sha e)
     \<and> (e_status e = SUCCESS \<longrightarrow>
          (\<exists>s. e_image e = Some s \<and> is_digest_ref s)
        \<and> (\<exists>v. e_contract_version e = Some v \<and> \<not> blank v \<and> length v \<le> CONTRACT_VERSION_MAX_LENGTH))"

lemma is_hex_lower_not_space: "is_hex_lower c \<Longrightarrow> \<not> is_space c"
  by (auto simp: is_hex_lower_def is_ascii_digit_def is_space_def)

lemma parse_ci_webhook_ok:
  "parse_ci_webhook i sha st img v = Inr e \<longleftrightarrow>
     e = \<lparr>e_automation_id = i, e_commit_sha = sha, e_status = st, e_image = img, e_contract_version = v\<rparr>
     \<and> event_ok e"
  by (auto simp: parse_ci_webhook_def event_ok_def check_commit_sha_def check_image_def
      check_contract_version_def blank_def strip_eq_Nil_iff Let_def split: option.splits if_splits)

text \<open>A digest reference is its repository, the marker and 64 hex digits; it is never blank and
  fits the column's bound given the repository's length.\<close>

lemma digest_ref_parts:
  assumes "is_digest_ref s"
  obtains repo hex where "s = repo @ str ''@sha256:'' @ hex" and "is_valid_repository repo"
    and "length hex = 64" and "list_all is_hex_lower hex" and "takeWhile (\<lambda>c. c \<noteq> 64) s = repo"
proof -
  let ?repo = "takeWhile (\<lambda>c. c \<noteq> 64) s" and ?rest = "dropWhile (\<lambda>c. c \<noteq> 64) s"
  have "s = ?repo @ take 8 ?rest @ drop 8 ?rest" by simp
  with assms show ?thesis
    by (intro that [of ?repo "drop 8 ?rest"]) (auto simp: is_digest_ref_def Let_def)
qed

lemma digest_ref_not_blank: "is_digest_ref s \<Longrightarrow> \<not> blank s"
proof (erule digest_ref_parts)
  fix repo hex
  assume s: "s = repo @ str ''@sha256:'' @ hex" and "length hex = 64" and "list_all is_hex_lower hex"
  then obtain c where "c \<in> set hex" "is_hex_lower c" by (cases hex) auto
  with s show ?thesis by (auto simp: blank_iff dest: is_hex_lower_not_space)
qed

end
