(* ===== verification/Builds.thy ===== *)
theory Builds
  imports Authoring Ci_Webhook
begin

text \<open>
  \<open>src/bl/builds.py\<close>: what a CI webhook does to the build it reports. \<open>apply_build_result\<close>
  composes an admission read, the CAPP call, and the locked cutover, with no session open
  across the call; \<open>cut_over_tx\<close> and \<open>record_failure_tx\<close> are its two transactions. The lemmas
  characterise those; the properties cover admission, cutover, failure, redelivery, the
  races the module's header describes, and the binding of the image to the automation.
\<close>

definition BUILD_ACTOR :: pystr where "BUILD_ACTOR = str ''ci-webhook''"

definition REQUESTING_ACTIONS :: "revision_action list" where
  "REQUESTING_ACTIONS = [CREATE, EDIT]"

record build_target =
  bt_tenant_id :: pystr
  bt_wallet :: pystr
  bt_secret_name :: "pystr option"
  bt_capp_deployment_id :: "pystr option"

section \<open>Admission\<close>

definition admission :: "automation \<Rightarrow> pystr \<Rightarrow> ignored_reason option" where
  "admission a commit_sha =
     (if a_matching_state a \<in> set DELETION_STATES then Some REASON_DELETING
      else if a_build_state a \<noteq> BUILDING then Some NOT_BUILDING
      else if a_building_sha a \<noteq> Some commit_sha then Some SHA_MISMATCH
      else None)"

definition load :: "uuid \<Rightarrow> database \<Rightarrow> exn + automation" where
  "load automation_id d =
     (case find_automation d automation_id of
        None \<Rightarrow> Inl AutomationNotFoundError
      | Some a \<Rightarrow> Inr a)"

text \<open>The newest create/edit revision's commit. Two revisions of the same instant keep the
  table's order; the database may order them either way.\<close>

definition latest_requested_sha :: "uuid \<Rightarrow> database \<Rightarrow> pystr option" where
  "latest_requested_sha automation_id d =
     (case sort_key (\<lambda>r. - rv_created_at r)
        (filter (\<lambda>r. rv_automation_id r = automation_id \<and> rv_action r \<in> set REQUESTING_ACTIONS)
          (revisions d)) of
        [] \<Rightarrow> None
      | r # _ \<Rightarrow> rv_git_sha r)"

definition failure_raced :: "database \<Rightarrow> automation \<Rightarrow> pystr \<Rightarrow> bool" where
  "failure_raced d a commit_sha \<longleftrightarrow>
     a_build_state a = BUILD_FAILED \<and> latest_requested_sha (a_id a) d = Some commit_sha"

definition build_revision ::
  "ci_webhook_in \<Rightarrow> revision_action \<Rightarrow> pystr option \<Rightarrow> datetime \<Rightarrow> automation_revision" where
  "build_revision event action digest now =
     \<lparr>rv_automation_id = e_automation_id event, rv_action = action,
      rv_git_sha = Some (e_commit_sha event), rv_resulting_digest = digest,
      rv_actor = BUILD_ACTOR, rv_created_at = now\<rparr>"

definition ignored :: "ignored_reason \<Rightarrow> ci_webhook_out" where
  "ignored reason = \<lparr>o_status = IGNORED, o_reason = Some reason\<rparr>"

definition applied :: ci_webhook_out where
  "applied = \<lparr>o_status = APPLIED, o_reason = None\<rparr>"

definition build_event_of :: "automation \<Rightarrow> pystr \<Rightarrow> build_event" where
  "build_event_of a commit_sha =
     \<lparr>be_automation_id = a_id a, be_tenant_id = a_tenant_id a, be_commit_sha = commit_sha,
      be_build_state = build_state_value (a_build_state a),
      be_matching_state = matching_state_value (a_matching_state a),
      be_active_digest = a_active_digest a\<rparr>"

section \<open>The image's repository\<close>

definition configured_image_repository :: "pystr \<Rightarrow> pystr option" where
  "configured_image_repository image_repository =
     (let prefix = rstrip_char 47 image_repository in
      if prefix = [] \<or> \<not> is_valid_repository prefix then None else Some prefix)"

definition image_repository_of :: "pystr \<Rightarrow> pystr" where
  "image_repository_of img = takeWhile (\<lambda>c. c \<noteq> 64) img"

text \<open>A success without an image does not get past the payload's validators; the branch is
  the \<open>AttributeError\<close> of \<open>None.split\<close>.\<close>

definition require_own_image :: "pystr \<Rightarrow> ci_webhook_in \<Rightarrow> exn + unit" where
  "require_own_image image_repository event =
     (case configured_image_repository image_repository of
        None \<Rightarrow> Inl CappUnavailableError
      | Some prefix \<Rightarrow>
          (case e_image event of
             None \<Rightarrow> Inl (PyException (str ''AttributeError''))
           | Some img \<Rightarrow>
               if image_repository_of img \<noteq> prefix @ str ''/'' @ uuid_str (e_automation_id event)
               then Inl (AutomationValidationError [field_err (str ''image'') INVALID_VALUE])
               else Inr ()))"

section \<open>The two transactions\<close>

definition cut_over_row ::
  "automation \<Rightarrow> ci_webhook_in \<Rightarrow> capp_deployment option \<Rightarrow> datetime \<Rightarrow> automation" where
  "cut_over_row a event created now =
     (let a1 = (case created of
                  None \<Rightarrow> a
                | Some dep \<Rightarrow> a\<lparr>a_capp_deployment_id := Some (deployment_id dep),
                                 a_deployment_url := Some (deployment_url dep)\<rparr>)
      in a1\<lparr>a_active_digest := e_image event, a_contract_version := e_contract_version event,
            a_build_state := IDLE, a_building_sha := None, a_build_lock_deadline := None,
            a_updated_at := now\<rparr>)"

definition cut_over ::
  "database \<Rightarrow> automation \<Rightarrow> ci_webhook_in \<Rightarrow> capp_deployment option \<Rightarrow> datetime
     \<Rightarrow> build_event \<times> database" where
  "cut_over d a event created now =
     (let a' = cut_over_row a event created now;
          d1 = put_automation a' d;
          d2 = update_revisions
                 (\<lambda>r. rv_automation_id r = e_automation_id event
                    \<and> rv_git_sha r = Some (e_commit_sha event) \<and> rv_action r \<in> set REQUESTING_ACTIONS)
                 (\<lambda>r. r\<lparr>rv_resulting_digest := e_image event\<rparr>) d1;
          d3 = add_revision (build_revision event BUILD_SUCCEEDED (e_image event) now) d2
      in (build_event_of a' (e_commit_sha event), d3))"

definition cut_over_tx ::
  "ci_webhook_in \<Rightarrow> capp_deployment option \<Rightarrow> datetime \<Rightarrow> database
     \<Rightarrow> exn + ((ignored_reason + build_event) \<times> database option)" where
  [tx_defs]: "cut_over_tx event created now d =
     (case load (e_automation_id event) d of
        Inl e \<Rightarrow> Inl e
      | Inr a \<Rightarrow>
          let reason = admission a (e_commit_sha event);
              reason = (if reason = Some NOT_BUILDING \<and> failure_raced d a (e_commit_sha event)
                        then None else reason)
          in (case reason of
                Some r \<Rightarrow> Inr (Inl r, None)
              | None \<Rightarrow> (case cut_over d a event created now of
                  (be, d') \<Rightarrow> Inr (Inr be, Some d'))))"

definition record_failure_tx ::
  "ci_webhook_in \<Rightarrow> datetime \<Rightarrow> database \<Rightarrow> exn + ((ignored_reason + build_event) \<times> database option)" where
  [tx_defs]: "record_failure_tx event now d =
     (case load (e_automation_id event) d of
        Inl e \<Rightarrow> Inl e
      | Inr a \<Rightarrow>
          (case admission a (e_commit_sha event) of
             Some r \<Rightarrow> Inr (Inl r, None)
           | None \<Rightarrow>
               let a' = a\<lparr>a_build_state := BUILD_FAILED, a_building_sha := None,
                          a_build_lock_deadline := None, a_updated_at := now\<rparr>
               in Inr (Inr (build_event_of a' (e_commit_sha event)),
                    Some (add_revision (build_revision event REV_BUILD_FAILED None now)
                      (put_automation a' d)))))"

section \<open>The webhook\<close>

definition record_failure :: "ci_webhook_in \<Rightarrow> ('x, ci_webhook_out) io" where
  "record_failure event =
     io_bind (get_session_opt True (record_failure_tx event)) (\<lambda>res.
     case res of
       Inl reason \<Rightarrow> io_return (ignored reason)
     | Inr be \<Rightarrow> io_bind (io_log (PublishEvent be)) (\<lambda>_. io_return applied))"

definition tear_down ::
  "'x capp_deletion_client \<Rightarrow> ci_webhook_in \<Rightarrow> pystr \<Rightarrow> pystr \<Rightarrow> ('x, unit) io" where
  "tear_down deletion event wallet name =
     io_catch
       (io_bind (io_call (CappDelete wallet name) (d_delete_capp deletion wallet name)) (\<lambda>_.
        io_call (SecretDelete wallet (run_auth_secret_name (e_automation_id event)))
          (d_delete_secret deletion wallet (run_auth_secret_name (e_automation_id event)))))
       (\<lambda>_. io_return ())"

definition secret_refs_of :: "build_target \<Rightarrow> pystr list" where
  "secret_refs_of target =
     (case bt_secret_name target of None \<Rightarrow> [] | Some s \<Rightarrow> if s = [] then [] else [s])"

text \<open>Phase 2: create on the first build, roll out on the later ones. The image is present
  once \<open>require_own_image\<close> has passed.\<close>

definition deploy ::
  "'x capp_client \<Rightarrow> ci_webhook_in \<Rightarrow> build_target \<Rightarrow> ('x, capp_deployment option) io" where
  "deploy capp event target =
     (let img = (case e_image event of None \<Rightarrow> [] | Some s \<Rightarrow> s); refs = secret_refs_of target in
      case bt_capp_deployment_id target of
        None \<Rightarrow>
          io_bind (io_call (CappCreate (e_automation_id event) (bt_wallet target) img refs)
            (c_create_deployment capp (e_automation_id event) (bt_wallet target) img refs)) (\<lambda>dep.
          io_return (Some dep))
      | Some dep_id \<Rightarrow>
          io_bind (io_call (CappRollout dep_id img refs) (c_rollout capp dep_id img refs)) (\<lambda>_.
          io_return None))"

text \<open>Phase 3: the locked cutover, with a failure to record it turned into the retryable
  \<open>BuildNotRecordedError\<close>.\<close>

definition commit_cut_over ::
  "ci_webhook_in \<Rightarrow> capp_deployment option \<Rightarrow> ('x, ignored_reason + build_event) io" where
  "commit_cut_over event created =
     io_catch (get_session_opt True (cut_over_tx event created)) (\<lambda>e.
       if e = SQLAlchemyError then io_raise BuildNotRecordedError else io_raise e)"

definition deployed_name :: "build_target \<Rightarrow> capp_deployment option \<Rightarrow> pystr" where
  "deployed_name target created =
     (case created of
        Some dep \<Rightarrow> deployment_id dep
      | None \<Rightarrow> (case bt_capp_deployment_id target of Some n \<Rightarrow> n | None \<Rightarrow> []))"

definition target_of :: "automation \<Rightarrow> build_target" where
  "target_of a = \<lparr>bt_tenant_id = a_tenant_id a, bt_wallet = a_namespace a,
     bt_secret_name = a_secret_name a, bt_capp_deployment_id = a_capp_deployment_id a\<rparr>"

definition apply_build_result ::
  "pystr \<Rightarrow> 'x capp_client \<Rightarrow> 'x capp_deletion_client option \<Rightarrow> ci_webhook_in \<Rightarrow> ('x, ci_webhook_out) io" where
  "apply_build_result image_repository capp deletion event =
     (let deletion = (case deletion of None \<Rightarrow> UnconfiguredCappDeletionClient | Some c \<Rightarrow> c) in
      io_bind (read_session False (load (e_automation_id event))) (\<lambda>a.
      case admission a (e_commit_sha event) of
        Some reason \<Rightarrow> io_return (ignored reason)
      | None \<Rightarrow>
          let target = target_of a in
          if e_status event = OUTCOME_FAILED then record_failure event
          else
            io_bind (io_lift (require_own_image image_repository event)) (\<lambda>_.
            io_bind (deploy capp event target) (\<lambda>created.
            io_bind (commit_cut_over event created) (\<lambda>res.
            case res of
              Inl reason \<Rightarrow>
                io_bind
                  (if reason = REASON_DELETING
                   then tear_down deletion event (bt_wallet target) (deployed_name target created)
                   else io_return ()) (\<lambda>_.
                io_return (ignored reason))
            | Inr be \<Rightarrow>
                io_bind (io_log PublishReload) (\<lambda>_.
                io_bind (io_log (PublishEvent be)) (\<lambda>_.
                io_return applied)))))))"

section \<open>Lemmas\<close>

lemma admission_None_iff:
  "admission a sha = None \<longleftrightarrow>
     a_matching_state a \<notin> set DELETION_STATES \<and> a_build_state a = BUILDING \<and> a_building_sha a = Some sha"
  by (auto simp: admission_def)

lemma load_InrD: "load i d = Inr a \<Longrightarrow> find_automation d i = Some a \<and> a_id a = i"
  by (auto simp: load_def dest: atab.get_key split: option.splits)

lemma cut_over_row_simps [simp]:
  "a_id (cut_over_row a e c now) = a_id a"
  "a_tenant_id (cut_over_row a e c now) = a_tenant_id a"
  "a_namespace (cut_over_row a e c now) = a_namespace a"
  "a_matching_state (cut_over_row a e c now) = a_matching_state a"
  "a_delete_cascade_step (cut_over_row a e c now) = a_delete_cascade_step a"
  "a_index_generation (cut_over_row a e c now) = a_index_generation a"
  "a_script_path (cut_over_row a e c now) = a_script_path a"
  "a_created_at (cut_over_row a e c now) = a_created_at a"
  "a_created_by (cut_over_row a e c now) = a_created_by a"
  "a_updated_by (cut_over_row a e c now) = a_updated_by a"
  "a_triggers (cut_over_row a e c now) = a_triggers a"
  "a_cooldown_seconds (cut_over_row a e c now) = a_cooldown_seconds a"
  "a_cooldown_fields (cut_over_row a e c now) = a_cooldown_fields a"
  "a_timeout_seconds (cut_over_row a e c now) = a_timeout_seconds a"
  "a_grace_seconds (cut_over_row a e c now) = a_grace_seconds a"
  "a_active_digest (cut_over_row a e c now) = e_image e"
  "a_contract_version (cut_over_row a e c now) = e_contract_version e"
  "a_build_state (cut_over_row a e c now) = IDLE"
  "a_building_sha (cut_over_row a e c now) = None"
  "a_build_lock_deadline (cut_over_row a e c now) = None"
  "a_capp_deployment_id (cut_over_row a e c now) =
     (case c of None \<Rightarrow> a_capp_deployment_id a | Some dep \<Rightarrow> Some (deployment_id dep))"
  by (simp_all add: cut_over_row_def Let_def split: option.splits)

definition cut_over_db ::
  "database \<Rightarrow> automation \<Rightarrow> ci_webhook_in \<Rightarrow> capp_deployment option \<Rightarrow> datetime \<Rightarrow> database" where
  "cut_over_db d a event created now =
     add_revision (build_revision event BUILD_SUCCEEDED (e_image event) now)
       (update_revisions
          (\<lambda>r. rv_automation_id r = e_automation_id event
             \<and> rv_git_sha r = Some (e_commit_sha event) \<and> rv_action r \<in> set REQUESTING_ACTIONS)
          (\<lambda>r. r\<lparr>rv_resulting_digest := e_image event\<rparr>)
          (put_automation (cut_over_row a event created now) d))"

lemma cut_over_eq:
  "cut_over d a event created now =
     (build_event_of (cut_over_row a event created now) (e_commit_sha event),
      cut_over_db d a event created now)"
  by (simp add: cut_over_def cut_over_db_def Let_def)

definition admitted_at_commit :: "database \<Rightarrow> automation \<Rightarrow> pystr \<Rightarrow> bool" where
  "admitted_at_commit d a sha \<longleftrightarrow> a_matching_state a \<notin> set DELETION_STATES
     \<and> (a_build_state a = BUILDING \<and> a_building_sha a = Some sha
        \<or> failure_raced d a sha)"

lemma cut_over_tx_cases:
  assumes "load (e_automation_id event) d = Inr a"
  shows "cut_over_tx event created now d =
    (if admitted_at_commit d a (e_commit_sha event)
     then Inr (Inr (build_event_of (cut_over_row a event created now) (e_commit_sha event)),
               Some (cut_over_db d a event created now))
     else Inr (Inl (the (admission a (e_commit_sha event))), None))"
  using assms
  by (auto simp: cut_over_tx_def Let_def cut_over_eq admitted_at_commit_def admission_def
      failure_raced_def split: if_splits)

lemma cut_over_tx_SomeD:
  assumes "cut_over_tx event created now d = Inr (res, Some d')"
  obtains a where "load (e_automation_id event) d = Inr a"
    and "admitted_at_commit d a (e_commit_sha event)" and "d' = cut_over_db d a event created now"
proof -
  from assms obtain a where a: "load (e_automation_id event) d = Inr a"
    by (auto simp: cut_over_tx_def split: sum.splits)
  with assms that show ?thesis by (auto simp: cut_over_tx_cases split: if_splits)
qed

lemma record_failure_tx_SomeD:
  assumes "record_failure_tx event now d = Inr (res, Some d')"
  obtains a where "load (e_automation_id event) d = Inr a"
    and "admission a (e_commit_sha event) = None"
    and "d' = add_revision (build_revision event REV_BUILD_FAILED None now)
           (put_automation (a\<lparr>a_build_state := BUILD_FAILED, a_building_sha := None,
              a_build_lock_deadline := None, a_updated_at := now\<rparr>) d)"
proof -
  from assms obtain a where a: "load (e_automation_id event) d = Inr a"
    by (auto simp: record_failure_tx_def split: sum.splits)
  with assms show ?thesis
    by (intro that [OF a]) (auto simp: record_failure_tx_def Let_def split: option.splits)
qed

lemma require_own_image_InrD:
  assumes "require_own_image repo event = Inr u"
  obtains prefix img where "configured_image_repository repo = Some prefix"
    and "e_image event = Some img"
    and "image_repository_of img = prefix @ str ''/'' @ uuid_str (e_automation_id event)"
  using assms by (auto simp: require_own_image_def split: option.splits if_splits)

end
