(* ===== verification/Cascade.thy ===== *)
theory Cascade
  imports Lifecycle
begin

text \<open>
  \<open>src/bl/cascade.py\<close>: the delete cascade. \<open>begin_delete\<close> is the admission and step 1,
  \<open>checkpoint_tx\<close> the compare-and-set that records a finished step, the five
  \<open>step_\<close> functions what each step does outside the database, \<open>run_cascade\<close> the bounded
  loop that drives them, and \<open>deboard_wallet\<close> the fan-out over a tenant's wallet. The loop's
  bound is the code's own 20 iterations, so every function is total.
\<close>

definition STEP_MARKED_DELETING :: nat where "STEP_MARKED_DELETING = 1"

definition STEP_CAPP_RESOURCES_DELETED :: nat where "STEP_CAPP_RESOURCES_DELETED = 2"

definition STEP_IMAGES_DELETED :: nat where "STEP_IMAGES_DELETED = 3"

definition STEP_SCRIPT_ARCHIVED :: nat where "STEP_SCRIPT_ARCHIVED = 4"

definition STEP_DELETED :: nat where "STEP_DELETED = 5"

definition MAX_ITERATIONS :: nat where "MAX_ITERATIONS = 4 * STEP_DELETED"

lemmas step_defs = STEP_MARKED_DELETING_def STEP_CAPP_RESOURCES_DELETED_def
  STEP_IMAGES_DELETED_def STEP_SCRIPT_ARCHIVED_def STEP_DELETED_def

text \<open>The reload publisher is the effect \<open>PublishReload\<close>.\<close>

record 'x cascade_deps =
  cd_capp :: "'x capp_deletion_client"
  cd_registry :: "'x registry_client"
  cd_git :: "'x git_client"

record cascade_result =
  cr_automation_id :: uuid
  cr_matching_state :: matching_state
  cr_delete_cascade_step :: "nat option"
  cr_index_generation :: int
  cr_error :: "pystr option"

definition completed :: "cascade_result \<Rightarrow> bool" where
  "completed r \<longleftrightarrow> cr_matching_state r = DELETED"

record delete_admission =
  da_automation :: automation
  da_started :: bool

section \<open>Admission\<close>

definition begin_delete_tx ::
  "pystr \<Rightarrow> uuid \<Rightarrow> pystr \<Rightarrow> datetime \<Rightarrow> database \<Rightarrow> exn + (delete_admission \<times> database option)" where
  [tx_defs]: "begin_delete_tx tenant_id automation_id actor now d =
     (case scoped_get tenant_id automation_id d of
        Inl e \<Rightarrow> Inl e
      | Inr a \<Rightarrow>
          if a_matching_state a \<in> set DELETION_STATES
          then Inr (\<lparr>da_automation = a, da_started = False\<rparr>, None)
          else if a_build_state a = BUILDING then Inl AutomationBuildingError
          else let a' = a\<lparr>a_matching_state := DELETING,
                          a_delete_cascade_step := Some STEP_MARKED_DELETING,
                          a_index_generation := a_index_generation a + 1,
                          a_updated_by := actor, a_updated_at := now\<rparr>
               in Inr (\<lparr>da_automation = a', da_started = True\<rparr>, Some (add_revision
                    \<lparr>rv_automation_id = a_id a, rv_action = DELETE, rv_git_sha = None,
                     rv_resulting_digest = a_active_digest a, rv_actor = actor, rv_created_at = now\<rparr>
                    (put_automation a' d))))"

definition begin_delete :: "pystr \<Rightarrow> uuid \<Rightarrow> pystr \<Rightarrow> ('x, delete_admission) io" where
  "begin_delete tenant_id automation_id actor =
     io_bind (get_session_opt True (begin_delete_tx tenant_id automation_id actor)) (\<lambda>r.
     if \<not> da_started r then io_return r
     else io_bind (io_log PublishReload) (\<lambda>_. io_return r))"

section \<open>The runner's database side\<close>

definition snapshot_query :: "uuid \<Rightarrow> database \<Rightarrow> exn + automation" where
  "snapshot_query automation_id d =
     (case find_automation d automation_id of
        None \<Rightarrow> Inl AutomationNotFoundError
      | Some a \<Rightarrow> Inr a)"

definition snapshot :: "uuid \<Rightarrow> ('x, automation) io" where
  "snapshot automation_id = read_session False (snapshot_query automation_id)"

definition result_of :: "automation \<Rightarrow> pystr option \<Rightarrow> cascade_result" where
  "result_of a error =
     \<lparr>cr_automation_id = a_id a, cr_matching_state = a_matching_state a,
      cr_delete_cascade_step = a_delete_cascade_step a,
      cr_index_generation = a_index_generation a, cr_error = error\<rparr>"

text \<open>The row a checkpoint may move: still deleting, and exactly one step behind.\<close>

definition at_checkpoint :: "uuid \<Rightarrow> nat \<Rightarrow> automation \<Rightarrow> bool" where
  "at_checkpoint automation_id done r \<longleftrightarrow>
     a_id r = automation_id \<and> a_matching_state r = DELETING
     \<and> (let expected = done - 1 in
        if expected = 0 then a_delete_cascade_step r = None
        else a_delete_cascade_step r = Some expected)"

definition advance :: "nat \<Rightarrow> matching_state option \<Rightarrow> datetime \<Rightarrow> automation \<Rightarrow> automation" where
  "advance done ms now r =
     r\<lparr>a_delete_cascade_step := Some done, a_updated_at := now,
       a_matching_state := (case ms of None \<Rightarrow> a_matching_state r | Some m \<Rightarrow> m)\<rparr>"

definition checkpoint_tx :: "uuid \<Rightarrow> nat \<Rightarrow> matching_state option \<Rightarrow> bool tx" where
  [tx_defs]: "checkpoint_tx automation_id done ms now d =
     Inr (rowcount (at_checkpoint automation_id done) (automations d) = 1,
          update_automations (at_checkpoint automation_id done) (advance done ms now) d)"

definition checkpoint :: "uuid \<Rightarrow> nat \<Rightarrow> matching_state option \<Rightarrow> ('x, bool) io" where
  "checkpoint automation_id done ms = get_session False (checkpoint_tx automation_id done ms)"

definition external :: "nat \<Rightarrow> pystr \<Rightarrow> ext_op \<Rightarrow> ('x, 'a) client \<Rightarrow> ('x, unit) io" where
  "external step code c f =
     io_catch (io_bind (io_call c f) (\<lambda>_. io_return ())) (\<lambda>_. io_raise (CascadeStepError step code))"

definition save :: "uuid \<Rightarrow> nat \<Rightarrow> matching_state option \<Rightarrow> ('x, unit) io" where
  "save automation_id done ms =
     io_catch (io_bind (checkpoint automation_id done ms) (\<lambda>_. io_return ()))
       (\<lambda>_. io_raise (CascadeStepError done (str ''checkpoint_failed'')))"

section \<open>The five steps\<close>

definition step_mark_deleting :: "'x cascade_deps \<Rightarrow> automation \<Rightarrow> ('x, unit) io" where
  "step_mark_deleting deps a =
     io_bind (save (a_id a) STEP_MARKED_DELETING None) (\<lambda>_. io_log PublishReload)"

text \<open>Step 2c clears the encrypted key only when the table has such a column, and this
  version's table does not (\<open>automation_columns\<close>), so the checkpoint carries no more values.\<close>

definition RUN_AUTH_KEY_COLUMN :: pystr where
  "RUN_AUTH_KEY_COLUMN = str ''run_api_key_encrypted''"

definition automation_columns :: "pystr list" where
  "automation_columns = map str [''id'', ''tenant_id'', ''name'', ''namespace'',
     ''capp_deployment_id'', ''deployment_url'', ''triggers'', ''script_path'', ''secret_name'',
     ''cooldown_seconds'', ''cooldown_fields'', ''timeout_seconds'', ''grace_seconds'',
     ''logstash_url'', ''matching_state'', ''build_state'', ''active_digest'', ''building_sha'',
     ''contract_version'', ''build_lock_deadline'', ''delete_cascade_step'', ''index_generation'',
     ''created_by'', ''updated_by'', ''created_at'', ''updated_at'']"

definition run_auth_key_clear_values :: "(pystr \<times> json) list" where
  "run_auth_key_clear_values =
     (if RUN_AUTH_KEY_COLUMN \<in> set automation_columns then [(RUN_AUTH_KEY_COLUMN, JNull)] else [])"

lemma no_run_auth_key_column: "run_auth_key_clear_values = []"
  by (simp add: run_auth_key_clear_values_def RUN_AUTH_KEY_COLUMN_def automation_columns_def)

definition step_delete_capp_resources :: "'x cascade_deps \<Rightarrow> automation \<Rightarrow> ('x, unit) io" where
  "step_delete_capp_resources deps a =
     (let wallet = a_namespace a; name = capp_name_for (a_id a) (a_capp_deployment_id a);
          secret = run_auth_secret_name (a_id a) in
      io_bind (external STEP_CAPP_RESOURCES_DELETED (str ''capp_delete_failed'')
        (CappDelete wallet name) (d_delete_capp (cd_capp deps) wallet name)) (\<lambda>_.
      io_bind (external STEP_CAPP_RESOURCES_DELETED (str ''run_auth_secret_delete_failed'')
        (SecretDelete wallet secret) (d_delete_secret (cd_capp deps) wallet secret)) (\<lambda>_.
      save (a_id a) STEP_CAPP_RESOURCES_DELETED None)))"

definition list_entries :: "'x cascade_deps \<Rightarrow> uuid \<Rightarrow> ('x, pystr list) io" where
  "list_entries deps automation_id =
     io_catch (io_call (RegistryList automation_id) (rc_list_image_entries (cd_registry deps) automation_id))
       (\<lambda>_. io_raise (CascadeStepError STEP_IMAGES_DELETED (str ''registry_list_failed'')))"

primrec delete_entries :: "'x cascade_deps \<Rightarrow> uuid \<Rightarrow> pystr list \<Rightarrow> ('x, unit) io" where
  "delete_entries deps automation_id [] = io_return ()"
| "delete_entries deps automation_id (entry # entries) =
     io_bind (external STEP_IMAGES_DELETED (str ''registry_delete_failed'')
       (RegistryDelete automation_id entry) (rc_delete_image (cd_registry deps) automation_id entry)) (\<lambda>_.
     delete_entries deps automation_id entries)"

definition step_delete_images :: "'x cascade_deps \<Rightarrow> automation \<Rightarrow> ('x, unit) io" where
  "step_delete_images deps a =
     io_bind (list_entries deps (a_id a)) (\<lambda>entries.
     io_bind (delete_entries deps (a_id a) entries) (\<lambda>_.
     io_bind (list_entries deps (a_id a)) (\<lambda>remaining.
     if remaining \<noteq> []
     then io_raise (CascadeStepError STEP_IMAGES_DELETED (str ''registry_inventory_not_empty''))
     else save (a_id a) STEP_IMAGES_DELETED None)))"

definition step_archive_script :: "'x cascade_deps \<Rightarrow> automation \<Rightarrow> ('x, unit) io" where
  "step_archive_script deps a =
     io_bind (external STEP_SCRIPT_ARCHIVED (str ''git_archive_failed'')
       (GitArchive (a_id a) (a_updated_by a)) (g_archive (cd_git deps) (a_id a) (a_updated_by a))) (\<lambda>_.
     save (a_id a) STEP_SCRIPT_ARCHIVED None)"

definition step_mark_deleted :: "'x cascade_deps \<Rightarrow> automation \<Rightarrow> ('x, unit) io" where
  "step_mark_deleted deps a = save (a_id a) STEP_DELETED (Some DELETED)"

text \<open>\<open>_STEPS[next_step]\<close>; any other key raises \<open>KeyError\<close>.\<close>

definition run_step :: "'x cascade_deps \<Rightarrow> nat \<Rightarrow> automation \<Rightarrow> ('x, unit) io" where
  "run_step deps next_step a =
     (if next_step = STEP_MARKED_DELETING then step_mark_deleting deps a
      else if next_step = STEP_CAPP_RESOURCES_DELETED then step_delete_capp_resources deps a
      else if next_step = STEP_IMAGES_DELETED then step_delete_images deps a
      else if next_step = STEP_SCRIPT_ARCHIVED then step_archive_script deps a
      else if next_step = STEP_DELETED then step_mark_deleted deps a
      else io_raise PyKeyError)"

section \<open>The loop\<close>

definition next_step_of :: "automation \<Rightarrow> nat" where
  "next_step_of a = (case a_delete_cascade_step a of None \<Rightarrow> 0 | Some n \<Rightarrow> n) + 1"

text \<open>One pass through the \<open>try\<close>: \<open>None\<close> when the step returned, the sanitized code when it
  raised \<open>CascadeStepError\<close>; any other exception goes on.\<close>

definition try_step :: "'x cascade_deps \<Rightarrow> automation \<Rightarrow> ('x, pystr option) io" where
  "try_step deps a =
     io_catch (io_bind (run_step deps (next_step_of a) a) (\<lambda>_. io_return None))
       (\<lambda>e. case e of CascadeStepError step code \<Rightarrow> io_return (Some code) | _ \<Rightarrow> io_raise e)"

primrec cascade_loop :: "'x cascade_deps \<Rightarrow> uuid \<Rightarrow> nat \<Rightarrow> automation \<Rightarrow> ('x, cascade_result) io" where
  "cascade_loop deps automation_id 0 a = io_return (result_of a (Some (str ''cascade_no_progress'')))"
| "cascade_loop deps automation_id (Suc n) a =
     (if a_matching_state a = DELETED then io_return (result_of a None)
      else if a_matching_state a \<noteq> DELETING
      then io_raise (AutomationLifecycleConflictError (a_matching_state a))
      else io_bind (try_step deps a) (\<lambda>stopped.
        case stopped of
          Some code \<Rightarrow> io_return (result_of a (Some code))
        | None \<Rightarrow> io_bind (snapshot automation_id) (\<lambda>a'. cascade_loop deps automation_id n a')))"

definition run_cascade :: "'x cascade_deps \<Rightarrow> uuid \<Rightarrow> ('x, cascade_result) io" where
  "run_cascade deps automation_id =
     io_bind (snapshot automation_id) (\<lambda>a. cascade_loop deps automation_id MAX_ITERATIONS a)"

definition resume_delete :: "'x cascade_deps \<Rightarrow> uuid \<Rightarrow> ('x, cascade_result) io" where
  "resume_delete deps automation_id = run_cascade deps automation_id"

definition run_cascade_in_background :: "'x cascade_deps \<Rightarrow> uuid \<Rightarrow> ('x, unit) io" where
  "run_cascade_in_background deps automation_id =
     io_catch (io_bind (run_cascade deps automation_id) (\<lambda>_. io_return ())) (\<lambda>_. io_return ())"

section \<open>Deboard\<close>

record deboard_summary =
  ds_deleted :: "uuid list"
  ds_in_progress :: "uuid list"
  ds_skipped_building :: "uuid list"
  ds_failed :: "uuid list"

definition counts :: "deboard_summary \<Rightarrow> (pystr \<times> nat) list" where
  "counts s = [(str ''deleted'', length (ds_deleted s)), (str ''in_progress'', length (ds_in_progress s)),
     (str ''skipped_building'', length (ds_skipped_building s)), (str ''failed'', length (ds_failed s))]"

definition deboard_query :: "pystr \<Rightarrow> pystr \<Rightarrow> database \<Rightarrow> uuid list" where
  "deboard_query tenant_id wallet_name d =
     map a_id (sort_key a_created_at (sort_key a_id
       (filter (\<lambda>a. a_tenant_id a = tenant_id \<and> a_namespace a = wallet_name
          \<and> a_matching_state a \<noteq> DELETED) (automations d))))"

datatype admit_outcome = Admitted | SkippedBuilding | AdmitFailed

definition deboard_admit :: "pystr \<Rightarrow> uuid \<Rightarrow> pystr \<Rightarrow> ('x, admit_outcome) io" where
  "deboard_admit tenant_id automation_id actor =
     io_catch (io_bind (begin_delete tenant_id automation_id actor) (\<lambda>_. io_return Admitted))
       (\<lambda>e. io_return (if e = AutomationBuildingError then SkippedBuilding else AdmitFailed))"

definition deboard_run :: "'x cascade_deps \<Rightarrow> uuid \<Rightarrow> ('x, bool) io" where
  "deboard_run deps automation_id =
     io_catch (io_bind (run_cascade deps automation_id) (\<lambda>r. io_return (completed r)))
       (\<lambda>_. io_return False)"

primrec deboard_loop ::
  "'x cascade_deps \<Rightarrow> pystr \<Rightarrow> pystr \<Rightarrow> deboard_summary \<Rightarrow> uuid list \<Rightarrow> ('x, deboard_summary) io" where
  "deboard_loop deps tenant_id actor s [] = io_return s"
| "deboard_loop deps tenant_id actor s (i # is) =
     io_bind (deboard_admit tenant_id i actor) (\<lambda>oc.
     case oc of
       SkippedBuilding \<Rightarrow>
         deboard_loop deps tenant_id actor (s\<lparr>ds_skipped_building := ds_skipped_building s @ [i]\<rparr>) is
     | AdmitFailed \<Rightarrow> deboard_loop deps tenant_id actor (s\<lparr>ds_failed := ds_failed s @ [i]\<rparr>) is
     | Admitted \<Rightarrow>
         io_bind (deboard_run deps i) (\<lambda>finished.
         deboard_loop deps tenant_id actor
           (if finished then s\<lparr>ds_deleted := ds_deleted s @ [i]\<rparr>
            else s\<lparr>ds_in_progress := ds_in_progress s @ [i]\<rparr>) is))"

definition deboard_wallet ::
  "'x cascade_deps \<Rightarrow> pystr \<Rightarrow> pystr \<Rightarrow> pystr \<Rightarrow> ('x, deboard_summary) io" where
  "deboard_wallet deps tenant_id wallet_name actor =
     io_bind (read_session False (\<lambda>d. Inr (deboard_query tenant_id wallet_name d))) (\<lambda>automation_ids.
     deboard_loop deps tenant_id actor
       \<lparr>ds_deleted = [], ds_in_progress = [], ds_skipped_building = [], ds_failed = []\<rparr> automation_ids)"

end
