(* ===== verification/Runs.thy ===== *)
theory Runs
  imports Runtime
begin

text \<open>
  \<open>src/bl/run_finalization.py\<close>: attributing the runs a deletion kills. A terminal write is
  a compare-and-set (\<open>complete_run_tx\<close>); \<open>finalize_terminated_by_deletion\<close> makes at most the
  two attempts the code makes. Other workers write the runs table too (the submit loop is not
  part of this repository): \<open>run_rely\<close> of \<open>Runs_Correct\<close> states the documented order in which a run
  advances, and the properties hold for every interleaving with writers that respect it.
\<close>

definition OPEN_RUN_STATES :: "run_state list" where
  "OPEN_RUN_STATES = [PENDING, SUBMITTED]"

lemma in_OPEN_RUN_STATES [simp]: "s \<in> set OPEN_RUN_STATES \<longleftrightarrow> s = PENDING \<or> s = SUBMITTED"
  by (auto simp: OPEN_RUN_STATES_def)

section \<open>The automation side\<close>

definition matching_state_query :: "uuid \<Rightarrow> database \<Rightarrow> exn + matching_state" where
  "matching_state_query automation_id d =
     (case find_automation d automation_id of
        None \<Rightarrow> Inl AutomationNotFoundError
      | Some a \<Rightarrow> Inr (a_matching_state a))"

definition matching_state_of :: "uuid \<Rightarrow> ('x, matching_state) io" where
  "matching_state_of automation_id = read_session False (matching_state_query automation_id)"

definition deletion_started :: "uuid \<Rightarrow> ('x, bool) io" where
  "deletion_started automation_id =
     io_bind (matching_state_of automation_id) (\<lambda>s. io_return (s \<in> set DELETION_STATES))"

text \<open>Runs inside the caller's session, after its row lock.\<close>

definition lock_for_build_mutation :: "uuid \<Rightarrow> database \<Rightarrow> exn + automation option" where
  "lock_for_build_mutation automation_id d =
     (case find_automation d automation_id of
        None \<Rightarrow> Inl AutomationNotFoundError
      | Some a \<Rightarrow> if a_matching_state a \<in> set DELETION_STATES then Inr None else Inr (Some a))"

section \<open>The terminal write\<close>

text \<open>The keyword arguments a caller may set, as column assignments.\<close>

datatype run_value =
    SetState run_state
  | SetSuppressionReason suppression_reason
  | SetFailureClass failure_class
  | SetOutcomeStatus pystr
  | SetResult json
  | SetAttempts int
  | SetAutomationDigest pystr

fun set_value :: "run_value \<Rightarrow> automation_run \<Rightarrow> automation_run" where
  "set_value (SetState s) r = r\<lparr>r_state := s\<rparr>"
| "set_value (SetSuppressionReason s) r = r\<lparr>r_suppression_reason := Some s\<rparr>"
| "set_value (SetFailureClass c) r = r\<lparr>r_failure_class := Some c\<rparr>"
| "set_value (SetOutcomeStatus s) r = r\<lparr>r_outcome_status := Some s\<rparr>"
| "set_value (SetResult j) r = r\<lparr>r_result := Some j\<rparr>"
| "set_value (SetAttempts n) r = r\<lparr>r_attempts := Some n\<rparr>"
| "set_value (SetAutomationDigest s) r = r\<lparr>r_automation_digest := Some s\<rparr>"

definition run_open_at :: "uuid \<Rightarrow> run_state option \<Rightarrow> automation_run \<Rightarrow> bool" where
  "run_open_at run_id expected r \<longleftrightarrow> r_run_id r = run_id \<and> r_state r \<in> set OPEN_RUN_STATES
     \<and> (case expected of None \<Rightarrow> True | Some s \<Rightarrow> r_state r = s)"

definition complete_run_tx :: "uuid \<Rightarrow> run_state option \<Rightarrow> run_value list \<Rightarrow> bool tx" where
  [tx_defs]: "complete_run_tx run_id expected vals now d =
     Inr (rowcount (run_open_at run_id expected) (runs d) = 1,
          update_runs (run_open_at run_id expected)
            (\<lambda>r. fold set_value vals (r\<lparr>r_finished_at := Some now\<rparr>)) d)"

definition complete_run_if_open :: "uuid \<Rightarrow> run_state option \<Rightarrow> run_value list \<Rightarrow> ('x, bool) io" where
  "complete_run_if_open run_id expected vals = get_session False (complete_run_tx run_id expected vals)"

definition load_run_query :: "uuid \<Rightarrow> database \<Rightarrow> exn + automation_run" where
  "load_run_query run_id d =
     (case find_run d run_id of None \<Rightarrow> Inl RunNotFoundError | Some r \<Rightarrow> Inr r)"

definition load_run :: "uuid \<Rightarrow> ('x, automation_run) io" where
  "load_run run_id = read_session False (load_run_query run_id)"

section \<open>finalize\_terminated\_by\_deletion\<close>

definition deletion_values :: "run_state \<Rightarrow> run_value list" where
  "deletion_values expected =
     (if expected = SUBMITTED then [SetState FAILED, SetFailureClass TERMINATED_BY_DELETION]
      else [SetState SUPPRESSED, SetSuppressionReason SUPPRESSED_INACTIVE])"

primrec finalize_loop :: "uuid \<Rightarrow> nat \<Rightarrow> run_state \<Rightarrow> ('x, automation_run) io" where
  "finalize_loop run_id 0 expected = load_run run_id"
| "finalize_loop run_id (Suc n) expected =
     io_bind (complete_run_if_open run_id (Some expected) (deletion_values expected)) (\<lambda>changed.
     if changed then load_run run_id
     else io_bind (load_run run_id) (\<lambda>current.
       if r_state current \<notin> set OPEN_RUN_STATES then io_return current
       else finalize_loop run_id n (r_state current)))"

definition finalize_terminated_by_deletion :: "uuid \<Rightarrow> ('x, automation_run) io" where
  "finalize_terminated_by_deletion run_id =
     io_bind (load_run run_id) (\<lambda>run.
     if r_state run \<notin> set OPEN_RUN_STATES then io_return run
     else io_bind (matching_state_of (r_automation_id run)) (\<lambda>state.
       if state \<notin> set DELETION_STATES then io_raise (AutomationLifecycleConflictError state)
       else finalize_loop run_id 2 (r_state run)))"

section \<open>Lemmas\<close>

lemma set_values_run_id [simp]: "r_run_id (fold set_value vals r) = r_run_id r"
proof (induction vals arbitrary: r)
  case (Cons v vals)
  then show ?case by (cases v) simp_all
qed simp

text \<open>The attribution of a run the deletion killed, and of one that never started.\<close>

definition deletion_outcome :: "datetime \<Rightarrow> automation_run \<Rightarrow> automation_run" where
  "deletion_outcome now r =
     (if r_state r = SUBMITTED
      then r\<lparr>r_finished_at := Some now, r_state := FAILED, r_failure_class := Some TERMINATED_BY_DELETION\<rparr>
      else r\<lparr>r_finished_at := Some now, r_state := SUPPRESSED,
             r_suppression_reason := Some SUPPRESSED_INACTIVE\<rparr>)"

lemma find_complete_run:
  assumes "complete_run_tx run_id (Some s) (deletion_values s) now d = Inr (changed, d')"
  shows "find_run d' i = map_option (\<lambda>r. if r_run_id r = run_id \<and> r_state r = s \<and> s \<in> set OPEN_RUN_STATES
      then deletion_outcome now r else r) (find_run d i)"
  using assms
  by (auto simp: complete_run_tx_def rtab.get_upd run_open_at_def deletion_values_def deletion_outcome_def
      split: if_splits intro!: option.map_cong0)

lemma complete_run_changed:
  assumes "complete_run_tx run_id (Some s) vals now d = Inr (changed, d')"
    and "distinct (map r_run_id (runs d))" and "s \<in> set OPEN_RUN_STATES"
  shows "changed \<longleftrightarrow> (\<exists>r. find_run d run_id = Some r \<and> r_state r = s)"
proof -
  have "run_open_at run_id (Some s) = (\<lambda>r. r_run_id r = run_id \<and> r_state r = s)"
    using assms(3) by (auto simp: run_open_at_def)
  with assms(1) have "changed \<longleftrightarrow> rowcount (\<lambda>r. r_run_id r = run_id \<and> r_state r = s) (runs d) = 1"
    by (auto simp: complete_run_tx_def)
  with rtab.rowcount_get [OF assms(2), of run_id "\<lambda>r. r_state r = s"] show ?thesis
    by (auto split: option.splits)
qed

end
