(* ===== verification/Protocol.thy ===== *)
theory Protocol
  imports Lifecycle Builds Cascade Runs
begin

text \<open>
  The service as a state machine over its database. \<open>service_step\<close> has one rule per
  transaction of the code; concurrent requests interleave at that granularity, because each
  session is one transaction. \<open>db_ok\<close> is the invariant of the tables and \<open>db_progress\<close> what
  can never be undone; both are proved for every step by case analysis, and for every
  reachable database by rule induction. The last section shows, in the rely-guarantee logic of
  \<open>Runtime\<close>, that each operation only ever moves the database along these steps, for every
  interleaving, every answer of the external systems and every database fault.
\<close>

section \<open>The steps\<close>

definition claim_ok :: "build_claim \<Rightarrow> bool" where
  "claim_ok c \<longleftrightarrow> bc_previous_build_state c \<noteq> BUILDING \<and> bc_previous_building_sha c = None"

inductive service_step :: "database \<Rightarrow> database \<Rightarrow> bool" where
  step_create: "authoring_ok env data \<Longrightarrow>
    create_tx i t data actor sha deadline now d = Inr (a, d') \<Longrightarrow> service_step d d'"
| step_claim: "claim_build_tx t i data deadline now d = Inr (c, d') \<Longrightarrow> service_step d d'"
| step_release: "claim_ok c \<Longrightarrow> release_build_claim_tx c now d = Inr (u, d') \<Longrightarrow> service_step d d'"
| step_finish: "authoring_ok env data \<Longrightarrow>
    finish_edit_tx t i data actor c sha now d = Inr (a, d') \<Longrightarrow> service_step d d'"
| step_toggle: "(target, action) \<in> {(ACTIVE, ENABLE), (INACTIVE, DISABLE)} \<Longrightarrow>
    toggle_tx t i actor target action now d = Inr (a, d') \<Longrightarrow> service_step d d'"
| step_cut_over: "event_ok event \<Longrightarrow> e_status event = SUCCESS \<Longrightarrow>
    cut_over_tx event created now d = Inr (res, Some d') \<Longrightarrow> service_step d d'"
| step_failure: "record_failure_tx event now d = Inr (res, Some d') \<Longrightarrow> service_step d d'"
| step_begin_delete: "begin_delete_tx t i actor now d = Inr (adm, Some d') \<Longrightarrow> service_step d d'"
| step_checkpoint: "(n, ms) \<in> {(1, None), (2, None), (3, None), (4, None), (5, Some DELETED)} \<Longrightarrow>
    checkpoint_tx i n ms now d = Inr (won, d') \<Longrightarrow> service_step d d'"
| step_complete_run: "complete_run_tx run_id (Some s) (deletion_values s) now d = Inr (changed, d') \<Longrightarrow>
    service_step d d'"

abbreviation service_steps :: "database \<Rightarrow> database \<Rightarrow> bool" where
  "service_steps \<equiv> service_step\<^sup>*\<^sup>*"

section \<open>The invariant\<close>

definition config_ok :: "automation \<Rightarrow> bool" where
  "config_ok a \<longleftrightarrow> \<not> blank (a_namespace a) \<and> triggers_ok (a_triggers a)
     \<and> cooldown_ok (a_cooldown_seconds a) (a_cooldown_fields a)
     \<and> (\<exists>s. a_timeout_seconds a = Some s \<and> 0 < s \<and> s \<le> TIMEOUT_SECONDS_MAX)
     \<and> GRACE_SECONDS_MIN \<le> a_grace_seconds a \<and> a_grace_seconds a \<le> GRACE_SECONDS_MAX"

definition digest_ok :: "automation \<Rightarrow> bool" where
  "digest_ok a \<longleftrightarrow> (\<forall>s. a_active_digest a = Some s \<longrightarrow> is_digest_ref s)
     \<and> (a_matching_state a = ACTIVE \<longrightarrow> a_active_digest a \<noteq> None)"

definition build_ok :: "automation \<Rightarrow> bool" where
  "build_ok a \<longleftrightarrow>
     (if a_build_state a = BUILDING
      then a_build_lock_deadline a \<noteq> None \<and> a_matching_state a \<notin> set DELETION_STATES
      else a_building_sha a = None \<and> a_build_lock_deadline a = None)"

fun cascade_step_ok :: "matching_state \<Rightarrow> nat option \<Rightarrow> bool" where
  "cascade_step_ok DELETING s = (\<exists>n \<in> {1..4}. s = Some n)"
| "cascade_step_ok DELETED s = (s = Some 5)"
| "cascade_step_ok _ s = (s = None)"

definition deletion_ok :: "automation \<Rightarrow> bool" where
  "deletion_ok a \<longleftrightarrow> cascade_step_ok (a_matching_state a) (a_delete_cascade_step a)"

definition row_ok :: "pystr list \<Rightarrow> automation \<Rightarrow> bool" where
  "row_ok T a \<longleftrightarrow> a_tenant_id a \<in> set T \<and> a_script_path a = script_path_of (a_id a)
     \<and> config_ok a \<and> digest_ok a \<and> build_ok a \<and> deletion_ok a"

text \<open>A build in progress was requested by an audited create or edit of that commit.\<close>

definition requested :: "automation_revision list \<Rightarrow> automation \<Rightarrow> bool" where
  "requested rs a \<longleftrightarrow>
     (\<forall>sha. a_building_sha a = Some sha \<longrightarrow>
        (\<exists>r \<in> set rs. rv_automation_id r = a_id a \<and> rv_action r \<in> set REQUESTING_ACTIONS
           \<and> rv_git_sha r = Some sha))"

definition db_ok :: "database \<Rightarrow> bool" where
  "db_ok d \<longleftrightarrow> distinct (map a_id (automations d)) \<and> distinct (map r_run_id (runs d))
     \<and> (\<forall>a \<in> set (automations d). row_ok (tenants d) a \<and> requested (revisions d) a)"

lemmas row_ok_defs = row_ok_def config_ok_def digest_ok_def build_ok_def deletion_ok_def

lemma db_okD:
  assumes "db_ok d"
  shows "distinct (map a_id (automations d))" and "distinct (map r_run_id (runs d))"
    and "a \<in> set (automations d) \<Longrightarrow> row_ok (tenants d) a"
    and "a \<in> set (automations d) \<Longrightarrow> requested (revisions d) a"
  using assms by (auto simp: db_ok_def)

lemma db_ok_scoped:
  assumes "db_ok d" and "scoped_get t i d = Inr a"
  shows "row_ok (tenants d) a" and "requested (revisions d) a" and "find_automation d i = Some a"
  using db_okD [OF assms(1)] scoped_get_InrD [OF assms(2)] atab.get_of_row [of d a] by auto

lemma db_ok_load:
  assumes "db_ok d" and "load i d = Inr a"
  shows "row_ok (tenants d) a" and "requested (revisions d) a" and "find_automation d i = Some a"
    and "a_id a = i"
  using db_okD [OF assms(1)] load_InrD [OF assms(2)] atab.get_in_rows [of d i a] by auto

lemma requested_append: "requested rs a \<Longrightarrow> requested (rs @ rs') a"
  by (auto simp: requested_def)

text \<open>Writing back a row that is well formed, with an audit row: what every locked
  transaction does.\<close>

lemma db_ok_put_revision:
  assumes "db_ok d" and "row_ok (tenants d) a'" and "requested (revisions d @ [r]) a'"
  shows "db_ok (add_revision r (put_automation a' d))"
  unfolding db_ok_def
proof (intro conjI ballI)
  show "distinct (map a_id (automations (add_revision r (put_automation a' d))))"
    using db_okD(1) [OF assms(1)] by (simp add: table_simps)
  show "distinct (map r_run_id (runs (add_revision r (put_automation a' d))))"
    using db_okD(2) [OF assms(1)] by (simp add: table_simps)
  fix b
  assume "b \<in> set (automations (add_revision r (put_automation a' d)))"
  then have "b = a' \<or> b \<in> set (automations d)" by (auto simp: table_simps dest: set_put_automation)
  with db_okD(3,4) [OF assms(1)] assms(2,3)
  show "row_ok (tenants (add_revision r (put_automation a' d))) b"
    and "requested (revisions (add_revision r (put_automation a' d))) b"
    by (auto simp: table_simps intro: requested_append)
qed

lemma db_ok_update:
  assumes "db_ok d" and "\<And>a. a_id (f a) = a_id a"
    and "\<And>a. a \<in> set (automations d) \<Longrightarrow> p a \<Longrightarrow> row_ok (tenants d) (f a) \<and> requested (revisions d) (f a)"
  shows "db_ok (update_automations p f d)"
  using assms(1,3) atab.keys_upd [of f p d, OF assms(2)]
  by (auto simp: db_ok_def table_simps set_update_where)

lemma db_ok_put:
  assumes "db_ok d" and "row_ok (tenants d) a'" and "requested (revisions d) a'"
  shows "db_ok (put_automation a' d)"
  unfolding db_ok_def
proof (intro conjI ballI)
  show "distinct (map a_id (automations (put_automation a' d)))"
    using db_okD(1) [OF assms(1)] by (simp add: table_simps)
  show "distinct (map r_run_id (runs (put_automation a' d)))"
    using db_okD(2) [OF assms(1)] by (simp add: table_simps)
  fix b
  assume "b \<in> set (automations (put_automation a' d))"
  then have "b = a' \<or> b \<in> set (automations d)" by (auto dest: set_put_automation)
  with db_okD(3,4) [OF assms(1)] assms(2,3)
  show "row_ok (tenants (put_automation a' d)) b" and "requested (revisions (put_automation a' d)) b"
    by (auto simp: table_simps)
qed

section \<open>Every step keeps the invariant\<close>

lemma or_default_bounds:
  assumes "\<And>s. x = Some s \<Longrightarrow> lo \<le> s \<and> s \<le> hi" and "lo \<le> dflt" and "dflt \<le> hi"
  shows "lo \<le> or_default x dflt" and "or_default x dflt \<le> hi"
  using assms by (auto simp: or_default_def split: option.splits)

lemma authoring_ok_config:
  assumes "authoring_ok env data"
    and "a_namespace a = in_namespace data" and "a_triggers a = in_triggers data"
    and "a_cooldown_seconds a = in_cooldown_seconds data"
    and "a_cooldown_fields a = in_cooldown_fields data"
    and "a_timeout_seconds a = Some (or_default (in_timeout_seconds data) TIMEOUT_SECONDS_DEFAULT)"
    and "a_grace_seconds a = or_default (in_grace_seconds data) GRACE_SECONDS_DEFAULT"
  shows "config_ok a"
proof -
  have "1 \<le> or_default (in_timeout_seconds data) TIMEOUT_SECONDS_DEFAULT
      \<and> or_default (in_timeout_seconds data) TIMEOUT_SECONDS_DEFAULT \<le> TIMEOUT_SECONDS_MAX"
    by (intro conjI or_default_bounds [where lo = 1 and hi = TIMEOUT_SECONDS_MAX])
      (use assms(1) in \<open>auto simp: authoring_ok_def limits_defs\<close>)
  moreover have "GRACE_SECONDS_MIN \<le> or_default (in_grace_seconds data) GRACE_SECONDS_DEFAULT
      \<and> or_default (in_grace_seconds data) GRACE_SECONDS_DEFAULT \<le> GRACE_SECONDS_MAX"
    by (intro conjI or_default_bounds [where lo = GRACE_SECONDS_MIN and hi = GRACE_SECONDS_MAX])
      (use assms(1) in \<open>auto simp: authoring_ok_def limits_defs\<close>)
  ultimately show ?thesis using assms by (auto simp: config_ok_def authoring_ok_def)
qed

lemma create_ok:
  assumes "db_ok d" and "authoring_ok env data"
    and "create_tx i t data actor sha deadline now d = Inr (a, d')"
  shows "db_ok d'"
  using assms(3)
proof (rule create_tx_InrD)
  fix d1
  assume a: "a = new_automation i t data actor sha deadline now"
    and ins: "insert_automation a d = Inr d1"
    and d': "d' = add_revision \<lparr>rv_automation_id = i, rv_action = CREATE, rv_git_sha = Some sha,
                rv_resulting_digest = None, rv_actor = actor, rv_created_at = now\<rparr> d1"
  note ins = insert_automation_InrD [OF ins]
  have "config_ok a" by (rule authoring_ok_config [OF assms(2)]) (simp_all add: a new_automation_def)
  with ins(3) have "row_ok (tenants d) a" by (simp add: row_ok_defs a new_automation_def)
  moreover have "requested (revisions d') a"
    by (auto simp: requested_def d' a new_automation_def table_simps REQUESTING_ACTIONS_def)
  ultimately show ?thesis
    using db_okD [OF assms(1)] ins
    by (auto simp: db_ok_def d' table_simps intro: requested_append)
qed

lemma claim_ok_step:
  assumes "db_ok d" and "claim_build_tx t i data deadline now d = Inr (c, d')"
  shows "db_ok d'" and "claim_ok c"
proof -
  obtain a where a: "scoped_get t i d = Inr a" "a_matching_state a \<notin> set DELETION_STATES"
      "a_build_state a \<noteq> BUILDING"
    and c: "bc_previous_build_state c = a_build_state a" "bc_previous_building_sha c = a_building_sha a"
    and d': "d' = put_automation (a\<lparr>a_build_state := BUILDING, a_build_lock_deadline := Some deadline,
                                a_building_sha := None\<rparr>) d"
    using assms(2) by (rule claim_build_tx_InrD) auto
  note row = db_ok_scoped [OF assms(1) a(1)]
  show "db_ok d'" unfolding d'
    by (rule db_ok_put [OF assms(1)]) (use a row in \<open>auto simp: row_ok_defs requested_def\<close>)
  show "claim_ok c" using row(1) a c by (auto simp: claim_ok_def row_ok_defs)
qed

lemma release_ok:
  assumes "db_ok d" and "claim_ok c" and "release_build_claim_tx c now d = Inr (u, d')"
  shows "db_ok d'"
proof -
  from assms(3) have d': "d' = update_automations
       (\<lambda>r. a_id r = bc_automation_id c \<and> a_build_state r = BUILDING
          \<and> a_build_lock_deadline r = Some (bc_deadline c))
       (\<lambda>r. r\<lparr>a_build_state := bc_previous_build_state c,
              a_building_sha := bc_previous_building_sha c, a_build_lock_deadline := None\<rparr>) d"
    by (simp add: release_build_claim_tx_def)
  show ?thesis unfolding d'
  proof (rule db_ok_update [OF assms(1)])
    fix r
    assume "r \<in> set (automations d)"
    from db_okD(3,4) [OF assms(1) this] assms(2)
    show "row_ok (tenants d) (r\<lparr>a_build_state := bc_previous_build_state c,
            a_building_sha := bc_previous_building_sha c, a_build_lock_deadline := None\<rparr>)
        \<and> requested (revisions d) (r\<lparr>a_build_state := bc_previous_build_state c,
            a_building_sha := bc_previous_building_sha c, a_build_lock_deadline := None\<rparr>)"
      by (auto simp: claim_ok_def row_ok_defs requested_def split: if_splits)
  qed simp
qed

lemma finish_ok:
  assumes "db_ok d" and "authoring_ok env data"
    and "finish_edit_tx t i data actor c sha now d = Inr (a', d')"
  shows "db_ok d'"
  using assms(3)
proof (rule finish_edit_tx_InrD)
  fix a
  assume a: "scoped_get t i d = Inr a" "a_build_state a = BUILDING"
    and a': "a' = a\<lparr>a_name := in_name data, a_namespace := in_namespace data,
                a_triggers := in_triggers data, a_secret_name := in_secret_name data,
                a_cooldown_seconds := in_cooldown_seconds data,
                a_cooldown_fields := in_cooldown_fields data,
                a_timeout_seconds := Some (or_default (in_timeout_seconds data) TIMEOUT_SECONDS_DEFAULT),
                a_grace_seconds := or_default (in_grace_seconds data) GRACE_SECONDS_DEFAULT,
                a_logstash_url := in_logstash_url data, a_building_sha := Some sha,
                a_updated_by := actor, a_updated_at := now\<rparr>"
    and d': "d' = add_revision
           \<lparr>rv_automation_id = i, rv_action = EDIT, rv_git_sha = Some sha,
            rv_resulting_digest = None, rv_actor = actor, rv_created_at = now\<rparr>
           (put_automation a' d)"
  note row = db_ok_scoped [OF assms(1) a(1)]
  have "config_ok a'" by (rule authoring_ok_config [OF assms(2)]) (simp_all add: a')
  moreover have "row_ok (tenants d) a' \<longleftrightarrow> config_ok a' \<and> row_ok (tenants d) a"
    using row(1) a(2) calculation by (auto simp: a' row_ok_def digest_ok_def build_ok_def deletion_ok_def)
  ultimately have "row_ok (tenants d) a'" using row(1) by simp
  then show ?thesis unfolding d'
    by (rule db_ok_put_revision [OF assms(1)])
      (use scoped_get_InrD(1) [OF a(1)] in \<open>auto simp: requested_def a' REQUESTING_ACTIONS_def\<close>)
qed

lemma toggle_ok:
  assumes "db_ok d" and "(target, action) \<in> {(ACTIVE, ENABLE), (INACTIVE, DISABLE)}"
    and "toggle_tx t i actor target action now d = Inr (a', d')"
  shows "db_ok d'"
  using assms(3)
proof (rule toggle_tx_InrD)
  fix a
  assume a: "scoped_get t i d = Inr a" "a_matching_state a \<notin> set DELETION_STATES"
      "target = ACTIVE \<Longrightarrow> \<exists>s. a_active_digest a = Some s \<and> \<not> blank s"
    and a': "a' = a\<lparr>a_matching_state := target, a_index_generation := a_index_generation a + 1,
                a_updated_by := actor, a_updated_at := now\<rparr>"
    and d': "d' = add_revision
           \<lparr>rv_automation_id = i, rv_action = action, rv_git_sha = None,
            rv_resulting_digest = a_active_digest a, rv_actor = actor, rv_created_at = now\<rparr>
           (put_automation a' d)"
  note row = db_ok_scoped [OF assms(1) a(1)]
  have "row_ok (tenants d) a'" using row(1) a assms(2)
    by (cases "a_matching_state a") (auto simp: a' row_ok_defs split: if_splits)
  then show ?thesis unfolding d'
    by (rule db_ok_put_revision [OF assms(1)]) (use row(2) in \<open>auto simp: requested_def a'\<close>)
qed

lemma begin_delete_tx_SomeD:
  assumes "begin_delete_tx t i actor now d = Inr (adm, Some d')"
  obtains a a' where "scoped_get t i d = Inr a" and "a_matching_state a \<notin> set DELETION_STATES"
    and "a_build_state a \<noteq> BUILDING"
    and "a' = a\<lparr>a_matching_state := DELETING, a_delete_cascade_step := Some 1,
                a_index_generation := a_index_generation a + 1,
                a_updated_by := actor, a_updated_at := now\<rparr>"
    and "adm = \<lparr>da_automation = a', da_started = True\<rparr>"
    and "d' = add_revision
           \<lparr>rv_automation_id = i, rv_action = DELETE, rv_git_sha = None,
            rv_resulting_digest = a_active_digest a, rv_actor = actor, rv_created_at = now\<rparr>
           (put_automation a' d)"
proof -
  from assms obtain a where a: "scoped_get t i d = Inr a"
    by (auto simp: begin_delete_tx_def split: sum.splits)
  with assms scoped_get_InrD(1) [OF a] show ?thesis
    by (intro that [OF a]) (auto simp: begin_delete_tx_def Let_def step_defs split: if_splits)
qed

lemma begin_delete_ok:
  assumes "db_ok d" and "begin_delete_tx t i actor now d = Inr (adm, Some d')"
  shows "db_ok d'"
  using assms(2)
proof (rule begin_delete_tx_SomeD)
  fix a a'
  assume a: "scoped_get t i d = Inr a" "a_build_state a \<noteq> BUILDING"
    and a': "a' = a\<lparr>a_matching_state := DELETING, a_delete_cascade_step := Some 1,
                a_index_generation := a_index_generation a + 1,
                a_updated_by := actor, a_updated_at := now\<rparr>"
    and d': "d' = add_revision
           \<lparr>rv_automation_id = i, rv_action = DELETE, rv_git_sha = None,
            rv_resulting_digest = a_active_digest a, rv_actor = actor, rv_created_at = now\<rparr>
           (put_automation a' d)"
  note row = db_ok_scoped [OF assms(1) a(1)]
  have "row_ok (tenants d) a'" using row(1) a by (auto simp: a' row_ok_defs)
  then show ?thesis unfolding d'
    by (rule db_ok_put_revision [OF assms(1)]) (use row(2) in \<open>auto simp: requested_def a'\<close>)
qed

lemma failure_ok:
  assumes "db_ok d" and "record_failure_tx event now d = Inr (res, Some d')"
  shows "db_ok d'"
  using assms(2)
proof (rule record_failure_tx_SomeD)
  fix a
  assume a: "load (e_automation_id event) d = Inr a" "admission a (e_commit_sha event) = None"
    and d': "d' = add_revision (build_revision event REV_BUILD_FAILED None now)
           (put_automation (a\<lparr>a_build_state := BUILD_FAILED, a_building_sha := None,
              a_build_lock_deadline := None, a_updated_at := now\<rparr>) d)"
  note row = db_ok_load [OF assms(1) a(1)]
  show ?thesis unfolding d'
    by (rule db_ok_put_revision [OF assms(1)])
      (use row(1) in \<open>auto simp: requested_def row_ok_defs\<close>)
qed

lemma requested_update_revisions:
  "requested rs a \<Longrightarrow> requested (update_where p (\<lambda>r. r\<lparr>rv_resulting_digest := x\<rparr>) rs) a"
  unfolding requested_def
proof (intro allI impI)
  fix sha
  assume "\<forall>sha. a_building_sha a = Some sha \<longrightarrow>
      (\<exists>r\<in>set rs. rv_automation_id r = a_id a \<and> rv_action r \<in> set REQUESTING_ACTIONS \<and> rv_git_sha r = Some sha)"
    and "a_building_sha a = Some sha"
  then obtain r where r: "r \<in> set rs" "rv_automation_id r = a_id a"
      "rv_action r \<in> set REQUESTING_ACTIONS" "rv_git_sha r = Some sha" by auto
  let ?r = "if p r then r\<lparr>rv_resulting_digest := x\<rparr> else r"
  have "?r \<in> set (update_where p (\<lambda>r. r\<lparr>rv_resulting_digest := x\<rparr>) rs)"
    using r(1) by (simp add: set_update_where)
  moreover have "rv_automation_id ?r = a_id a \<and> rv_action ?r \<in> set REQUESTING_ACTIONS \<and> rv_git_sha ?r = Some sha"
    using r(2-) by simp
  ultimately show "\<exists>r\<in>set (update_where p (\<lambda>r. r\<lparr>rv_resulting_digest := x\<rparr>) rs).
      rv_automation_id r = a_id a \<and> rv_action r \<in> set REQUESTING_ACTIONS \<and> rv_git_sha r = Some sha"
    by blast
qed

lemma db_ok_update_revisions:
  "db_ok d \<Longrightarrow> db_ok (update_revisions p (\<lambda>r. r\<lparr>rv_resulting_digest := x\<rparr>) d)"
  by (auto simp: db_ok_def table_simps intro: requested_update_revisions)

lemma db_ok_add_revision: "db_ok d \<Longrightarrow> db_ok (add_revision r d)"
  by (auto simp: db_ok_def table_simps intro: requested_append)

lemma cut_over_ok:
  assumes "db_ok d" and "event_ok event" and "e_status event = SUCCESS"
    and "cut_over_tx event created now d = Inr (res, Some d')"
  shows "db_ok d'"
  using assms(4)
proof (rule cut_over_tx_SomeD)
  fix a
  assume a: "load (e_automation_id event) d = Inr a"
    and adm: "admitted_at_commit d a (e_commit_sha event)"
    and d': "d' = cut_over_db d a event created now"
  note row = db_ok_load [OF assms(1) a]
  obtain img where img: "e_image event = Some img" "is_digest_ref img"
    using assms(2,3) by (auto simp: event_ok_def)
  have "row_ok (tenants d) (cut_over_row a event created now)"
    using row(1) img by (auto simp: row_ok_def config_ok_def digest_ok_def build_ok_def deletion_ok_def)
  then have "db_ok (put_automation (cut_over_row a event created now) d)"
    by (rule db_ok_put [OF assms(1)]) (simp add: requested_def)
  then show ?thesis unfolding d' cut_over_db_def
    by (intro db_ok_add_revision db_ok_update_revisions)
qed

lemma checkpoint_ok:
  assumes "db_ok d" and "(n, ms) \<in> {(1, None), (2, None), (3, None), (4, None), (5, Some DELETED)}"
    and "checkpoint_tx i n ms now d = Inr (won, d')"
  shows "db_ok d'"
proof -
  from assms(3) have d': "d' = update_automations (at_checkpoint i n) (advance n ms now) d"
    by (simp add: checkpoint_tx_def)
  show ?thesis unfolding d'
  proof (rule db_ok_update [OF assms(1)])
    fix a
    assume "a \<in> set (automations d)" and "at_checkpoint i n a"
    with db_okD(3,4) [OF assms(1), of a] assms(2)
    show "row_ok (tenants d) (advance n ms now a) \<and> requested (revisions d) (advance n ms now a)"
      by (auto simp: row_ok_defs requested_def at_checkpoint_def advance_def split: if_splits)
  qed (simp add: advance_def)
qed

lemma complete_run_ok:
  assumes "db_ok d" and "complete_run_tx run_id s vals now d = Inr (changed, d')"
  shows "db_ok d'"
proof -
  from assms(2) have d': "d' = update_runs (run_open_at run_id s)
      (\<lambda>r. fold set_value vals (r\<lparr>r_finished_at := Some now\<rparr>)) d"
    by (simp add: complete_run_tx_def)
  have "map r_run_id (runs d') = map r_run_id (runs d)" unfolding d' by (rule rtab.keys_upd) simp
  with assms(1) show ?thesis by (simp add: db_ok_def d' table_simps)
qed

lemma service_step_ok:
  assumes "service_step d d'" and "db_ok d"
  shows "db_ok d'"
  using assms
proof cases
  case step_create
  with assms(2) show ?thesis by (blast intro: create_ok)
next
  case step_claim
  with assms(2) show ?thesis by (blast intro: claim_ok_step(1))
next
  case step_release
  with assms(2) show ?thesis by (blast intro: release_ok)
next
  case step_finish
  with assms(2) show ?thesis by (blast intro: finish_ok)
next
  case step_toggle
  from toggle_ok [OF assms(2) this] show ?thesis .
next
  case step_cut_over
  with assms(2) show ?thesis by (blast intro: cut_over_ok)
next
  case step_failure
  with assms(2) show ?thesis by (blast intro: failure_ok)
next
  case step_begin_delete
  with assms(2) show ?thesis by (blast intro: begin_delete_ok)
next
  case step_checkpoint
  from checkpoint_ok [OF assms(2) this] show ?thesis .
next
  case step_complete_run
  with assms(2) show ?thesis by (blast intro: complete_run_ok)
qed

lemma service_steps_ok: "service_steps d d' \<Longrightarrow> db_ok d \<Longrightarrow> db_ok d'"
  by (induction rule: rtranclp_induct) (auto intro: service_step_ok)

section \<open>What no step undoes\<close>

definition cascade_position :: "automation \<Rightarrow> nat" where
  "cascade_position a = (case a_delete_cascade_step a of None \<Rightarrow> 0 | Some n \<Rightarrow> n)"

text \<open>The row without the columns the cascade writes.\<close>

definition cascade_blind :: "automation \<Rightarrow> automation" where
  "cascade_blind a = a\<lparr>a_matching_state := DELETED, a_delete_cascade_step := None, a_updated_at := 0\<rparr>"

text \<open>A row keeps its identity and its creation; its generation never falls; once deletion has
  begun only the cascade's own columns move, forward; a deleted row never changes.\<close>

definition row_progress :: "automation \<Rightarrow> automation \<Rightarrow> bool" where
  "row_progress a a' \<longleftrightarrow>
     a_id a' = a_id a \<and> a_tenant_id a' = a_tenant_id a \<and> a_script_path a' = a_script_path a
     \<and> a_created_by a' = a_created_by a \<and> a_created_at a' = a_created_at a
     \<and> a_index_generation a \<le> a_index_generation a' \<and> cascade_position a \<le> cascade_position a'
     \<and> (a_matching_state a \<in> set DELETION_STATES \<longrightarrow>
          a_matching_state a' \<in> set DELETION_STATES \<and> cascade_blind a' = cascade_blind a)
     \<and> (a_matching_state a = DELETED \<longrightarrow> a' = a)"

definition rows_progress :: "database \<Rightarrow> database \<Rightarrow> bool" where
  "rows_progress d d' \<longleftrightarrow>
     (\<forall>i a. find_automation d i = Some a \<longrightarrow>
        (\<exists>a'. find_automation d' i = Some a' \<and> row_progress a a'))"

text \<open>The audit trail is append-only, apart from the digest a requesting revision learns.\<close>

definition audit_core :: "automation_revision \<Rightarrow> automation_revision" where
  "audit_core r = r\<lparr>rv_resulting_digest := None\<rparr>"

definition audit_progress :: "database \<Rightarrow> database \<Rightarrow> bool" where
  "audit_progress d d' \<longleftrightarrow>
     (\<exists>rs. map audit_core (revisions d') = map audit_core (revisions d) @ rs)"

definition runs_progress :: "database \<Rightarrow> database \<Rightarrow> bool" where
  "runs_progress d d' \<longleftrightarrow>
     (\<forall>i r. find_run d i = Some r \<longrightarrow>
        (\<exists>r'. find_run d' i = Some r' \<and> (r_state r \<notin> set OPEN_RUN_STATES \<longrightarrow> r' = r)))"

definition db_progress :: "database \<Rightarrow> database \<Rightarrow> bool" where
  "db_progress d d' \<longleftrightarrow> rows_progress d d' \<and> audit_progress d d' \<and> runs_progress d d'"

lemma row_progress_refl [simp]: "row_progress a a"
  by (simp add: row_progress_def)

lemma row_progress_trans: "row_progress a b \<Longrightarrow> row_progress b c \<Longrightarrow> row_progress a c"
  unfolding row_progress_def by (elim conjE, intro conjI impI) auto

lemma db_progress_refl: "db_progress d d"
  by (auto simp: db_progress_def rows_progress_def audit_progress_def runs_progress_def)

lemma db_progress_trans:
  assumes "db_progress d d'" and "db_progress d' d''"
  shows "db_progress d d''"
proof -
  have "rows_progress d d''"
    using assms unfolding db_progress_def rows_progress_def by (blast intro: row_progress_trans)
  moreover have "audit_progress d d''"
    using assms by (auto simp: db_progress_def audit_progress_def)
  moreover have "runs_progress d d''"
    unfolding runs_progress_def
  proof (intro allI impI)
    fix i r
    assume "find_run d i = Some r"
    then obtain r1 where r1: "find_run d' i = Some r1" "r_state r \<notin> set OPEN_RUN_STATES \<longrightarrow> r1 = r"
      using assms(1) unfolding db_progress_def runs_progress_def by blast
    obtain r2 where "find_run d'' i = Some r2" "r_state r1 \<notin> set OPEN_RUN_STATES \<longrightarrow> r2 = r1"
      using assms(2) r1(1) unfolding db_progress_def runs_progress_def by blast
    with r1 show "\<exists>r'. find_run d'' i = Some r' \<and> (r_state r \<notin> set OPEN_RUN_STATES \<longrightarrow> r' = r)" by auto
  qed
  ultimately show ?thesis by (simp add: db_progress_def)
qed

lemma rows_progress_put:
  assumes "find_automation d (a_id a') = Some a" and "row_progress a a'"
  shows "rows_progress d (put_automation a' d)"
  using assms by (auto simp: rows_progress_def table_simps)

lemma rows_progress_update:
  assumes "\<And>a. a_id (f a) = a_id a"
    and "\<And>a. a \<in> set (automations d) \<Longrightarrow> p a \<Longrightarrow> row_progress a (f a)"
  shows "rows_progress d (update_automations p f d)"
  using assms by (auto simp: rows_progress_def atab.get_upd dest: atab.get_in_rows)

lemma rows_progress_revisions:
  "rows_progress d (add_revision r d') \<longleftrightarrow> rows_progress d d'"
  "rows_progress d (update_revisions p f d') \<longleftrightarrow> rows_progress d d'"
  by (simp_all add: rows_progress_def table_simps)

lemma runs_progress_same: "runs d' = runs d \<Longrightarrow> runs_progress d d'"
  by (auto simp: runs_progress_def find_run_def)

lemma audit_progress_same: "revisions d' = revisions d \<Longrightarrow> audit_progress d d'"
  by (auto simp: audit_progress_def)

lemma audit_progress_append: "revisions d' = revisions d @ rs \<Longrightarrow> audit_progress d d'"
  by (auto simp: audit_progress_def)

lemma db_progress_locked:
  assumes "find_automation d (a_id a') = Some a" and "row_progress a a'"
  shows "db_progress d (put_automation a' d)" and "db_progress d (add_revision r (put_automation a' d))"
  using assms rows_progress_put [OF assms]
  by (auto simp: db_progress_def rows_progress_revisions table_simps
      intro: runs_progress_same audit_progress_same audit_progress_append)

lemma create_progress:
  assumes "create_tx i t data actor sha deadline now d = Inr (a, d')"
  shows "db_progress d d'"
  using assms
proof (rule create_tx_InrD)
  fix d1
  assume ins: "insert_automation a d = Inr d1"
    and d': "d' = add_revision \<lparr>rv_automation_id = i, rv_action = CREATE, rv_git_sha = Some sha,
                rv_resulting_digest = None, rv_actor = actor, rv_created_at = now\<rparr> d1"
  have "find_automation d (a_id a) = None"
    using insert_automation_InrD(2) [OF ins] by (simp add: atab.get_None_iff)
  then have "rows_progress d d'"
    by (auto simp: rows_progress_def d' table_simps find_insert_automation [OF ins])
  moreover have "runs d' = runs d" "revisions d' = revisions d @ [\<lparr>rv_automation_id = i, rv_action = CREATE,
      rv_git_sha = Some sha, rv_resulting_digest = None, rv_actor = actor, rv_created_at = now\<rparr>]"
    by (simp_all add: d' table_simps insert_automation_InrD(1) [OF ins])
  ultimately show ?thesis
    by (simp add: db_progress_def runs_progress_same audit_progress_append)
qed

lemma claim_progress:
  assumes "db_ok d" and "claim_build_tx t i data deadline now d = Inr (c, d')"
  shows "db_progress d d'"
  using assms(2)
proof (rule claim_build_tx_InrD)
  fix a
  assume a: "scoped_get t i d = Inr a" "a_matching_state a \<notin> set DELETION_STATES"
    and d': "d' = put_automation (a\<lparr>a_build_state := BUILDING, a_build_lock_deadline := Some deadline,
                                a_building_sha := None\<rparr>) d"
  show ?thesis unfolding d'
    by (rule db_progress_locked(1) [where a = a])
      (use a db_ok_scoped(3) [OF assms(1) a(1)] scoped_get_InrD(1) [OF a(1)]
        in \<open>auto simp: row_progress_def cascade_position_def\<close>)
qed

lemma release_progress:
  assumes "db_ok d" and "release_build_claim_tx c now d = Inr (u, d')"
  shows "db_progress d d'"
proof -
  from assms(2) have d': "d' = update_automations
       (\<lambda>r. a_id r = bc_automation_id c \<and> a_build_state r = BUILDING
          \<and> a_build_lock_deadline r = Some (bc_deadline c))
       (\<lambda>r. r\<lparr>a_build_state := bc_previous_build_state c,
              a_building_sha := bc_previous_building_sha c, a_build_lock_deadline := None\<rparr>) d"
    by (simp add: release_build_claim_tx_def)
  have "a_matching_state a \<notin> set DELETION_STATES"
    if "a \<in> set (automations d)" and "a_build_state a = BUILDING" for a
    using db_okD(3) [OF assms(1) that(1)] that(2) by (auto simp: row_ok_def build_ok_def)
  then have "rows_progress d d'" unfolding d'
    by (intro rows_progress_update) (auto simp: row_progress_def cascade_position_def)
  then show ?thesis
    by (simp add: db_progress_def runs_progress_same audit_progress_same d' table_simps)
qed

lemma finish_progress:
  assumes "db_ok d" and "finish_edit_tx t i data actor c sha now d = Inr (a', d')"
  shows "db_progress d d'"
  using assms(2)
proof (rule finish_edit_tx_InrD)
  fix a
  assume a: "scoped_get t i d = Inr a" "a_build_state a = BUILDING"
    and a': "a' = a\<lparr>a_name := in_name data, a_namespace := in_namespace data,
                a_triggers := in_triggers data, a_secret_name := in_secret_name data,
                a_cooldown_seconds := in_cooldown_seconds data,
                a_cooldown_fields := in_cooldown_fields data,
                a_timeout_seconds := Some (or_default (in_timeout_seconds data) TIMEOUT_SECONDS_DEFAULT),
                a_grace_seconds := or_default (in_grace_seconds data) GRACE_SECONDS_DEFAULT,
                a_logstash_url := in_logstash_url data, a_building_sha := Some sha,
                a_updated_by := actor, a_updated_at := now\<rparr>"
    and d': "d' = add_revision
           \<lparr>rv_automation_id = i, rv_action = EDIT, rv_git_sha = Some sha,
            rv_resulting_digest = None, rv_actor = actor, rv_created_at = now\<rparr>
           (put_automation a' d)"
  have "a_matching_state a \<notin> set DELETION_STATES"
    using db_ok_scoped(1) [OF assms(1) a(1)] a(2) by (auto simp: row_ok_def build_ok_def)
  then have "row_progress a a'" by (auto simp: row_progress_def cascade_position_def a')
  moreover have "find_automation d (a_id a') = Some a"
    using db_ok_scoped(3) [OF assms(1) a(1)] scoped_get_InrD(1) [OF a(1)] by (simp add: a')
  ultimately show ?thesis unfolding d' by (intro db_progress_locked(2))
qed

lemma toggle_progress:
  assumes "db_ok d" and "toggle_tx t i actor target action now d = Inr (a', d')"
  shows "db_progress d d'"
  using assms(2)
proof (rule toggle_tx_InrD)
  fix a
  assume a: "scoped_get t i d = Inr a" "a_matching_state a \<notin> set DELETION_STATES"
    and a': "a' = a\<lparr>a_matching_state := target, a_index_generation := a_index_generation a + 1,
                a_updated_by := actor, a_updated_at := now\<rparr>"
    and d': "d' = add_revision
           \<lparr>rv_automation_id = i, rv_action = action, rv_git_sha = None,
            rv_resulting_digest = a_active_digest a, rv_actor = actor, rv_created_at = now\<rparr>
           (put_automation a' d)"
  have "row_progress a a'" using a(2) by (auto simp: row_progress_def cascade_position_def a')
  moreover have "find_automation d (a_id a') = Some a"
    using db_ok_scoped(3) [OF assms(1) a(1)] scoped_get_InrD(1) [OF a(1)] by (simp add: a')
  ultimately show ?thesis unfolding d' by (intro db_progress_locked(2))
qed

lemma begin_delete_progress:
  assumes "db_ok d" and "begin_delete_tx t i actor now d = Inr (adm, Some d')"
  shows "db_progress d d'"
  using assms(2)
proof (rule begin_delete_tx_SomeD)
  fix a a'
  assume a: "scoped_get t i d = Inr a" "a_matching_state a \<notin> set DELETION_STATES"
    and a': "a' = a\<lparr>a_matching_state := DELETING, a_delete_cascade_step := Some 1,
                a_index_generation := a_index_generation a + 1,
                a_updated_by := actor, a_updated_at := now\<rparr>"
    and d': "d' = add_revision
           \<lparr>rv_automation_id = i, rv_action = DELETE, rv_git_sha = None,
            rv_resulting_digest = a_active_digest a, rv_actor = actor, rv_created_at = now\<rparr>
           (put_automation a' d)"
  have "a_delete_cascade_step a = None" using db_ok_scoped(1) [OF assms(1) a(1)] a(2)
    by (cases "a_matching_state a") (auto simp: row_ok_def deletion_ok_def)
  then have "row_progress a a'" using a(2) by (auto simp: row_progress_def cascade_position_def a')
  moreover have "find_automation d (a_id a') = Some a"
    using db_ok_scoped(3) [OF assms(1) a(1)] scoped_get_InrD(1) [OF a(1)] by (simp add: a')
  ultimately show ?thesis unfolding d' by (intro db_progress_locked(2))
qed

lemma failure_progress:
  assumes "db_ok d" and "record_failure_tx event now d = Inr (res, Some d')"
  shows "db_progress d d'"
  using assms(2)
proof (rule record_failure_tx_SomeD)
  fix a
  assume a: "load (e_automation_id event) d = Inr a" "admission a (e_commit_sha event) = None"
    and d': "d' = add_revision (build_revision event REV_BUILD_FAILED None now)
           (put_automation (a\<lparr>a_build_state := BUILD_FAILED, a_building_sha := None,
              a_build_lock_deadline := None, a_updated_at := now\<rparr>) d)"
  show ?thesis unfolding d'
    by (rule db_progress_locked(2) [where a = a])
      (use a(2) db_ok_load(3,4) [OF assms(1) a(1)]
        in \<open>auto simp: row_progress_def cascade_position_def admission_None_iff\<close>)
qed

lemma cut_over_progress:
  assumes "db_ok d" and "cut_over_tx event created now d = Inr (res, Some d')"
  shows "db_progress d d'"
  using assms(2)
proof (rule cut_over_tx_SomeD)
  fix a
  assume a: "load (e_automation_id event) d = Inr a"
    and adm: "admitted_at_commit d a (e_commit_sha event)"
    and d': "d' = cut_over_db d a event created now"
  have "rows_progress d (put_automation (cut_over_row a event created now) d)"
    by (rule rows_progress_put [where a = a])
      (use adm db_ok_load(3,4) [OF assms(1) a]
        in \<open>auto simp: row_progress_def cascade_position_def admitted_at_commit_def\<close>)
  then have "rows_progress d d'" by (simp add: d' cut_over_db_def rows_progress_revisions)
  moreover have "audit_progress d d'"
    by (auto simp: audit_progress_def d' cut_over_db_def table_simps update_where_def audit_core_def)
  moreover have "runs d' = runs d" by (simp add: d' cut_over_db_def table_simps)
  ultimately show ?thesis by (simp add: db_progress_def runs_progress_same)
qed

lemma checkpoint_progress:
  assumes "(n, ms) \<in> {(1, None), (2, None), (3, None), (4, None), (5, Some DELETED)}"
    and "checkpoint_tx i n ms now d = Inr (won, d')"
  shows "db_progress d d'"
proof -
  from assms(2) have d': "d' = update_automations (at_checkpoint i n) (advance n ms now) d"
    by (simp add: checkpoint_tx_def)
  have "rows_progress d d'" unfolding d'
    by (rule rows_progress_update)
      (use assms(1) in \<open>auto simp: row_progress_def cascade_position_def cascade_blind_def at_checkpoint_def advance_def
        split: if_splits\<close>)
  then show ?thesis
    by (simp add: db_progress_def runs_progress_same audit_progress_same d' table_simps)
qed

lemma complete_run_progress:
  assumes "complete_run_tx run_id s vals now d = Inr (changed, d')"
  shows "db_progress d d'"
proof -
  from assms have d': "d' = update_runs (run_open_at run_id s)
      (\<lambda>r. fold set_value vals (r\<lparr>r_finished_at := Some now\<rparr>)) d"
    by (simp add: complete_run_tx_def)
  have "runs_progress d d'"
    unfolding d' runs_progress_def
    by (auto simp: rtab.get_upd run_open_at_def)
  moreover have "rows_progress d d'" by (auto simp: rows_progress_def d' table_simps)
  ultimately show ?thesis
    by (simp add: db_progress_def audit_progress_same d' table_simps)
qed

lemma service_step_progress:
  assumes "service_step d d'" and "db_ok d"
  shows "db_progress d d'"
  using assms(1)
proof cases
  case step_create
  then show ?thesis by (blast intro: create_progress)
next
  case step_claim
  with assms(2) show ?thesis by (blast intro: claim_progress)
next
  case step_release
  with assms(2) show ?thesis by (blast intro: release_progress)
next
  case step_finish
  with assms(2) show ?thesis by (blast intro: finish_progress)
next
  case step_toggle
  with assms(2) show ?thesis by (blast intro: toggle_progress)
next
  case step_cut_over
  with assms(2) show ?thesis by (blast intro: cut_over_progress)
next
  case step_failure
  with assms(2) show ?thesis by (blast intro: failure_progress)
next
  case step_begin_delete
  with assms(2) show ?thesis by (blast intro: begin_delete_progress)
next
  case step_checkpoint
  from checkpoint_progress [OF this] show ?thesis .
next
  case step_complete_run
  then show ?thesis by (blast intro: complete_run_progress)
qed

lemma service_steps_progress:
  assumes "service_steps d d'" and "db_ok d"
  shows "db_progress d d'"
  using assms(1)
proof (induction rule: rtranclp_induct)
  case base
  show ?case by (rule db_progress_refl)
next
  case (step d1 d2)
  from service_step_progress [OF step.hyps(2) service_steps_ok [OF step.hyps(1) assms(2)]] step.IH
  show ?case by (rule db_progress_trans [rotated])
qed

end
