(* ===== verification/Refinement.thy ===== *)
theory Refinement
  imports Protocol
begin

text \<open>
  What every operation of the service guarantees to the others. \<open>serves R P m A\<close>: from a
  database that satisfies \<open>P\<close>, whatever the other requests do within \<open>R\<close>, whatever the
  external systems answer and whichever sessions fail, \<open>m\<close> moves the database only within \<open>R\<close>,
  keeps \<open>P\<close> and returns only values in \<open>A\<close>. The locale \<open>service_rely\<close> asks this of each
  transaction, of a cutover only for an image of the automation's own repository below \<open>repo\<close>, and
  proves it once for each operation composed of them; \<open>edit_rely\<close> adds the
  transaction that finishes an edit. They are interpreted here for the state machine of
  \<open>Protocol\<close> and its invariant: what an operation relies on from the other requests is then
  exactly what it guarantees to them.
\<close>

definition serves ::
  "(database \<Rightarrow> database \<Rightarrow> bool) \<Rightarrow> (database \<Rightarrow> bool) \<Rightarrow> ('x, 'a) io \<Rightarrow> ('a \<Rightarrow> bool) \<Rightarrow> bool" where
  "serves R P m A \<longleftrightarrow> io_spec R P m (\<lambda>a d. P d \<and> A a)"

lemma servesD:
  assumes "serves R P m A" and "env_rely R w" and "P (w_db w)" and "m w = (r, w')"
  shows "R (w_db w) (w_db w')" and "\<And>a. r = Inr a \<Longrightarrow> P (w_db w') \<and> A a"
  using io_specD [OF assms(1) [unfolded serves_def] assms(2-4)] by auto

lemma io_spec_pure:
  assumes "A \<Longrightarrow> io_spec R P m Q"
  shows "io_spec R (\<lambda>d. P d \<and> A) m Q"
proof (cases A)
  case True
  with assms show ?thesis by simp
qed (simp add: io_spec_def)

lemma validated_Inr_iff: "validated env data = Inr u \<longleftrightarrow> authoring_ok env data"
  using validate_automation_accepts_iff [of env data]
  by (auto simp: validated_def split: sum.splits if_splits)

section \<open>Composition\<close>

locale serving = db_rely R for R +
  fixes P :: "database \<Rightarrow> bool"
  assumes P_stable: "stable R P"
begin

lemma P_keep: "R d d' \<Longrightarrow> P d \<Longrightarrow> P d'"
  using P_stable by (rule stableD)

lemma serves_return: "A a \<Longrightarrow> serves R P (io_return a) A"
  unfolding serves_def by (rule spec_return) simp

lemma serves_raise: "serves R P (io_raise e) A"
  unfolding serves_def by (rule spec_raise)

lemma serves_lift: "(\<And>a. r = Inr a \<Longrightarrow> A a) \<Longrightarrow> serves R P (io_lift r) A"
  unfolding serves_def by (rule spec_lift) simp

lemma serves_now: "serves R P io_now (\<lambda>_. True)"
  unfolding serves_def by (rule spec_now) simp

lemma serves_log: "serves R P (io_log ef) (\<lambda>_. True)"
  unfolding serves_def by (rule spec_log) simp

lemma serves_call: "serves R P (io_call c f) (\<lambda>_. True)"
  unfolding serves_def by (rule spec_call) simp

lemma serves_bind:
  assumes "serves R P m A" and "\<And>a. A a \<Longrightarrow> serves R P (k a) B"
  shows "serves R P (io_bind m k) B"
  unfolding serves_def
proof (rule spec_bind)
  show "io_spec R P m (\<lambda>a d. P d \<and> A a)" using assms(1) by (simp add: serves_def)
  show "io_spec R (\<lambda>d. P d \<and> A a) (k a) (\<lambda>b d. P d \<and> B b)" for a
    by (rule io_spec_pure) (use assms(2) [of a] in \<open>simp add: serves_def\<close>)
qed

lemma serves_catch:
  assumes "serves R P m A" and "\<And>e. serves R P (h e) A"
  shows "serves R P (io_catch m h) A"
  unfolding serves_def by (rule spec_catch [OF P_stable]) (use assms in \<open>simp_all only: serves_def\<close>)

lemma serves_session:
  assumes "\<And>now d a d'. P d \<Longrightarrow> t now d = Inr (a, d') \<Longrightarrow> R d d' \<and> A a"
  shows "serves R P (get_session lock t) A"
  unfolding serves_def
  by (rule spec_session [OF P_stable], rule tx_specI) (use assms P_keep in blast)

lemma serves_session_opt:
  assumes "\<And>now d a d'. P d \<Longrightarrow> t now d = Inr (a, Some d') \<Longrightarrow> R d d'"
  shows "serves R P (get_session_opt lock t) (\<lambda>_. True)"
  unfolding serves_def
  by (rule spec_session_opt [OF P_stable])
    (use assms P_keep in \<open>auto split: option.splits; blast\<close>)

lemma serves_read:
  assumes "\<And>d a. P d \<Longrightarrow> q d = Inr a \<Longrightarrow> A a"
  shows "serves R P (read_session lock q) A"
  unfolding serves_def by (rule spec_read [OF P_stable]) (use assms in blast)

lemma serves_if:
  assumes "b \<Longrightarrow> serves R P m A" and "\<not> b \<Longrightarrow> serves R P m' A"
  shows "serves R P (if b then m else m') A"
  using assms by simp

lemma serves_any: "serves R P m A \<Longrightarrow> serves R P m (\<lambda>_. True)"
  unfolding serves_def by (erule io_spec_weaken) simp_all

lemmas serves_rules = serves_return serves_raise serves_now serves_log serves_call serves_catch serves_if

lemma serves_then:
  assumes "serves R P m (\<lambda>_. True)" and "\<And>a. serves R P (k a) B"
  shows "serves R P (io_bind m k) B"
  using assms by (rule serves_bind)

end

section \<open>The cascade\<close>

text \<open>\<open>mine\<close> are the automations whose checkpoints the context may advance: a cascade writes
  only to the automation it was started for.\<close>

locale cascade_rely = serving +
  fixes mine :: "uuid \<Rightarrow> bool"
  assumes checkpoint_rely: "mine i \<Longrightarrow> P d \<Longrightarrow>
      (n, ms) \<in> {(1, None), (2, None), (3, None), (4, None), (5, Some DELETED)} \<Longrightarrow>
      checkpoint_tx i n ms now d = Inr (won, d') \<Longrightarrow> R d d'"
begin

lemma serves_snapshot: "serves R P (snapshot i) (\<lambda>a. a_id a = i)"
  unfolding snapshot_def
  by (rule serves_read) (auto simp: snapshot_query_def dest: atab.get_key split: option.splits)

lemma serves_save:
  assumes "mine i" and "(n, ms) \<in> {(1, None), (2, None), (3, None), (4, None), (5, Some DELETED)}"
  shows "serves R P (save i n ms) (\<lambda>_. True)"
  unfolding save_def checkpoint_def
  by (intro serves_then serves_rules serves_session TrueI) (use checkpoint_rely [OF assms(1) _ assms(2)] in blast)

lemma serves_external: "serves R P (external n code c f) (\<lambda>_. True)"
  unfolding external_def by (intro serves_then serves_rules TrueI)

lemma serves_list_entries: "serves R P (list_entries deps i) (\<lambda>_. True)"
  unfolding list_entries_def by (intro serves_rules)

lemma serves_delete_entries: "serves R P (delete_entries deps i es) (\<lambda>_. True)"
  by (induction es) (auto intro: serves_then serves_external serves_return)

lemma serves_run_step: "mine (a_id a) \<Longrightarrow> serves R P (run_step deps n a) (\<lambda>_. True)"
  unfolding run_step_def step_mark_deleting_def step_delete_capp_resources_def step_delete_images_def
    step_archive_script_def step_mark_deleted_def Let_def step_defs
  by (intro serves_then serves_rules serves_save serves_external serves_list_entries serves_delete_entries)
    simp_all

lemma serves_try_step:
  assumes "mine (a_id a)"
  shows "serves R P (try_step deps a) (\<lambda>_. True)"
proof -
  have "serves R P (case e of CascadeStepError step code \<Rightarrow> io_return (Some code) | _ \<Rightarrow> io_raise e) (\<lambda>_. True)"
    for e by (cases e) (auto intro: serves_return serves_raise)
  with assms show ?thesis
    unfolding try_step_def by (intro serves_then serves_rules serves_run_step TrueI)
qed

lemma serves_cascade_loop:
  assumes "mine i"
  shows "a_id a = i \<Longrightarrow> serves R P (cascade_loop deps i n a) (\<lambda>_. True)"
proof (induction n arbitrary: a)
  case (Suc n)
  have "serves R P (case stopped of Some code \<Rightarrow> io_return (result_of a (Some code))
      | None \<Rightarrow> io_bind (snapshot i) (\<lambda>a'. cascade_loop deps i n a')) (\<lambda>_. True)" for stopped
    using serves_bind [OF serves_snapshot Suc.IH] by (cases stopped) (auto intro: serves_return)
  with Suc.prems assms show ?case by (auto intro!: serves_return serves_raise serves_then serves_try_step)
qed (simp add: serves_return)

lemma serves_run_cascade: "mine i \<Longrightarrow> serves R P (run_cascade deps i) (\<lambda>_. True)"
  unfolding run_cascade_def by (rule serves_bind [OF serves_snapshot serves_cascade_loop])

lemma serves_background: "mine i \<Longrightarrow> serves R P (run_cascade_in_background deps i) (\<lambda>_. True)"
  unfolding run_cascade_in_background_def by (intro serves_then serves_rules serves_run_cascade TrueI)

end

section \<open>The contract of the transactions\<close>

locale service_rely = cascade_rely R P "\<lambda>_. True" for R P +
  fixes repo :: pystr
  assumes create_rely: "P d \<Longrightarrow> authoring_ok env data \<Longrightarrow>
      create_tx i t data actor sha deadline now d = Inr (a, d') \<Longrightarrow> R d d'"
    and claim_rely: "P d \<Longrightarrow> claim_build_tx t i data deadline now d = Inr (c, d') \<Longrightarrow> R d d' \<and> claim_ok c"
    and release_rely: "P d \<Longrightarrow> claim_ok c \<Longrightarrow> release_build_claim_tx c now d = Inr (u, d') \<Longrightarrow> R d d'"
    and toggle_rely: "P d \<Longrightarrow> (target, action) \<in> {(ACTIVE, ENABLE), (INACTIVE, DISABLE)} \<Longrightarrow>
      toggle_tx t i actor target action now d = Inr (a, d') \<Longrightarrow> R d d'"
    and cut_over_rely: "P d \<Longrightarrow> event_ok event \<Longrightarrow> e_status event = SUCCESS \<Longrightarrow>
      require_own_image repo event = Inr () \<Longrightarrow> cut_over_tx event created now d = Inr (res, Some d') \<Longrightarrow> R d d'"
    and failure_rely: "P d \<Longrightarrow> record_failure_tx event now d = Inr (res, Some d') \<Longrightarrow> R d d'"
    and begin_delete_rely: "P d \<Longrightarrow> begin_delete_tx t i actor now d = Inr (adm, Some d') \<Longrightarrow> R d d'"
    and complete_run_rely: "P d \<Longrightarrow>
      complete_run_tx run_id (Some s) (deletion_values s) now d = Inr (changed, d') \<Longrightarrow> R d d'"
begin

paragraph \<open>Authoring\<close>

lemma serves_create: "serves R P (create_automation env ts git i t data actor) (\<lambda>_. True)"
  unfolding create_automation_def
proof (rule serves_bind [where A = "\<lambda>_. authoring_ok env data"])
  show "serves R P (io_lift (validated env data)) (\<lambda>_. authoring_ok env data)"
    by (rule serves_lift) (simp add: validated_Inr_iff)
next
  assume "authoring_ok env data"
  then show "serves R P (io_bind (io_call (GitCommit (script_path_of i))
        (g_commit_script git (script_path_of i) (in_script data)
           (str ''create '' @ in_name data @ str '' ('' @ uuid_str i @ str '')''))) (\<lambda>git_sha.
     io_bind io_now (\<lambda>c.
     get_session False (create_tx i t data actor git_sha (build_lock_deadline ts c))))) (\<lambda>_. True)"
    by (intro serves_then serves_rules serves_session) (blast intro: create_rely)+
qed

lemma serves_claim: "serves R P (claim_build ts t i data) claim_ok"
  unfolding claim_build_def
  by (intro serves_then serves_rules serves_session) (rule claim_rely)

lemma serves_release: "claim_ok c \<Longrightarrow> serves R P (release_build_claim c) (\<lambda>_. True)"
  unfolding release_build_claim_def
  by (intro serves_rules serves_session) (auto intro: release_rely)

lemma serves_get: "serves R P (get_automation git t i) (\<lambda>_. True)"
  unfolding get_automation_def by (intro serves_then serves_rules serves_read) simp_all

lemma serves_list: "serves R P (list_automations t ns ms bs) (\<lambda>_. True)"
  unfolding list_automations_def by (intro serves_read) simp

paragraph \<open>Lifecycle and builds\<close>

lemma serves_toggle:
  assumes "(target, action) \<in> {(ACTIVE, ENABLE), (INACTIVE, DISABLE)}"
  shows "serves R P (toggle t i actor target action) (\<lambda>_. True)"
  unfolding toggle_def
  by (intro serves_then serves_rules serves_session) (use toggle_rely [OF _ assms] in auto)

lemma serves_record_failure: "serves R P (record_failure event) (\<lambda>_. True)"
proof -
  have "serves R P (case res of Inl reason \<Rightarrow> io_return (ignored reason)
      | Inr be \<Rightarrow> io_bind (io_log (PublishEvent be)) (\<lambda>_. io_return applied)) (\<lambda>_. True)" for res
    by (cases res) (auto intro!: serves_then serves_rules)
  then show ?thesis
    unfolding record_failure_def
    by (intro serves_then serves_session_opt) (auto intro: failure_rely)
qed

lemma serves_tear_down: "serves R P (tear_down del event w n) (\<lambda>_. True)"
  unfolding tear_down_def by (intro serves_then serves_rules TrueI)

lemma serves_deploy: "serves R P (deploy capp event target) (\<lambda>_. True)"
  unfolding deploy_def Let_def
  by (cases "bt_capp_deployment_id target") (auto intro!: serves_then serves_rules)

lemma serves_commit_cut_over:
  assumes "event_ok event" and "e_status event = SUCCESS" and "require_own_image repo event = Inr ()"
  shows "serves R P (commit_cut_over event created) (\<lambda>_. True)"
  unfolding commit_cut_over_def
  by (intro serves_rules serves_session_opt) (use assms in \<open>blast intro: cut_over_rely\<close>)

lemma serves_apply:
  assumes "event_ok event"
  shows "serves R P (apply_build_result repo capp del event) (\<lambda>_. True)"
proof -
  have finish: "serves R P (case res of
        Inl reason \<Rightarrow> io_bind (if reason = REASON_DELETING then tear_down dl event w n else io_return ())
          (\<lambda>_. io_return (ignored reason))
      | Inr be \<Rightarrow> io_bind (io_log PublishReload) (\<lambda>_. io_bind (io_log (PublishEvent be)) (\<lambda>_.
          io_return applied))) (\<lambda>_. True)" for res dl w n
    by (cases res) (auto intro!: serves_then serves_rules serves_tear_down)
  have phase: "serves R P (case adm of
        Some reason \<Rightarrow> io_return (ignored reason)
      | None \<Rightarrow> if e_status event = OUTCOME_FAILED then record_failure event
          else io_bind (io_lift (require_own_image repo event)) (\<lambda>_. io_bind (deploy capp event target) (\<lambda>created.
            io_bind (commit_cut_over event created) (k created)))) (\<lambda>_. True)"
    if "\<And>created res. serves R P (k created res) (\<lambda>_. True)" for adm target k
  proof (cases adm)
    case None
    have "e_status event \<noteq> OUTCOME_FAILED \<Longrightarrow> e_status event = SUCCESS" by (cases "e_status event") auto
    moreover have "serves R P (io_bind (io_lift (require_own_image repo event)) (\<lambda>_.
        io_bind (deploy capp event target) (\<lambda>created. io_bind (commit_cut_over event created) (k created)))) (\<lambda>_. True)"
      if "e_status event = SUCCESS"
    proof (rule serves_bind [where A = "\<lambda>_. require_own_image repo event = Inr ()"])
      show "serves R P (io_lift (require_own_image repo event)) (\<lambda>_. require_own_image repo event = Inr ())"
        by (rule serves_lift) simp
    qed (use that assms \<open>\<And>created res. serves R P (k created res) (\<lambda>_. True)\<close> in
        \<open>intro serves_then serves_deploy serves_commit_cut_over\<close>)
    ultimately show ?thesis using None by (auto intro: serves_record_failure)
  qed (auto intro: serves_return)
  show ?thesis
    unfolding apply_build_result_def Let_def
    by (intro serves_then serves_read phase finish TrueI)
qed

paragraph \<open>The cascade\<close>

lemma serves_begin_delete: "serves R P (begin_delete t i actor) (\<lambda>_. True)"
  unfolding begin_delete_def
  by (intro serves_then serves_rules serves_session_opt TrueI) (rule begin_delete_rely)

lemma serves_deboard_loop: "serves R P (deboard_loop deps t actor s is) (\<lambda>_. True)"
proof (induction "is" arbitrary: s)
  case (Cons i "is")
  have admit: "serves R P (deboard_admit t i actor) (\<lambda>_. True)"
    unfolding deboard_admit_def by (intro serves_then serves_rules serves_begin_delete TrueI)
  have run: "serves R P (deboard_run deps i) (\<lambda>_. True)"
    unfolding deboard_run_def by (intro serves_then serves_rules serves_run_cascade TrueI)
  show ?case
  proof (simp only: deboard_loop.simps, rule serves_then [OF admit])
    show "serves R P (case oc of
        SkippedBuilding \<Rightarrow> deboard_loop deps t actor (s\<lparr>ds_skipped_building := ds_skipped_building s @ [i]\<rparr>) is
      | AdmitFailed \<Rightarrow> deboard_loop deps t actor (s\<lparr>ds_failed := ds_failed s @ [i]\<rparr>) is
      | Admitted \<Rightarrow> io_bind (deboard_run deps i) (\<lambda>finished. deboard_loop deps t actor
           (if finished then s\<lparr>ds_deleted := ds_deleted s @ [i]\<rparr>
            else s\<lparr>ds_in_progress := ds_in_progress s @ [i]\<rparr>) is)) (\<lambda>_. True)" for oc
      by (cases oc) (simp_all add: Cons.IH serves_then [OF run])
  qed
qed (simp add: serves_return)

lemma serves_deboard: "serves R P (deboard_wallet deps t wallet actor) (\<lambda>_. True)"
  unfolding deboard_wallet_def by (intro serves_then serves_read serves_deboard_loop TrueI)

paragraph \<open>Runs\<close>

lemma serves_load_run: "serves R P (load_run i) (\<lambda>_. True)"
  unfolding load_run_def by (intro serves_read TrueI)

lemma serves_finalize_loop: "serves R P (finalize_loop i n s) (\<lambda>_. True)"
proof (induction n arbitrary: s)
  case (Suc n)
  have "serves R P (complete_run_if_open i (Some s) (deletion_values s)) (\<lambda>_. True)"
    unfolding complete_run_if_open_def by (rule serves_session) (blast intro: complete_run_rely)
  then show ?case
    by (auto intro!: serves_then serves_rules serves_load_run Suc.IH)
qed (simp add: serves_load_run)

lemma serves_finalize: "serves R P (finalize_terminated_by_deletion i) (\<lambda>_. True)"
  unfolding finalize_terminated_by_deletion_def matching_state_of_def
  by (intro serves_then serves_rules serves_load_run serves_read serves_finalize_loop TrueI)

end

section \<open>Edits\<close>

locale edit_rely = service_rely +
  assumes finish_rely: "P d \<Longrightarrow> authoring_ok env data \<Longrightarrow>
    finish_edit_tx t i data actor c sha now d = Inr (a, d') \<Longrightarrow> R d d'"
begin

lemma serves_update: "serves R P (update_automation env ts git t i data actor) (\<lambda>_. True)"
  unfolding update_automation_def
proof (rule serves_bind [where A = "\<lambda>_. authoring_ok env data"])
  show "serves R P (io_lift (validated env data)) (\<lambda>_. authoring_ok env data)"
    by (rule serves_lift) (simp add: validated_Inr_iff)
next
  assume ok: "authoring_ok env data"
  show "serves R P (io_bind (claim_build ts t i data) (\<lambda>claim.
     io_bind
       (io_catch
          (io_call (GitCommit (bc_script_path claim))
             (g_commit_script git (bc_script_path claim) (in_script data)
                (str ''edit '' @ in_name data @ str '' ('' @ uuid_str i @ str '')'')))
          (\<lambda>e. io_bind (release_build_claim claim) (\<lambda>_. io_raise e))) (\<lambda>git_sha.
     get_session True (finish_edit_tx t i data actor claim git_sha)))) (\<lambda>_. True)"
    by (rule serves_bind [OF serves_claim])
      (use ok in \<open>intro serves_then serves_rules serves_release serves_session; blast intro: finish_rely\<close>)
qed

end

section \<open>The service implements its state machine\<close>

interpretation svc: edit_rely service_steps db_ok repo for repo
proof unfold_locales
  show "stable service_steps db_ok" by (rule stableI) (rule service_steps_ok)
qed (blast intro: service_step.intros claim_ok_step r_into_rtranclp rtranclp_trans)+

end
