(* ===== verification/Samples.thy ===== *)
theory Samples
  imports Refinement
begin

text \<open>
  Concrete inputs on which the properties with hypotheses are applied: one payload that
  passes validation, one automation in the states the properties need, a database and a
  world around it, and client functions that answer or fail. Nothing here models code.
\<close>

definition sample_env :: validation_env where
  "sample_env = \<lparr>ve_ast_parse = (\<lambda>_. Inr [FunctionDef (str ''handle'') [] [str ''event'']]),
     ve_getaddrinfo = (\<lambda>_. (LookupFailed, 0)),
     ve_unicode = \<lparr>u_nfkc = (\<lambda>s. s), u_lower = ascii_lower\<rparr>\<rparr>"

definition sample_condition :: "string \<Rightarrow> string \<Rightarrow> json" where
  "sample_condition f v = JObj [(str ''field'', JStr (str f)), (str ''value'', JStr (str v))]"

definition sample_data :: automation_in where
  "sample_data = \<lparr>in_name = str ''restart'', in_namespace = str ''wallet'', in_script = str ''s'',
     in_triggers = [sample_condition ''application'' ''a'', sample_condition ''status'' ''b''],
     in_secret_name = None, in_cooldown_seconds = None, in_cooldown_fields = None,
     in_timeout_seconds = None, in_grace_seconds = None, in_logstash_url = None\<rparr>"

lemma sample_condition_parts:
  "condition_parts (sample_condition f v) = Some (str f, str v)"
  by (auto simp: condition_parts_def sample_condition_def str_def)

lemma sample_triggers_ok: "triggers_ok (in_triggers sample_data)"
  by (simp add: triggers_ok_def sample_data_def condition_ok_def condition_field_def
      sample_condition_parts limits_defs matchable_defs utf8_encode_def is_surrogate_def str_def
      utf8_bytes_def)

lemma sample_authoring_ok: "authoring_ok sample_env sample_data"
  using sample_triggers_ok
  by (simp add: authoring_ok_def cooldown_ok_def script_ok_def sample_env_def first_handle_def
      List.map_filter_simps blank_iff is_space_def utf8_encode_def is_surrogate_def utf8_bytes_def limits_defs)
    (simp add: sample_data_def str_def is_space_def is_surrogate_def utf8_bytes_def)

definition sample_id :: uuid where "sample_id = 7"

definition sample_repo :: pystr where "sample_repo = str ''reg''"

definition sample_image :: pystr where
  "sample_image = sample_repo @ str ''/'' @ uuid_str sample_id @ str ''@sha256:'' @ replicate 64 48"

definition sample_sha :: pystr where "sample_sha = replicate 40 48"

text \<open>The sample automation in a given matching and build state, with or without a deployment.\<close>

definition sample_row ::
  "matching_state \<Rightarrow> build_state \<Rightarrow> pystr option \<Rightarrow> nat option \<Rightarrow> pystr option \<Rightarrow> automation" where
  "sample_row ms bs sha step dep =
     \<lparr>a_id = sample_id, a_tenant_id = str ''acme'', a_name = str ''old'', a_namespace = str ''wallet'',
      a_capp_deployment_id = dep, a_deployment_url = None,
      a_triggers = in_triggers sample_data, a_script_path = script_path_of sample_id,
      a_secret_name = None, a_cooldown_seconds = None, a_cooldown_fields = None,
      a_timeout_seconds = Some 300, a_grace_seconds = 300, a_logstash_url = None,
      a_matching_state = ms, a_build_state = bs, a_active_digest = Some sample_image,
      a_building_sha = sha, a_contract_version = None,
      a_build_lock_deadline = (if bs = BUILDING then Some 9 else None),
      a_delete_cascade_step = step, a_index_generation = 3, a_created_by = str ''ann'',
      a_updated_by = str ''bob'', a_created_at = 1, a_updated_at = 2\<rparr>"

definition sample_revision :: automation_revision where
  "sample_revision = \<lparr>rv_automation_id = sample_id, rv_action = CREATE, rv_git_sha = Some sample_sha,
     rv_resulting_digest = None, rv_actor = str ''ann'', rv_created_at = 1\<rparr>"

definition sample_db :: "automation \<Rightarrow> database" where
  "sample_db a = \<lparr>automations = [a], revisions = [sample_revision], runs = [], tenants = [str ''acme'']\<rparr>"

definition sample_world :: "session_env list \<Rightarrow> 'x \<Rightarrow> automation \<Rightarrow> 'x world" where
  "sample_world es x a = \<lparr>w_db = sample_db a, w_clock = 100, w_env = es, w_ext = x, w_trace = []\<rparr>"

lemma sample_world_simps [simp]:
  "w_db (sample_world es x a) = sample_db a" "w_clock (sample_world es x a) = 100"
  "w_env (sample_world es x a) = es" "w_ext (sample_world es x a) = x"
  "w_trace (sample_world es x a) = []"
  by (simp_all add: sample_world_def)

lemma sample_db_simps [simp]:
  "automations (sample_db a) = [a]" "revisions (sample_db a) = [sample_revision]"
  "runs (sample_db a) = []" "tenants (sample_db a) = [str ''acme'']"
  by (simp_all add: sample_db_def)

lemma sample_row_simps [simp]:
  "a_id (sample_row ms bs sha step dep) = sample_id"
  "a_tenant_id (sample_row ms bs sha step dep) = str ''acme''"
  "a_namespace (sample_row ms bs sha step dep) = str ''wallet''"
  "a_matching_state (sample_row ms bs sha step dep) = ms"
  "a_build_state (sample_row ms bs sha step dep) = bs"
  "a_building_sha (sample_row ms bs sha step dep) = sha"
  "a_delete_cascade_step (sample_row ms bs sha step dep) = step"
  "a_capp_deployment_id (sample_row ms bs sha step dep) = dep"
  "a_active_digest (sample_row ms bs sha step dep) = Some sample_image"
  "a_build_lock_deadline (sample_row ms bs sha step dep) = (if bs = BUILDING then Some 9 else None)"
  "a_index_generation (sample_row ms bs sha step dep) = 3"
  "a_updated_by (sample_row ms bs sha step dep) = str ''bob''"
  by (simp_all add: sample_row_def)

lemma valid_repository_append:
  assumes "is_valid_repository r" and "list_all is_repo_char s"
  shows "is_valid_repository (r @ s)"
  using assms by (cases r) (auto simp: is_valid_repository_def)

lemma uuid_str_repo_chars: "list_all is_repo_char (uuid_str i)"
  by (auto simp: list_all_iff is_repo_char_def is_repo_start_def dest!: uuid_str_chars)

lemma own_image_digest_ref:
  assumes "is_valid_repository prefix" and "length hex = 64" and "list_all is_hex_lower hex"
  shows "is_digest_ref (prefix @ str ''/'' @ uuid_str i @ str ''@sha256:'' @ hex)"
    and "image_repository_of (prefix @ str ''/'' @ uuid_str i @ str ''@sha256:'' @ hex)
      = prefix @ str ''/'' @ uuid_str i"
proof -
  let ?repo = "prefix @ str ''/'' @ uuid_str i" and ?rest = "str ''@sha256:'' @ hex"
  have repo: "is_valid_repository ?repo"
    by (rule valid_repository_append [OF assms(1)])
      (simp add: uuid_str_repo_chars is_repo_char_def str_def)
  have "c \<noteq> 64" if "is_repo_char c" for c
    using that by (auto simp: is_repo_char_def is_repo_start_def)
  then have no_at: "\<forall>c \<in> set ?repo. c \<noteq> 64"
    using repo by (cases ?repo) (auto simp: is_valid_repository_def is_repo_char_def list_all_iff)
  have tw: "takeWhile (\<lambda>c. c \<noteq> 64) (?repo @ ?rest) = ?repo"
    using no_at by (subst takeWhile_append2) (auto simp: str_def)
  have dw: "dropWhile (\<lambda>c. c \<noteq> 64) (?repo @ ?rest) = ?rest"
    using no_at by (subst dropWhile_append2) (auto simp: str_def)
  show "is_digest_ref (prefix @ str ''/'' @ uuid_str i @ str ''@sha256:'' @ hex)"
    using tw dw repo assms(2,3) by (simp add: is_digest_ref_def Let_def str_def)
  show "image_repository_of (prefix @ str ''/'' @ uuid_str i @ str ''@sha256:'' @ hex)
      = prefix @ str ''/'' @ uuid_str i"
    using tw by (simp add: image_repository_of_def)
qed

lemma sample_repo_valid: "is_valid_repository sample_repo" "configured_image_repository sample_repo = Some sample_repo"
  by (simp_all add: configured_image_repository_def sample_repo_def str_def is_valid_repository_def
      is_repo_start_def is_repo_char_def rstrip_char_def)

lemma sample_image_digest: "is_digest_ref sample_image"
  and sample_image_repository: "image_repository_of sample_image = sample_repo @ str ''/'' @ uuid_str sample_id"
  unfolding sample_image_def
  by (rule own_image_digest_ref [OF sample_repo_valid(1)]; simp add: is_hex_lower_def is_ascii_digit_def list_all_iff)+

lemma sample_db_ok:
  assumes "(bs = BUILDING \<and> sha = Some sample_sha \<and> ms \<in> {INACTIVE, ACTIVE}) \<or> (bs \<noteq> BUILDING \<and> sha = None)"
    and "cascade_step_ok ms step"
  shows "db_ok (sample_db (sample_row ms bs sha step dep))"
proof -
  have "config_ok (sample_row ms bs sha step dep)"
    using sample_triggers_ok
    by (simp add: config_ok_def sample_row_def cooldown_ok_def limits_defs blank_iff str_def is_space_def)
  moreover have "digest_ok (sample_row ms bs sha step dep)"
    by (simp add: digest_ok_def sample_image_digest)
  moreover have "build_ok (sample_row ms bs sha step dep)" "deletion_ok (sample_row ms bs sha step dep)"
    using assms by (auto simp: build_ok_def deletion_ok_def)
  moreover have "a_script_path (sample_row ms bs sha step dep) = script_path_of sample_id"
    by (simp add: sample_row_def)
  ultimately show ?thesis using assms(1)
    by (auto simp: db_ok_def row_ok_def requested_def sample_revision_def REQUESTING_ACTIONS_def)
qed

definition sample_git :: "(nat, pystr) client \<Rightarrow> nat git_client" where
  "sample_git commit = \<lparr>g_commit_script = (\<lambda>p s m. commit), g_read_script = (\<lambda>p x. (Inr None, x)),
     g_archive = (\<lambda>i a x. (Inr (str ''c''), x))\<rparr>"

text \<open>No automation yet, and the sample automation just created.\<close>

definition empty_db :: database where
  "empty_db = \<lparr>automations = [], revisions = [], runs = [], tenants = [str ''acme'']\<rparr>"

definition created_db :: database where
  "created_db = add_revision
     \<lparr>rv_automation_id = sample_id, rv_action = CREATE, rv_git_sha = Some sample_sha,
      rv_resulting_digest = None, rv_actor = str ''ann'', rv_created_at = 100\<rparr>
     (empty_db\<lparr>automations := [new_automation sample_id (str ''acme'') sample_data (str ''ann'') sample_sha 9 100]\<rparr>)"

lemma created_db_tx:
  "create_tx sample_id (str ''acme'') sample_data (str ''ann'') sample_sha 9 100 empty_db
   = Inr (new_automation sample_id (str ''acme'') sample_data (str ''ann'') sample_sha 9 100, created_db)"
  by (simp add: create_tx_def insert_automation_def empty_db_def created_db_def new_automation_def Let_def)

end
