(* ===== verification/Authoring_Correct.thy ===== *)
theory Authoring_Correct
  imports Samples "HOL-Library.Multiset"
begin

text \<open>
  What the authoring operations do as a whole: create and edit on every path when they run
  alone, the edit that loses its claim to a concurrent request, and the list query. The
  helper lemmas unfold an operation into its transactions for a quiet environment.
\<close>

section \<open>Helpers\<close>

lemma put_same:
  assumes "distinct (map a_id (automations d))" and "a \<in> set (automations d)"
  shows "put_automation a d = d"
proof -
  have "r = a" if "r \<in> set (automations d)" and "a_id r = a_id a" for r
    using assms that by (auto simp: distinct_map inj_on_def)
  then have "map (\<lambda>r. if a_id r = a_id a then a else r) (automations d) = automations d"
    by (intro map_idI) auto
  then show ?thesis by (simp add: put_automation_def update_automations_def update_where_def)
qed

lemma put_put: "a_id b = a_id a \<Longrightarrow> put_automation a (put_automation b d) = put_automation a d"
  by (auto simp: put_automation_def update_automations_def update_where_def)

lemma scoped_get_put:
  assumes "distinct (map a_id (automations d))" and "scoped_get t i d = Inr a"
    and "a_id b = i" and "a_tenant_id b = t"
  shows "scoped_get t i (put_automation b d) = Inr b"
proof -
  have "find_automation d i = Some a"
    using assms(1) scoped_get_InrD [OF assms(2)] atab.get_of_row [of d a] by auto
  moreover have "distinct (map a_id (automations (put_automation b d)))"
    using assms(1) by (simp add: table_simps)
  ultimately show ?thesis using assms(3,4) by (simp add: scoped_get_find table_simps)
qed

text \<open>The row an edit stores.\<close>

definition edited :: "automation \<Rightarrow> automation_in \<Rightarrow> pystr \<Rightarrow> pystr \<Rightarrow> datetime \<Rightarrow> datetime \<Rightarrow> automation" where
  "edited a data actor sha deadline now =
     a\<lparr>a_build_state := BUILDING, a_build_lock_deadline := Some deadline,
       a_name := in_name data, a_namespace := in_namespace data,
       a_triggers := in_triggers data, a_secret_name := in_secret_name data,
       a_cooldown_seconds := in_cooldown_seconds data, a_cooldown_fields := in_cooldown_fields data,
       a_timeout_seconds := Some (or_default (in_timeout_seconds data) TIMEOUT_SECONDS_DEFAULT),
       a_grace_seconds := or_default (in_grace_seconds data) GRACE_SECONDS_DEFAULT,
       a_logstash_url := in_logstash_url data, a_building_sha := Some sha,
       a_updated_by := actor, a_updated_at := now\<rparr>"

definition edit_revision :: "uuid \<Rightarrow> pystr \<Rightarrow> pystr \<Rightarrow> datetime \<Rightarrow> automation_revision" where
  "edit_revision i sha actor now =
     \<lparr>rv_automation_id = i, rv_action = EDIT, rv_git_sha = Some sha,
      rv_resulting_digest = None, rv_actor = actor, rv_created_at = now\<rparr>"

abbreviation claimed :: "automation \<Rightarrow> datetime \<Rightarrow> automation" where
  "claimed a deadline \<equiv>
     a\<lparr>a_build_state := BUILDING, a_build_lock_deadline := Some deadline, a_building_sha := None\<rparr>"

lemma finish_after_claim:
  assumes "distinct (map a_id (automations d))" and "scoped_get t i d = Inr a"
    and "bc_deadline c = deadline"
  shows "finish_edit_tx t i data actor c sha now (put_automation (claimed a deadline) d)
    = Inr (edited a data actor sha deadline now,
           add_revision (edit_revision i sha actor now)
             (put_automation (edited a data actor sha deadline now) d))"
proof -
  have "scoped_get t i (put_automation (claimed a deadline) d) = Inr (claimed a deadline)"
    by (rule scoped_get_put [OF assms(1,2)]) (use scoped_get_InrD [OF assms(2)] in simp_all)
  with assms(3) show ?thesis
    by (simp add: finish_edit_tx_def Let_def edited_def edit_revision_def put_put)
qed

lemma release_after_claim:
  assumes "distinct (map a_id (automations d))" and "a \<in> set (automations d)"
    and "a_build_lock_deadline a = None"
    and "bc_automation_id c = a_id a" and "bc_deadline c = deadline"
    and "bc_previous_build_state c = a_build_state a" and "bc_previous_building_sha c = a_building_sha a"
  shows "release_build_claim_tx c now (put_automation (claimed a deadline) d) = Inr ((), d)"
proof -
  let ?f = "\<lambda>r. r\<lparr>a_build_state := a_build_state a, a_building_sha := a_building_sha a,
    a_build_lock_deadline := None\<rparr>"
  have same: "r = a" if "r \<in> set (automations d)" and "a_id r = a_id a" for r
    using assms(1,2) that by (auto simp: distinct_map inj_on_def)
  have "?f (claimed a deadline) = a" using assms(3) by simp
  then have "map (\<lambda>r. if a_id r = a_id a \<and> a_build_state r = BUILDING
        \<and> a_build_lock_deadline r = Some deadline then ?f r else r)
      (map (\<lambda>r. if a_id r = a_id a then claimed a deadline else r) (automations d)) = automations d"
    by (auto simp: o_def intro!: map_idI dest: same)
  then show ?thesis
    by (simp add: release_build_claim_tx_def put_automation_def update_automations_def update_where_def
        assms(4-7))
qed

lemma claim_build_alone:
  assumes "w_env w = []"
  shows "claim_build ts t i data w =
    (case claim_build_tx t i data (build_lock_deadline ts (w_clock w)) (w_clock w) (w_db w) of
       Inl e \<Rightarrow> (Inl e, w)
     | Inr (c, d) \<Rightarrow> (Inr c, w\<lparr>w_db := d, w_trace := w_trace w @ [Committed]\<rparr>))"
  using assms by (simp add: claim_build_def io_bind_def io_simps)

lemma release_alone:
  assumes "w_env w = []"
  shows "release_build_claim c w = (Inr (), w\<lparr>w_db := snd (projr (release_build_claim_tx c (w_clock w) (w_db w))),
    w_trace := w_trace w @ [Committed]\<rparr>)"
  using assms by (simp add: release_build_claim_def io_catch_def io_simps release_build_claim_tx_def)

definition commit_message :: "pystr \<Rightarrow> automation_in \<Rightarrow> uuid \<Rightarrow> pystr" where
  "commit_message verb data i = verb @ in_name data @ str '' ('' @ uuid_str i @ str '')''"

lemma create_alone:
  assumes "w_env w = []"
  shows "create_automation env ts git i t data actor w =
    (case validated env data of
       Inl e \<Rightarrow> (Inl e, w)
     | Inr _ \<Rightarrow>
         (case g_commit_script git (script_path_of i) (in_script data)
              (commit_message (str ''create '') data i) (w_ext w) of
            (Inl e, x) \<Rightarrow> (Inl e, w\<lparr>w_ext := x, w_trace := w_trace w @ [Called (GitCommit (script_path_of i))]\<rparr>)
          | (Inr sha, x) \<Rightarrow>
              (case create_tx i t data actor sha (build_lock_deadline ts (w_clock w)) (w_clock w) (w_db w) of
                 Inl e \<Rightarrow> (Inl e, w\<lparr>w_ext := x, w_trace := w_trace w @ [Called (GitCommit (script_path_of i))]\<rparr>)
               | Inr (a, d) \<Rightarrow> (Inr a, w\<lparr>w_db := d, w_ext := x,
                   w_trace := w_trace w @ [Called (GitCommit (script_path_of i)), Committed]\<rparr>))))"
  using assms
  by (simp add: create_automation_def io_bind_def io_lift_def io_call_def io_now_def get_session_alone
      commit_message_def split: sum.splits prod.splits)

lemma update_alone:
  assumes "w_env w = []" and "authoring_ok env data"
    and "claim_build_tx t i data (build_lock_deadline ts (w_clock w)) (w_clock w) (w_db w) = Inr (c, d1)"
  shows "update_automation env ts git t i data actor w =
    (case g_commit_script git (bc_script_path c) (in_script data)
         (commit_message (str ''edit '') data i) (w_ext w) of
       (Inl e, x) \<Rightarrow> (Inl e, w\<lparr>w_db := snd (projr (release_build_claim_tx c (w_clock w) d1)), w_ext := x,
          w_trace := w_trace w @ [Committed, Called (GitCommit (bc_script_path c)), Committed]\<rparr>)
     | (Inr sha, x) \<Rightarrow>
         (case finish_edit_tx t i data actor c sha (w_clock w) d1 of
            Inl e \<Rightarrow> (Inl e, w\<lparr>w_db := d1, w_ext := x,
              w_trace := w_trace w @ [Committed, Called (GitCommit (bc_script_path c))]\<rparr>)
          | Inr (a, d) \<Rightarrow> (Inr a, w\<lparr>w_db := d, w_ext := x,
              w_trace := w_trace w @ [Committed, Called (GitCommit (bc_script_path c)), Committed]\<rparr>)))"
proof -
  have "validated env data = Inr ()" using assms(2) by (simp add: validated_Inr_iff)
  with assms(1,3) show ?thesis
    by (simp add: update_automation_def io_bind_def io_lift_def io_call_def io_catch_def io_raise_def
        claim_build_alone release_alone get_session_alone commit_message_def
        split: sum.splits prod.splits)
qed

text \<open>The rows a list request asks for.\<close>

definition listable ::
  "pystr \<Rightarrow> pystr option \<Rightarrow> matching_state option \<Rightarrow> build_state option \<Rightarrow> automation \<Rightarrow> bool" where
  "listable t ns ms bs a \<longleftrightarrow> a_tenant_id a = t
     \<and> (case ns of None \<Rightarrow> True | Some n \<Rightarrow> a_namespace a = n)
     \<and> (case ms of None \<Rightarrow> True | Some m \<Rightarrow> a_matching_state a = m)
     \<and> (case bs of None \<Rightarrow> True | Some b \<Rightarrow> a_build_state a = b)"

section \<open>Properties\<close>

text \<open>C8. Creating an automation with no concurrent request: either it fails, and then the
  database is exactly what it was (whether validation, the git commit or the insert failed),
  or the payload satisfied every authoring rule, git accepted the script under the returned
  commit, and the database gained exactly one row (the tenant's, inactive, building that
  commit, its other fields from the payload) and exactly one \<open>create\<close> revision of that commit.\<close>

theorem create_all_or_nothing:
  assumes "w_env w = []" and "create_automation env ts git i t data actor w = (r, w')"
  shows "case r of
      Inl e \<Rightarrow> w_db w' = w_db w
    | Inr a \<Rightarrow> authoring_ok env data
        \<and> (\<exists>sha x. g_commit_script git (script_path_of i) (in_script data)
              (commit_message (str ''create '') data i) (w_ext w) = (Inr sha, x)
            \<and> a = new_automation i t data actor sha (build_lock_deadline ts (w_clock w)) (w_clock w)
            \<and> automations (w_db w') = automations (w_db w) @ [a]
            \<and> revisions (w_db w') = revisions (w_db w) @
                [\<lparr>rv_automation_id = i, rv_action = CREATE, rv_git_sha = Some sha,
                  rv_resulting_digest = None, rv_actor = actor, rv_created_at = w_clock w\<rparr>]
            \<and> runs (w_db w') = runs (w_db w))"
proof (cases "validated env data")
  case (Inl e)
  with assms show ?thesis by (auto simp: create_alone)
next
  case (Inr u)
  then have ok: "authoring_ok env data" by (simp add: validated_Inr_iff)
  obtain gr x where g: "g_commit_script git (script_path_of i) (in_script data)
      (commit_message (str ''create '') data i) (w_ext w) = (gr, x)" by fastforce
  show ?thesis
  proof (cases gr)
    case (Inl e)
    with assms Inr g show ?thesis by (auto simp: create_alone)
  next
    case (Inr sha)
    show ?thesis
    proof (cases "create_tx i t data actor sha (build_lock_deadline ts (w_clock w)) (w_clock w) (w_db w)")
      case (Inl e)
      with assms Inr g \<open>validated env data = Inr u\<close> show ?thesis by (auto simp: create_alone)
    next
      case (Inr p)
      obtain a d where p: "p = (a, d)" by (cases p)
      with assms Inr g \<open>gr = Inr sha\<close> \<open>validated env data = Inr u\<close>
      have r: "r = Inr a" "w_db w' = d" by (auto simp: create_alone)
      from Inr p obtain d1 where "a = new_automation i t data actor sha (build_lock_deadline ts (w_clock w)) (w_clock w)"
        and "insert_automation a (w_db w) = Inr d1"
        and "d = add_revision \<lparr>rv_automation_id = i, rv_action = CREATE, rv_git_sha = Some sha,
                rv_resulting_digest = None, rv_actor = actor, rv_created_at = w_clock w\<rparr> d1"
        by (auto elim: create_tx_InrD)
      with r ok g \<open>gr = Inr sha\<close> show ?thesis
        by (auto simp: table_simps dest: insert_automation_InrD(1))
    qed
  qed
qed

theorem create_all_or_nothing_witness:
  "case create_automation sample_env 1800 (sample_git (\<lambda>x. (Inr sample_sha, x))) 8 (str ''acme'')
       sample_data (str ''ann'') (sample_world [] 0 (sample_row INACTIVE IDLE None None None)) of
     (r, w') \<Rightarrow> (\<exists>a. r = Inr a \<and> length (automations (w_db w')) = 2 \<and> a_building_sha a = Some sample_sha)"
proof -
  let ?w = "sample_world [] (0::nat) (sample_row INACTIVE IDLE None None None)"
  let ?run = "create_automation sample_env 1800 (sample_git (\<lambda>x. (Inr sample_sha, x))) 8 (str ''acme'')
    sample_data (str ''ann'') ?w"
  obtain r w' where run: "?run = (r, w')" by (cases ?run)
  have "validated sample_env sample_data = Inr ()" using sample_authoring_ok by (simp add: validated_Inr_iff)
  then have "\<exists>a. r = Inr a" using run
    by (auto simp: create_alone sample_git_def create_tx_def insert_automation_def new_automation_def Let_def
        sample_id_def)
  with create_all_or_nothing [OF _ run] run show ?thesis by (auto simp: new_automation_def sample_git_def)
qed



text \<open>An edit whose claim was lost does not touch the row: when another request moves the
  row to a different build-lock deadline (or out of \<open>building\<close>) while the script is being
  committed, the edit raises \<open>AutomationEditSupersededError\<close> and the database is exactly what
  that other request left, with no revision of the edit.\<close>

lemma superseded_edit_writes_nothing:
  assumes "w_env w = [ce, fe]" and "se_outcome ce = Lands" and "se_outcome fe = Lands"
    and "authoring_ok env data"
    and "claim_build_tx t i data (build_lock_deadline ts (w_clock w)) (w_clock w + int (se_elapse ce))
           (se_interfere ce (w_db w)) = Inr (c, d1)"
    and "g_commit_script git (bc_script_path c) (in_script data) (commit_message (str ''edit '') data i) (w_ext w)
           = (Inr sha, x)"
    and "scoped_get t i (se_interfere fe d1) = Inr a"
    and "a_build_state a \<noteq> BUILDING \<or> a_build_lock_deadline a \<noteq> Some (bc_deadline c)"
    and "update_automation env ts git t i data actor w = (r, w')"
  shows "r = Inl AutomationEditSupersededError \<and> w_db w' = se_interfere fe d1"
proof -
  have "validated env data = Inr ()" using assms(4) by (simp add: validated_Inr_iff)
  with assms(1-3,5-9) show ?thesis
    by (auto simp: update_automation_def claim_build_def io_bind_def io_lift_def io_now_def io_catch_def
        io_call_def get_session_def begin_session_def commit_message_def finish_edit_tx_def)
qed

lemma superseded_edit_writes_nothing_witness:
  "case update_automation sample_env 1800 (sample_git (\<lambda>x. (Inr sample_sha, x)))
       (str ''acme'') sample_id sample_data (str ''ann'')
       (sample_world [\<lparr>se_interfere = id, se_elapse = 0, se_outcome = Lands\<rparr>,
          \<lparr>se_interfere = (\<lambda>d. sample_db (sample_row ACTIVE BUILDING (Some sample_sha) None None)),
           se_elapse = 5, se_outcome = Lands\<rparr>] 0 (sample_row ACTIVE IDLE None None None)) of
     (r, w') \<Rightarrow> r = Inl AutomationEditSupersededError
       \<and> w_db w' = sample_db (sample_row ACTIVE BUILDING (Some sample_sha) None None)"
proof -
  let ?e1 = "\<lparr>se_interfere = id, se_elapse = 0, se_outcome = Lands\<rparr>"
  let ?e2 = "\<lparr>se_interfere = (\<lambda>d. sample_db (sample_row ACTIVE BUILDING (Some sample_sha) None None)),
    se_elapse = 5, se_outcome = Lands\<rparr>"
  let ?w = "sample_world [?e1, ?e2] (0::nat) (sample_row ACTIVE IDLE None None None)"
  let ?run = "update_automation sample_env 1800 (sample_git (\<lambda>x. (Inr sample_sha, x)))
    (str ''acme'') sample_id sample_data (str ''ann'') ?w"
  obtain r w' where run: "?run = (r, w')" by (cases ?run)
  obtain c d1 where claim: "claim_build_tx (str ''acme'') sample_id sample_data
      (build_lock_deadline 1800 (w_clock ?w)) (w_clock ?w + int (se_elapse ?e1)) (se_interfere ?e1 (w_db ?w))
      = Inr (c, d1)" and c: "bc_deadline c = 1800000100"
    by (simp add: claim_build_tx_def scoped_get_def check_wallet_unchanged_def build_lock_deadline_def)
  have "r = Inl AutomationEditSupersededError \<and> w_db w' = se_interfere ?e2 d1"
    by (rule superseded_edit_writes_nothing 
        [where fe = ?e2 and a = "sample_row ACTIVE BUILDING (Some sample_sha) None None",
         OF _ _ _ sample_authoring_ok claim])
      (use run c in \<open>simp_all add: sample_git_def scoped_get_def\<close>)
  with run show ?thesis by simp
qed

text \<open>C40. The list endpoint's query returns rows of the caller's tenant only, all satisfying
  the filters, newest first, at most 1000 of them; a row it leaves out is never newer than one
  it returns, and nothing is left out below the limit.\<close>

theorem list_query_correct:
  "list_all (\<lambda>a. a \<in> set (automations d) \<and> listable t ns ms bs a) (list_query t ns ms bs d)
    \<and> sorted_wrt (\<lambda>a b. a_created_at b \<le> a_created_at a) (list_query t ns ms bs d)
    \<and> length (list_query t ns ms bs d) = min LIST_LIMIT (length (filter (listable t ns ms bs) (automations d)))
    \<and> (\<exists>rest. mset (list_query t ns ms bs d @ rest) = mset (filter (listable t ns ms bs) (automations d))
        \<and> list_all (\<lambda>b. list_all (\<lambda>a. a_created_at b \<le> a_created_at a) (list_query t ns ms bs d)) rest)"
proof -
  let ?s = "sort_key (\<lambda>a. - a_created_at a) (filter (listable t ns ms bs) (automations d))"
  have q: "list_query t ns ms bs d = take LIST_LIMIT ?s" by (simp add: list_query_def listable_def [abs_def])
  have sorted: "sorted_wrt (\<lambda>a b. a_created_at b \<le> a_created_at a) ?s"
    using sorted_sort_key [of "\<lambda>a. - a_created_at a" "filter (listable t ns ms bs) (automations d)"]
    by (simp add: sorted_map)
  have "list_all (\<lambda>a. a \<in> set (automations d) \<and> listable t ns ms bs a) (take LIST_LIMIT ?s)"
    by (auto simp: list_all_iff dest!: in_set_takeD)
  moreover have "sorted_wrt (\<lambda>a b. a_created_at b \<le> a_created_at a) (take LIST_LIMIT ?s)"
    using sorted by (rule sorted_wrt_take)
  moreover have "mset (take LIST_LIMIT ?s @ drop LIST_LIMIT ?s) = mset (filter (listable t ns ms bs) (automations d))"
    by simp
  moreover have "list_all (\<lambda>b. list_all (\<lambda>a. a_created_at b \<le> a_created_at a) (take LIST_LIMIT ?s)) (drop LIST_LIMIT ?s)"
  proof -
    have "sorted_wrt (\<lambda>a b. a_created_at b \<le> a_created_at a) (take LIST_LIMIT ?s @ drop LIST_LIMIT ?s)"
      using sorted by simp
    then show ?thesis unfolding sorted_wrt_append by (auto simp only: list_all_iff)
  qed
  moreover have "length (take LIST_LIMIT ?s) = min LIST_LIMIT (length (filter (listable t ns ms bs) (automations d)))"
    by simp
  ultimately show ?thesis unfolding q by blast
qed

end
