(* ===== verification/Lifecycle_Correct.thy ===== *)
theory Lifecycle_Correct
  imports Samples
begin

text \<open>
  Enable, disable and the admission of a delete as whole requests: what each leaves when it
  runs alone, when the reload signal goes out, and that a toggle never leaves the database.
\<close>

section \<open>Properties\<close>

text \<open>C33. Enabling with no concurrent request: it fails without writing or signalling
  anything, or the tenant's row was outside deletion and had a non-blank built digest, and
  then the row is active with its generation one higher, one \<open>enable\<close> revision with that
  digest was appended, and the reload signal followed the commit.\<close>

theorem enable_all_or_nothing:
  assumes "w_env w = []" and "enable_automation t i actor w = (r, w')"
  shows "case r of
      Inl e \<Rightarrow> w' = w
    | Inr a' \<Rightarrow> (\<exists>a s. scoped_get t i (w_db w) = Inr a \<and> a_matching_state a \<notin> set DELETION_STATES
        \<and> a_active_digest a = Some s \<and> \<not> blank s
        \<and> a' = a\<lparr>a_matching_state := ACTIVE, a_index_generation := a_index_generation a + 1,
                 a_updated_by := actor, a_updated_at := w_clock w\<rparr>
        \<and> w_db w' = add_revision
            \<lparr>rv_automation_id = i, rv_action = ENABLE, rv_git_sha = None,
             rv_resulting_digest = Some s, rv_actor = actor, rv_created_at = w_clock w\<rparr>
            (put_automation a' (w_db w))
        \<and> w_trace w' = w_trace w @ [Committed, PublishReload])"
proof (cases "toggle_tx t i actor ACTIVE ENABLE (w_clock w) (w_db w)")
  case (Inl e)
  with assms show ?thesis by (auto simp: enable_automation_def toggle_def io_bind_def io_simps)
next
  case (Inr p)
  obtain a' d' where p: "p = (a', d')" by (cases p)
  with Inr assms have r: "r = Inr a'" "w_db w' = d'" "w_trace w' = w_trace w @ [Committed, PublishReload]"
    by (auto simp: enable_automation_def toggle_def io_bind_def io_simps)
  from Inr [unfolded p] obtain a where a: "scoped_get t i (w_db w) = Inr a"
      "a_matching_state a \<notin> set DELETION_STATES"
    and dg: "\<exists>s. a_active_digest a = Some s \<and> \<not> blank s"
    and a': "a' = a\<lparr>a_matching_state := ACTIVE, a_index_generation := a_index_generation a + 1,
                a_updated_by := actor, a_updated_at := w_clock w\<rparr>"
    and d': "d' = add_revision \<lparr>rv_automation_id = i, rv_action = ENABLE, rv_git_sha = None,
            rv_resulting_digest = a_active_digest a, rv_actor = actor, rv_created_at = w_clock w\<rparr>
           (put_automation a' (w_db w))"
    by (rule toggle_tx_InrD) blast
  from dg obtain s where "a_active_digest a = Some s" "\<not> blank s" by auto
  with r a a' d' show ?thesis by auto
qed

theorem enable_all_or_nothing_witness:
  "case enable_automation (str ''acme'') sample_id (str ''ann'')
       (sample_world [] () (sample_row INACTIVE BUILDING (Some sample_sha) None None)) of
     (r, w') \<Rightarrow> (\<exists>a'. r = Inr a' \<and> a_matching_state a' = ACTIVE \<and> a_index_generation a' = 4)"
proof -
  let ?w = "sample_world [] () (sample_row INACTIVE BUILDING (Some sample_sha) None None)"
  let ?run = "enable_automation (str ''acme'') sample_id (str ''ann'') ?w"
  obtain r w' where run: "?run = (r, w')" by (cases ?run)
  have "\<exists>a. r = Inr a"
    using run digest_ref_not_blank [OF sample_image_digest]
    by (auto simp: enable_automation_def toggle_def io_bind_def io_simps toggle_tx_def scoped_get_def Let_def)
  with enable_all_or_nothing [OF _ run] run show ?thesis by (auto simp: scoped_get_def)
qed

text \<open>The reload signal of an enable, a disable or a delete admission goes out only after
  the transaction that makes it true has committed: in every interleaving and with every
  database fault, a request that returns has emitted its commit and then the signal (or
  neither, for a delete that was already admitted), and one that raises has emitted no signal.\<close>

lemma reload_only_after_commit:
  "(case enable_automation t i actor w of
      (Inr a, w') \<Rightarrow> w_trace w' = w_trace w @ [Committed, PublishReload]
    | (Inl e, w') \<Rightarrow> w_trace w' = w_trace w \<or> w_trace w' = w_trace w @ [Committed])
   \<and> (case disable_automation t i actor w of
      (Inr a, w') \<Rightarrow> w_trace w' = w_trace w @ [Committed, PublishReload]
    | (Inl e, w') \<Rightarrow> w_trace w' = w_trace w \<or> w_trace w' = w_trace w @ [Committed])
   \<and> (case begin_delete t i actor w of
      (Inr adm, w') \<Rightarrow> w_trace w' = w_trace w @ (if da_started adm then [Committed, PublishReload] else [])
    | (Inl e, w') \<Rightarrow> w_trace w' = w_trace w \<or> w_trace w' = w_trace w @ [Committed])"
proof (intro conjI)
  have toggle: "case toggle t i actor target action w of
      (Inr a, w') \<Rightarrow> w_trace w' = w_trace w @ [Committed, PublishReload]
    | (Inl e, w') \<Rightarrow> w_trace w' = w_trace w \<or> w_trace w' = w_trace w @ [Committed]" for target action
    by (auto simp: toggle_def io_bind_def io_log_def io_return_def get_session_def
        dest!: begin_session_trace split: prod.splits sum.splits session_outcome.splits)
  from toggle [of ACTIVE ENABLE] show "case enable_automation t i actor w of
      (Inr a, w') \<Rightarrow> w_trace w' = w_trace w @ [Committed, PublishReload]
    | (Inl e, w') \<Rightarrow> w_trace w' = w_trace w \<or> w_trace w' = w_trace w @ [Committed]"
    by (simp add: enable_automation_def)
  from toggle [of INACTIVE DISABLE] show "case disable_automation t i actor w of
      (Inr a, w') \<Rightarrow> w_trace w' = w_trace w @ [Committed, PublishReload]
    | (Inl e, w') \<Rightarrow> w_trace w' = w_trace w \<or> w_trace w' = w_trace w @ [Committed]"
    by (simp add: disable_automation_def)
  have started: "da_started adm \<longleftrightarrow> d' \<noteq> None" if "begin_delete_tx t i actor now d = Inr (adm, d')" for adm d' now d
    using that by (auto simp: begin_delete_tx_def Let_def split: sum.splits if_splits)
  obtain oc w1 where b: "begin_session w = (oc, w1)" by (cases "begin_session w")
  show "case begin_delete t i actor w of
      (Inr adm, w') \<Rightarrow> w_trace w' = w_trace w @ (if da_started adm then [Committed, PublishReload] else [])
    | (Inl e, w') \<Rightarrow> w_trace w' = w_trace w \<or> w_trace w' = w_trace w @ [Committed]"
    using begin_session_trace [OF b] started [of "w_clock w1" "w_db w1"] b
    by (auto simp: begin_delete_def io_bind_def io_log_def io_return_def get_session_opt_def
        split: prod.splits sum.splits session_outcome.splits option.splits if_splits)
qed

text \<open>Enable and disable change matching only: in every world they call no external
  system (CAPP keeps serving) and publish no build event.\<close>

lemma toggle_calls_nothing_external:
  "emits (enable_automation t i actor) {Committed, PublishReload}
   \<and> emits (disable_automation t i actor) {Committed, PublishReload}"
  unfolding enable_automation_def disable_automation_def toggle_def
  by (intro conjI emits_rules) simp_all

end
