(* ===== verification/Builds_Correct.thy ===== *)
theory Builds_Correct
  imports Samples
begin

text \<open>
  The CI webhook as a whole request: what every path leaves when it runs alone, redelivery,
  the two races with a failure report and with a deletion, the lost cutover write, and the
  binding of the image to the automation in every environment.
\<close>

section \<open>Helpers\<close>

lemma deploy_frame:
  assumes "deploy capp event target w = (r, w1)"
  shows "w_db w1 = w_db w" and "w_env w1 = w_env w" and "w_clock w1 = w_clock w"
    and "\<exists>c. w_trace w1 = w_trace w @ [Called c]"
  using assms
  by (auto simp: deploy_def Let_def io_bind_def io_call_def io_return_def split: option.splits prod.splits sum.splits)

definition failed_row :: "automation \<Rightarrow> datetime \<Rightarrow> automation" where
  "failed_row a now = a\<lparr>a_build_state := BUILD_FAILED, a_building_sha := None,
     a_build_lock_deadline := None, a_updated_at := now\<rparr>"

definition failure_db :: "database \<Rightarrow> automation \<Rightarrow> ci_webhook_in \<Rightarrow> datetime \<Rightarrow> database" where
  "failure_db d a event now =
     add_revision (build_revision event REV_BUILD_FAILED None now) (put_automation (failed_row a now) d)"

lemma record_failure_tx_eq:
  assumes "load (e_automation_id event) d = Inr a"
  shows "record_failure_tx event now d =
    (case admission a (e_commit_sha event) of
       Some r \<Rightarrow> Inr (Inl r, None)
     | None \<Rightarrow> Inr (Inr (build_event_of (failed_row a now) (e_commit_sha event)), Some (failure_db d a event now)))"
  using assms by (simp add: record_failure_tx_def failure_db_def failed_row_def Let_def split: option.splits)

lemma apply_ignored_alone:
  assumes "w_env w = []" and "load (e_automation_id event) (w_db w) = Inr a"
    and "admission a (e_commit_sha event) = Some reason"
  shows "apply_build_result repo capp del event w = (Inr (ignored reason), w)"
  using assms by (simp add: apply_build_result_def Let_def io_bind_def io_simps)

lemma apply_missing_alone:
  assumes "w_env w = []" and "load (e_automation_id event) (w_db w) = Inl e"
  shows "apply_build_result repo capp del event w = (Inl e, w)"
  using assms by (simp add: apply_build_result_def Let_def io_bind_def io_simps)

lemma apply_failure_alone:
  assumes "w_env w = []" and "load (e_automation_id event) (w_db w) = Inr a"
    and "admission a (e_commit_sha event) = None" and "e_status event = OUTCOME_FAILED"
  shows "apply_build_result repo capp del event w =
    (Inr applied, w\<lparr>w_db := failure_db (w_db w) a event (w_clock w),
       w_trace := w_trace w @ [Committed,
         PublishEvent (build_event_of (failed_row a (w_clock w)) (e_commit_sha event))]\<rparr>)"
  using assms
  by (simp add: apply_build_result_def record_failure_def Let_def io_bind_def io_simps record_failure_tx_eq)

lemma apply_refused_alone:
  assumes "w_env w = []" and "load (e_automation_id event) (w_db w) = Inr a"
    and "admission a (e_commit_sha event) = None" and "e_status event = SUCCESS"
    and "require_own_image repo event = Inl e"
  shows "apply_build_result repo capp del event w = (Inl e, w)"
  using assms by (simp add: apply_build_result_def Let_def io_bind_def io_simps io_lift_def)

lemma apply_capp_failed_alone:
  assumes "w_env w = []" and "load (e_automation_id event) (w_db w) = Inr a"
    and "admission a (e_commit_sha event) = None" and "e_status event = SUCCESS"
    and "require_own_image repo event = Inr u" and "deploy capp event (target_of a) w = (Inl e, w1)"
  shows "apply_build_result repo capp del event w = (Inl e, w1)"
  using assms by (simp add: apply_build_result_def Let_def io_bind_def io_simps io_lift_def)

lemma apply_success_alone:
  assumes "w_env w = []" and "load (e_automation_id event) (w_db w) = Inr a"
    and "admission a (e_commit_sha event) = None" and "e_status event = SUCCESS"
    and "require_own_image repo event = Inr u" and "deploy capp event (target_of a) w = (Inr created, w1)"
  shows "apply_build_result repo capp del event w =
    (Inr applied, w1\<lparr>w_db := cut_over_db (w_db w) a event created (w_clock w),
       w_trace := w_trace w1 @ [Committed, PublishReload,
         PublishEvent (build_event_of (cut_over_row a event created (w_clock w)) (e_commit_sha event))]\<rparr>)"
proof -
  note f = deploy_frame [OF assms(6)]
  have "admitted_at_commit (w_db w) a (e_commit_sha event)"
    using assms(3) by (simp add: admitted_at_commit_def admission_None_iff)
  then show ?thesis using assms f
    by (simp add: apply_build_result_def commit_cut_over_def Let_def io_bind_def io_catch_def io_simps
        io_lift_def cut_over_tx_cases)
qed

text \<open>The paths of a webhook that runs alone.\<close>

lemma apply_alone_cases:
  assumes "w_env w = []" and "apply_build_result repo capp del event w = (r, w')"
  obtains
    (missing) e where "load (e_automation_id event) (w_db w) = Inl e" "r = Inl e" "w' = w"
  | (ignored) a reason where "load (e_automation_id event) (w_db w) = Inr a"
      "admission a (e_commit_sha event) = Some reason" "r = Inr (ignored reason)" "w' = w"
  | (failed) a where "load (e_automation_id event) (w_db w) = Inr a"
      "admission a (e_commit_sha event) = None" "e_status event = OUTCOME_FAILED" "r = Inr applied"
      "w' = w\<lparr>w_db := failure_db (w_db w) a event (w_clock w),
         w_trace := w_trace w @ [Committed,
           PublishEvent (build_event_of (failed_row a (w_clock w)) (e_commit_sha event))]\<rparr>"
  | (refused) e where "e_status event = SUCCESS" "require_own_image repo event = Inl e" "r = Inl e" "w' = w"
  | (capp_failed) a e where "load (e_automation_id event) (w_db w) = Inr a" "e_status event = SUCCESS"
      "deploy capp event (target_of a) w = (Inl e, w')" "r = Inl e"
  | (cut_over) a created w1 where "load (e_automation_id event) (w_db w) = Inr a"
      "admission a (e_commit_sha event) = None" "e_status event = SUCCESS"
      "require_own_image repo event = Inr ()" "deploy capp event (target_of a) w = (Inr created, w1)"
      "r = Inr applied"
      "w' = w1\<lparr>w_db := cut_over_db (w_db w) a event created (w_clock w),
         w_trace := w_trace w1 @ [Committed, PublishReload,
           PublishEvent (build_event_of (cut_over_row a event created (w_clock w)) (e_commit_sha event))]\<rparr>"
proof (cases "load (e_automation_id event) (w_db w)")
  case (Inl e)
  with apply_missing_alone [OF assms(1) Inl] assms(2) show ?thesis by (intro missing) auto
next
  case (Inr a)
  note load = Inr
  show ?thesis
  proof (cases "admission a (e_commit_sha event)")
    case (Some reason)
    with apply_ignored_alone [OF assms(1) load Some] assms(2) load show ?thesis by (intro ignored) auto
  next
    case None
    show ?thesis
    proof (cases "e_status event")
      case OUTCOME_FAILED
      with apply_failure_alone [OF assms(1) load None] assms(2) load None show ?thesis
        by (intro failed) auto
    next
      case SUCCESS
      obtain dr w1 where dep: "deploy capp event (target_of a) w = (dr, w1)"
        by (cases "deploy capp event (target_of a) w")
      show ?thesis
      proof (cases "require_own_image repo event")
        case (Inl e)
        with apply_refused_alone [OF assms(1) load None SUCCESS] assms(2) SUCCESS show ?thesis
          by (intro refused) auto
      next
        case (Inr u)
        note own = Inr
        show ?thesis
        proof (cases dr)
          case (Inl e)
          with apply_capp_failed_alone [OF assms(1) load None SUCCESS own] dep assms(2) load SUCCESS
          show ?thesis by (intro capp_failed) auto
        next
          case (Inr created)
          with apply_success_alone [OF assms(1) load None SUCCESS own] dep assms(2) load None SUCCESS own
          show ?thesis by (intro cut_over) auto
        qed
      qed
    qed
  qed
qed

section \<open>Samples\<close>

definition sample_event :: "build_outcome \<Rightarrow> ci_webhook_in" where
  "sample_event outcome = \<lparr>e_automation_id = sample_id, e_commit_sha = sample_sha, e_status = outcome,
     e_image = Some sample_image, e_contract_version = Some (str ''1'')\<rparr>"

definition sample_capp :: "(nat, capp_deployment) client \<Rightarrow> nat capp_client" where
  "sample_capp create = \<lparr>c_create_deployment = (\<lambda>i w im refs. create), c_rollout = (\<lambda>d im refs x. (Inr (), x))\<rparr>"

definition sample_deletion :: "nat capp_deletion_client" where
  "sample_deletion = \<lparr>d_delete_capp = (\<lambda>w n x. (Inr (), x)), d_delete_secret = (\<lambda>w n x. (Inr (), x))\<rparr>"

definition sample_deployment :: capp_deployment where
  "sample_deployment = \<lparr>deployment_id = str ''dep'', deployment_url = str ''url''\<rparr>"

lemma sample_event_simps [simp]:
  "e_automation_id (sample_event oc) = sample_id" "e_commit_sha (sample_event oc) = sample_sha"
  "e_status (sample_event oc) = oc" "e_image (sample_event oc) = Some sample_image"
  by (simp_all add: sample_event_def)

lemma sample_load [simp]: "load sample_id (sample_db (sample_row ms bs sha step dep)) = Inr (sample_row ms bs sha step dep)"
  by (simp add: load_def find_automation_def)

lemma sample_own_image: "require_own_image sample_repo (sample_event oc) = Inr ()"
  by (simp add: require_own_image_def sample_repo_valid sample_image_repository)

lemma sample_admission: "admission (sample_row INACTIVE BUILDING (Some sample_sha) None dep) sample_sha = None"
  by (simp add: admission_None_iff)

lemma sample_deploy:
  "deploy (sample_capp create) (sample_event oc) (target_of (sample_row ms bs sha step None)) w
     = (case create (w_ext w) of
          (Inl e, x) \<Rightarrow> (Inl e, w\<lparr>w_ext := x, w_trace := w_trace w @ [Called (CappCreate sample_id (str ''wallet'') sample_image [])]\<rparr>)
        | (Inr dep, x) \<Rightarrow> (Inr (Some dep), w\<lparr>w_ext := x,
            w_trace := w_trace w @ [Called (CappCreate sample_id (str ''wallet'') sample_image [])]\<rparr>))"
  by (auto simp: deploy_def Let_def target_of_def sample_capp_def io_bind_def io_call_def io_return_def
      secret_refs_of_def sample_row_def split: prod.splits sum.splits)

section \<open>Properties\<close>

text \<open>C4. A CI webhook with no concurrent request either raises and leaves the database as it
  was with nothing signalled (unknown automation, foreign image, CAPP failure), or is ignored
  and leaves the whole world as it was with no CAPP call (the row is deleting, not building, or
  building another commit), or is applied to a row that was building exactly this commit: a
  success cuts the row over to the reported image once CAPP accepted it, a failure only
  releases the build; both write one audit revision and then publish.\<close>

theorem webhook_all_or_nothing:
  assumes "w_env w = []" and "apply_build_result repo capp del event w = (r, w')"
  shows "case r of
      Inl e \<Rightarrow> w_db w' = w_db w \<and> (\<exists>tr. w_trace w' = w_trace w @ tr \<and> set tr \<subseteq> range Called)
    | Inr out \<Rightarrow> \<exists>a. load (e_automation_id event) (w_db w) = Inr a \<and>
        (case admission a (e_commit_sha event) of
           Some reason \<Rightarrow> out = ignored reason \<and> w' = w
         | None \<Rightarrow> out = applied \<and>
             (case e_status event of
                OUTCOME_FAILED \<Rightarrow> w_db w' = failure_db (w_db w) a event (w_clock w)
                  \<and> w_trace w' = w_trace w @ [Committed,
                      PublishEvent (build_event_of (failed_row a (w_clock w)) (e_commit_sha event))]
              | SUCCESS \<Rightarrow> require_own_image repo event = Inr () \<and>
                  (\<exists>c created. w_db w' = cut_over_db (w_db w) a event created (w_clock w)
                    \<and> w_trace w' = w_trace w @ [Called c, Committed, PublishReload,
                        PublishEvent (build_event_of (cut_over_row a event created (w_clock w))
                          (e_commit_sha event))])))"
  using assms
proof (rule apply_alone_cases, goal_cases)
  case (5 a e)
  with deploy_frame [of capp event "target_of a" w "Inl e" w'] show ?case by auto
next
  case (6 a created w1)
  with deploy_frame [of capp event "target_of a" w "Inr created" w1] show ?case by fastforce
qed auto

theorem webhook_all_or_nothing_witness:
  "case apply_build_result sample_repo (sample_capp (\<lambda>x. (Inr sample_deployment, x))) None (sample_event SUCCESS)
       (sample_world [] 0 (sample_row INACTIVE BUILDING (Some sample_sha) None None)) of
     (r, w') \<Rightarrow> r = Inr applied \<and> PublishReload \<in> set (w_trace w')"
proof -
  let ?w = "sample_world [] (0::nat) (sample_row INACTIVE BUILDING (Some sample_sha) None None)"
  let ?run = "apply_build_result sample_repo (sample_capp (\<lambda>x. (Inr sample_deployment, x))) None
    (sample_event SUCCESS) ?w"
  obtain r w' where run: "?run = (r, w')" by (cases ?run)
  have dep: "deploy (sample_capp (\<lambda>x. (Inr sample_deployment, x))) (sample_event SUCCESS)
      (target_of (sample_row INACTIVE BUILDING (Some sample_sha) None None)) ?w
    = (Inr (Some sample_deployment), ?w\<lparr>w_trace := [Called (CappCreate sample_id (str ''wallet'') sample_image [])]\<rparr>)"
    by (simp add: sample_deploy sample_world_def)
  from apply_success_alone [OF _ _ _ _ sample_own_image dep] run have "r = Inr applied"
    by (simp add: sample_admission)
  with webhook_all_or_nothing [OF _ run] run sample_admission show ?thesis by auto
qed

text \<open>C29. Delivery is idempotent: with no concurrent request, when a webhook, success or
  failure, was applied, delivering the same webhook again is ignored as \<open>not_building\<close> and
  changes nothing at all, CAPP included.\<close>

theorem redelivery_ignored:
  assumes "w_env w = []" and "apply_build_result repo capp del event w = (Inr applied, w1)"
  shows "apply_build_result repo capp' del' event w1 = (Inr (ignored NOT_BUILDING), w1)"
  using assms
proof (rule apply_alone_cases, goal_cases)
  case (3 a)
  have "load (e_automation_id event) (w_db w1) = Inr (failed_row a (w_clock w))"
    using load_InrD [OF 3(1)] by (simp add: 3(5) failure_db_def failed_row_def load_def table_simps)
  moreover have "admission (failed_row a (w_clock w)) (e_commit_sha event) = Some NOT_BUILDING"
    using 3(2) by (auto simp: admission_None_iff admission_def failed_row_def)
  ultimately show ?case using assms(1) by (intro apply_ignored_alone) (simp_all add: 3(5))
next
  case (6 a created w2)
  have "load (e_automation_id event) (w_db w1) = Inr (cut_over_row a event created (w_clock w))"
    using load_InrD [OF 6(1)] by (simp add: 6(7) cut_over_db_def load_def table_simps)
  moreover have "admission (cut_over_row a event created (w_clock w)) (e_commit_sha event) = Some NOT_BUILDING"
    using 6(2) by (auto simp: admission_None_iff admission_def)
  ultimately show ?case using assms(1) deploy_frame(2) [OF 6(5)]
    by (intro apply_ignored_alone) (simp_all add: 6(7))
qed (simp_all add: ignored_def applied_def)

theorem redelivery_ignored_witness:
  "case apply_build_result [] UnconfiguredCappClient None (sample_event OUTCOME_FAILED)
       (sample_world [] (0::nat) (sample_row INACTIVE BUILDING (Some sample_sha) None None)) of
     (r, w1) \<Rightarrow> r = Inr applied \<and>
       apply_build_result [] UnconfiguredCappClient None (sample_event OUTCOME_FAILED) w1
         = (Inr (ignored NOT_BUILDING), w1)"
proof -
  let ?w = "sample_world [] (0::nat) (sample_row INACTIVE BUILDING (Some sample_sha) None None)"
  let ?run = "apply_build_result [] UnconfiguredCappClient None (sample_event OUTCOME_FAILED) ?w"
  obtain w1 where run: "?run = (Inr applied, w1)"
    using apply_failure_alone [of ?w "sample_event OUTCOME_FAILED"] by (simp add: sample_admission)
  from redelivery_ignored [OF _ run] run show ?thesis by simp
qed

section \<open>Races and faults between the CAPP call and the commit\<close>

definition quiet :: session_env where
  "quiet = \<lparr>se_interfere = (\<lambda>d. d), se_elapse = 0, se_outcome = Lands\<rparr>"

lemma begin_quiet: "w_env w = quiet # es \<Longrightarrow> begin_session w = (Lands, w\<lparr>w_env := es\<rparr>)"
  by (simp add: begin_session_def quiet_def)

abbreviation finish_webhook ::
  "'x capp_deletion_client \<Rightarrow> ci_webhook_in \<Rightarrow> build_target \<Rightarrow> capp_deployment option
     \<Rightarrow> ignored_reason + build_event \<Rightarrow> ('x, ci_webhook_out) io" where
  "finish_webhook del event target created res \<equiv>
     (case res of
        Inl reason \<Rightarrow>
          io_bind
            (if reason = REASON_DELETING
             then tear_down del event (bt_wallet target) (deployed_name target created)
             else io_return ()) (\<lambda>_.
          io_return (ignored reason))
      | Inr be \<Rightarrow>
          io_bind (io_log PublishReload) (\<lambda>_.
          io_bind (io_log (PublishEvent be)) (\<lambda>_.
          io_return applied)))"

text \<open>A success that was admitted and accepted by CAPP, up to its commit.\<close>

lemma apply_to_commit:
  assumes "w_env w = quiet # es" and "load (e_automation_id event) (w_db w) = Inr a"
    and "admission a (e_commit_sha event) = None" and "e_status event = SUCCESS"
    and "require_own_image repo event = Inr u"
    and "deploy capp event (target_of a) (w\<lparr>w_env := es\<rparr>) = (Inr created, w1)"
  shows "apply_build_result repo capp (Some del) event w =
    io_bind (commit_cut_over event created) (finish_webhook del event (target_of a) created) w1"
  using assms
  by (simp add: apply_build_result_def Let_def io_bind_def read_session_def begin_quiet io_lift_def)

text \<open>C26. A failure report for the same commit that lands while CAPP is deploying does not
  leave CAPP ahead of the row: the success still cuts the row over, on top of the recorded
  failure, and publishes it.\<close>

theorem success_overrides_raced_failure:
  assumes "w_env w = [quiet, fe]" and "se_outcome fe = Lands"
    and "load (e_automation_id event) (w_db w) = Inr a"
    and "admission a (e_commit_sha event) = None" and "e_status event = SUCCESS"
    and "require_own_image repo event = Inr u"
    and "deploy capp event (target_of a) (w\<lparr>w_env := [fe]\<rparr>) = (Inr created, w1)"
    and "se_interfere fe (w_db w) = failure_db (w_db w) a report now"
    and "latest_requested_sha (a_id a) (w_db w) = Some (e_commit_sha event)"
    and "apply_build_result repo capp (Some del) event w = (r, w')"
  shows "r = Inr applied
    \<and> w_db w' = cut_over_db (failure_db (w_db w) a report now) (failed_row a now) event created
        (w_clock w + int (se_elapse fe))
    \<and> find_automation (w_db w') (e_automation_id event)
        = Some (cut_over_row (failed_row a now) event created (w_clock w + int (se_elapse fe)))"
proof -
  note f = deploy_frame [OF assms(7)] and l = load_InrD [OF assms(3)]
  let ?d = "failure_db (w_db w) a report now"
  have load: "load (e_automation_id event) ?d = Inr (failed_row a now)"
    using l by (simp add: load_def failure_db_def failed_row_def table_simps)
  have "latest_requested_sha (a_id a) ?d = latest_requested_sha (a_id a) (w_db w)"
    by (simp add: latest_requested_sha_def failure_db_def table_simps build_revision_def REQUESTING_ACTIONS_def)
  then have "admitted_at_commit ?d (failed_row a now) (e_commit_sha event)"
    using assms(4,9) by (simp add: admitted_at_commit_def failure_raced_def failed_row_def admission_None_iff)
  with load have tx: "cut_over_tx event created (w_clock w + int (se_elapse fe)) ?d =
      Inr (Inr (build_event_of (cut_over_row (failed_row a now) event created (w_clock w + int (se_elapse fe)))
             (e_commit_sha event)),
           Some (cut_over_db ?d (failed_row a now) event created (w_clock w + int (se_elapse fe))))"
    by (simp add: cut_over_tx_cases)
  have "begin_session w1 = (Lands, w1\<lparr>w_db := ?d, w_clock := w_clock w + int (se_elapse fe), w_env := []\<rparr>)"
    using f assms(2,8) by (simp add: begin_session_def)
  with tx assms(10) apply_to_commit [OF assms(1,3-7)]
  have "r = Inr applied \<and> w_db w' = cut_over_db ?d (failed_row a now) event created (w_clock w + int (se_elapse fe))"
    by (auto simp: io_bind_def commit_cut_over_def io_catch_def get_session_opt_def io_log_def io_return_def)
  moreover have "find_automation (cut_over_db ?d (failed_row a now) event created (w_clock w + int (se_elapse fe)))
      (e_automation_id event) = Some (cut_over_row (failed_row a now) event created (w_clock w + int (se_elapse fe)))"
    using l by (simp add: cut_over_db_def failure_db_def failed_row_def table_simps)
  ultimately show ?thesis by simp
qed

theorem success_overrides_raced_failure_witness:
  "case apply_build_result sample_repo (sample_capp (\<lambda>x. (Inr sample_deployment, x)))
       (Some UnconfiguredCappDeletionClient) (sample_event SUCCESS)
       (sample_world [quiet, \<lparr>se_interfere = (\<lambda>d. failure_db d
            (sample_row ACTIVE BUILDING (Some sample_sha) None None) (sample_event OUTCOME_FAILED) 150),
          se_elapse = 60, se_outcome = Lands\<rparr>] 0 (sample_row ACTIVE BUILDING (Some sample_sha) None None)) of
     (r, w') \<Rightarrow> r = Inr applied \<and>
       (\<exists>a. find_automation (w_db w') sample_id = Some a \<and> a_build_state a = IDLE \<and> a_matching_state a = ACTIVE)"
proof -
  let ?a = "sample_row ACTIVE BUILDING (Some sample_sha) None None"
  let ?fe = "\<lparr>se_interfere = (\<lambda>d. failure_db d ?a (sample_event OUTCOME_FAILED) 150),
    se_elapse = 60, se_outcome = Lands\<rparr>"
  let ?w = "sample_world [quiet, ?fe] (0::nat) ?a"
  let ?run = "apply_build_result sample_repo (sample_capp (\<lambda>x. (Inr sample_deployment, x)))
    (Some UnconfiguredCappDeletionClient) (sample_event SUCCESS) ?w"
  obtain r w' where run: "?run = (r, w')" by (cases ?run)
  have dep: "deploy (sample_capp (\<lambda>x. (Inr sample_deployment, x))) (sample_event SUCCESS) (target_of ?a)
      (?w\<lparr>w_env := [?fe]\<rparr>) = (Inr (Some sample_deployment), ?w\<lparr>w_env := [?fe],
        w_trace := [Called (CappCreate sample_id (str ''wallet'') sample_image [])]\<rparr>)"
    by (simp add: sample_deploy sample_world_def)
  note raced = success_overrides_raced_failure
    [where report = "sample_event OUTCOME_FAILED" and now = 150, OF _ _ _ _ _ sample_own_image dep _ _ run]
  have "r = Inr applied"
    by (rule raced [THEN conjunct1])
      (simp_all add: admission_None_iff latest_requested_sha_def sample_revision_def REQUESTING_ACTIONS_def)
  moreover have "find_automation (w_db w') (e_automation_id (sample_event SUCCESS)) = Some (cut_over_row
      (failed_row ?a 150) (sample_event SUCCESS) (Some sample_deployment) (w_clock ?w + int (se_elapse ?fe)))"
    by (rule raced [THEN conjunct2, THEN conjunct2])
      (simp_all add: admission_None_iff latest_requested_sha_def sample_revision_def REQUESTING_ACTIONS_def)
  ultimately show ?thesis using run by (simp add: failed_row_def)
qed

text \<open>C27. A success that loses to a deletion writes nothing and undoes what it put in CAPP:
  when the row started deleting during the CAPP call, the webhook answers \<open>ignored: deleting\<close>,
  leaves the database as the deletion left it, and deletes the Capp it had created or rolled
  out and then the run-auth Secret, in the wallet the call targeted.\<close>

theorem success_torn_down_when_deleting:
  assumes "w_env w = [quiet, fe]" and "se_outcome fe = Lands"
    and "load (e_automation_id event) (w_db w) = Inr a"
    and "admission a (e_commit_sha event) = None" and "e_status event = SUCCESS"
    and "require_own_image repo event = Inr u"
    and "deploy capp event (target_of a) (w\<lparr>w_env := [fe]\<rparr>) = (Inr created, w1)"
    and "load (e_automation_id event) (se_interfere fe (w_db w)) = Inr b"
    and "a_matching_state b \<in> set DELETION_STATES"
    and "d_delete_capp del (a_namespace a) (deployed_name (target_of a) created) (w_ext w1) = (Inr (), x)"
    and "apply_build_result repo capp (Some del) event w = (r, w')"
  shows "r = Inr (ignored REASON_DELETING) \<and> w_db w' = se_interfere fe (w_db w)
    \<and> w_trace w' = w_trace w1 @
        [Called (CappDelete (a_namespace a) (deployed_name (target_of a) created)),
         Called (SecretDelete (a_namespace a) (run_auth_secret_name (e_automation_id event)))]"
proof -
  note f = deploy_frame [OF assms(7)]
  have adm: "admission b (e_commit_sha event) = Some REASON_DELETING"
    using assms(9) by (simp add: admission_def)
  have "\<not> admitted_at_commit (se_interfere fe (w_db w)) b (e_commit_sha event)"
    using assms(9) by (auto simp: admitted_at_commit_def)
  with assms(8) adm have tx: "cut_over_tx event created now (se_interfere fe (w_db w))
      = Inr (Inl REASON_DELETING, None)" for now
    by (simp add: cut_over_tx_cases)
  have "begin_session w1 = (Lands, w1\<lparr>w_db := se_interfere fe (w_db w),
      w_clock := w_clock w + int (se_elapse fe), w_env := []\<rparr>)"
    using f assms(2) by (simp add: begin_session_def)
  with tx assms(10,11) apply_to_commit [OF assms(1,3-7)] show ?thesis
    by (auto simp: io_bind_def commit_cut_over_def io_catch_def get_session_opt_def io_return_def
        tear_down_def io_call_def target_of_def split: prod.splits sum.splits)
qed

theorem success_torn_down_when_deleting_witness:
  "case apply_build_result sample_repo (sample_capp (\<lambda>x. (Inr sample_deployment, x)))
       (Some sample_deletion) (sample_event SUCCESS)
       (sample_world [quiet, \<lparr>se_interfere = (\<lambda>d. sample_db (sample_row DELETING IDLE None (Some 1) None)),
          se_elapse = 60, se_outcome = Lands\<rparr>] 0 (sample_row ACTIVE BUILDING (Some sample_sha) None None)) of
     (r, w') \<Rightarrow> r = Inr (ignored REASON_DELETING)
       \<and> w_db w' = sample_db (sample_row DELETING IDLE None (Some 1) None)"
proof -
  let ?a = "sample_row ACTIVE BUILDING (Some sample_sha) None None"
  let ?fe = "\<lparr>se_interfere = (\<lambda>d. sample_db (sample_row DELETING IDLE None (Some 1) None)),
    se_elapse = 60, se_outcome = Lands\<rparr>"
  let ?w = "sample_world [quiet, ?fe] (0::nat) ?a"
  let ?run = "apply_build_result sample_repo (sample_capp (\<lambda>x. (Inr sample_deployment, x)))
    (Some sample_deletion) (sample_event SUCCESS) ?w"
  obtain r w' where run: "?run = (r, w')" by (cases ?run)
  have dep: "deploy (sample_capp (\<lambda>x. (Inr sample_deployment, x))) (sample_event SUCCESS) (target_of ?a)
      (?w\<lparr>w_env := [?fe]\<rparr>) = (Inr (Some sample_deployment), ?w\<lparr>w_env := [?fe],
        w_trace := [Called (CappCreate sample_id (str ''wallet'') sample_image [])]\<rparr>)"
    by (simp add: sample_deploy sample_world_def)
  have "r = Inr (ignored REASON_DELETING) \<and> w_db w' = se_interfere ?fe (w_db ?w)"
    using success_torn_down_when_deleting
      [where b = "sample_row DELETING IDLE None (Some 1) None" and x = 0,
       OF _ _ _ _ _ sample_own_image dep _ _ _ run]
    by (simp add: admission_None_iff sample_deletion_def)
  with run show ?thesis by simp
qed

text \<open>C28. A cutover that cannot be written leaves the row to the next delivery: when the
  commit's session fails after CAPP accepted the image, nothing is written or published and the
  caller is told to retry, with \<open>AutomationBusyError\<close> for a row that stayed locked and
  \<open>BuildNotRecordedError\<close> for any other database fault.\<close>

theorem unrecorded_cut_over_is_retryable:
  assumes "w_env w = [quiet, fe]" and "se_outcome fe = Aborts fault"
    and "load (e_automation_id event) (w_db w) = Inr a"
    and "admission a (e_commit_sha event) = None" and "e_status event = SUCCESS"
    and "require_own_image repo event = Inr u"
    and "deploy capp event (target_of a) (w\<lparr>w_env := [fe]\<rparr>) = (Inr created, w1)"
    and "apply_build_result repo capp (Some del) event w = (r, w')"
  shows "r = Inl (if fault = LockNotAvailable then AutomationBusyError else BuildNotRecordedError)
    \<and> w_db w' = se_interfere fe (w_db w) \<and> w_trace w' = w_trace w1"
proof -
  note f = deploy_frame [OF assms(7)]
  have "begin_session w1 = (Aborts fault, w1\<lparr>w_db := se_interfere fe (w_db w),
      w_clock := w_clock w + int (se_elapse fe), w_env := []\<rparr>)"
    using f assms(2) by (simp add: begin_session_def)
  with assms(8) apply_to_commit [OF assms(1,3-7)] show ?thesis
    by (cases fault) (auto simp: io_bind_def commit_cut_over_def io_catch_def get_session_opt_def io_raise_def
        session_error_def lock_first_error_def)
qed

theorem unrecorded_cut_over_is_retryable_witness:
  "case apply_build_result sample_repo (sample_capp (\<lambda>x. (Inr sample_deployment, x)))
       (Some sample_deletion) (sample_event SUCCESS)
       (sample_world [quiet, quiet\<lparr>se_outcome := Aborts OtherDbFault\<rparr>] 0
          (sample_row ACTIVE BUILDING (Some sample_sha) None None)) of
     (r, w') \<Rightarrow> r = Inl BuildNotRecordedError
       \<and> w_db w' = sample_db (sample_row ACTIVE BUILDING (Some sample_sha) None None)"
proof -
  let ?a = "sample_row ACTIVE BUILDING (Some sample_sha) None None"
  let ?fe = "quiet\<lparr>se_outcome := Aborts OtherDbFault\<rparr>"
  let ?w = "sample_world [quiet, ?fe] (0::nat) ?a"
  let ?run = "apply_build_result sample_repo (sample_capp (\<lambda>x. (Inr sample_deployment, x)))
    (Some sample_deletion) (sample_event SUCCESS) ?w"
  obtain r w' where run: "?run = (r, w')" by (cases ?run)
  have dep: "deploy (sample_capp (\<lambda>x. (Inr sample_deployment, x))) (sample_event SUCCESS) (target_of ?a)
      (?w\<lparr>w_env := [?fe]\<rparr>) = (Inr (Some sample_deployment), ?w\<lparr>w_env := [?fe],
        w_trace := [Called (CappCreate sample_id (str ''wallet'') sample_image [])]\<rparr>)"
    by (simp add: sample_deploy sample_world_def)
  have "r = Inl BuildNotRecordedError \<and> w_db w' = se_interfere ?fe (w_db ?w)"
    using unrecorded_cut_over_is_retryable
      [where fault = OtherDbFault, OF _ _ _ _ _ sample_own_image dep run]
    by (simp add: admission_None_iff)
  with run show ?thesis by (simp add: quiet_def)
qed

section \<open>The image\<close>

definition own_image :: "pystr \<Rightarrow> uuid \<Rightarrow> pystr \<Rightarrow> bool" where
  "own_image repo i img \<longleftrightarrow>
     (\<exists>prefix. configured_image_repository repo = Some prefix
        \<and> image_repository_of img = prefix @ str ''/'' @ uuid_str i)"

text \<open>What a webhook for automation \<open>i\<close> may do outside the service: deploy images of that
  automation's own repository, undo a deployment, commit and publish.\<close>

fun webhook_effect :: "pystr \<Rightarrow> uuid \<Rightarrow> effect \<Rightarrow> bool" where
  "webhook_effect repo i (Called (CappCreate j w img refs)) = (j = i \<and> own_image repo i img)"
| "webhook_effect repo i (Called (CappRollout d img refs)) = own_image repo i img"
| "webhook_effect repo i (Called (CappDelete w n)) = True"
| "webhook_effect repo i (Called (SecretDelete w n)) = (n = run_auth_secret_name i)"
| "webhook_effect repo i (Called _) = False"
| "webhook_effect repo i (PublishEvent be) = (be_automation_id be = i)"
| "webhook_effect repo i _ = True"

text \<open>Two automations never share an image repository, so an image accepted for one is
  foreign to the other.\<close>

lemma own_image_unique: "own_image repo i img \<Longrightarrow> own_image repo j img \<Longrightarrow> i = j"
  by (auto simp: own_image_def)

lemma emits_deploy:
  assumes "require_own_image repo event = Inr u"
  shows "emits (deploy capp event target) (Collect (webhook_effect repo (e_automation_id event)))"
proof -
  obtain img where "e_image event = Some img" "own_image repo (e_automation_id event) img"
    using assms by (rule require_own_image_InrD) (auto simp: own_image_def)
  then show ?thesis
    unfolding deploy_def Let_def
    by (cases "bt_capp_deployment_id target") (auto intro!: emits_rules)
qed

lemma cut_over_event_id:
  "cut_over_tx event created now d = Inr (Inr be, d') \<Longrightarrow> be_automation_id be = e_automation_id event"
  "record_failure_tx event now d = Inr (Inr be, d') \<Longrightarrow> be_automation_id be = e_automation_id event"
  by (auto simp: cut_over_tx_def record_failure_tx_def Let_def cut_over_eq build_event_of_def
      dest: load_InrD split: sum.splits option.splits if_splits)

lemma commit_cut_over_event_id:
  "commit_cut_over event created w = (Inr (Inr be), w') \<Longrightarrow> be_automation_id be = e_automation_id event"
  by (auto simp: commit_cut_over_def io_catch_def get_session_opt_def io_raise_def dest: cut_over_event_id
      split: prod.splits sum.splits session_outcome.splits option.splits if_splits)

lemma record_failure_event_id:
  "get_session_opt True (record_failure_tx event) w = (Inr (Inr be), w') \<Longrightarrow>
     be_automation_id be = e_automation_id event"
  by (auto simp: get_session_opt_def dest: cut_over_event_id
      split: prod.splits sum.splits session_outcome.splits option.splits if_splits)

lemma emits_record_failure: "emits (record_failure event) (Collect (webhook_effect repo (e_automation_id event)))"
  unfolding record_failure_def
  by (intro emits_bind) (auto intro!: emits_rules dest: record_failure_event_id split: sum.splits)

text \<open>C30. An image never reaches CAPP unless it lives in the reporting automation's own
  repository under the configured prefix: in every environment and whatever the payload, a
  webhook for an automation deploys and rolls out only such images, deletes no Secret but that
  automation's run-auth Secret, publishes events of that automation only, and touches neither
  git nor the registry.\<close>

theorem webhook_deploys_only_own_images:
  "emits (apply_build_result repo capp del event) (Collect (webhook_effect repo (e_automation_id event)))"
proof -
  let ?S = "Collect (webhook_effect repo (e_automation_id event))"
  have tear: "emits (tear_down dl event wl n) ?S" for dl wl n
    unfolding tear_down_def by (intro emits_rules) auto
  have finish: "emits (finish_webhook dl event target created res) ?S"
    if "commit_cut_over event created w = (Inr res, w')" for dl target created res w w'
    using that tear by (cases res) (auto intro!: emits_rules dest: commit_cut_over_event_id)
  have commit: "emits (commit_cut_over event created) ?S" for created
    unfolding commit_cut_over_def by (intro emits_rules) auto
  have deploy: "emits (io_bind (io_lift (require_own_image repo event)) (\<lambda>_.
      io_bind (deploy capp event target) (\<lambda>created.
      io_bind (commit_cut_over event created) (finish_webhook dl event target created)))) ?S" for target dl
  proof (rule emits_bind)
    fix u w w'
    assume "io_lift (require_own_image repo event) w = (Inr u, w')"
    then have "require_own_image repo event = Inr u" by (simp add: io_lift_def)
    then show "emits (io_bind (deploy capp event target) (\<lambda>created.
        io_bind (commit_cut_over event created) (finish_webhook dl event target created))) ?S"
      by (intro emits_bind emits_deploy commit finish)
  qed (rule emits_rules)
  show ?thesis
    unfolding apply_build_result_def Let_def
    by (intro emits_bind emits_read)
      (auto intro!: emits_if emits_pure emits_record_failure deploy split: option.splits)
qed

end
