(* ===== verification/Cascade_Correct.thy ===== *)
theory Cascade_Correct
  imports Samples "HOL-Library.Multiset"
begin

text \<open>
  The delete cascade as a whole: admission, a run with every external system up (with its
  exact order of external calls, commits and signals), a run that stops at a failure, what a
  completed result guarantees under concurrency, and the deboard fan-out.
\<close>

section \<open>Checkpoints when the runner is alone\<close>

lemma at_checkpoint_iff:
  assumes "a_matching_state a = DELETING" and "1 \<le> k"
  shows "at_checkpoint (a_id a) k a \<longleftrightarrow>
    (case a_delete_cascade_step a of None \<Rightarrow> k = 1 | Some n \<Rightarrow> n = k - 1 \<and> n \<noteq> 0)"
  using assms by (auto simp: at_checkpoint_def Let_def split: option.splits)

definition checkpointed :: "uuid \<Rightarrow> nat \<Rightarrow> datetime \<Rightarrow> database \<Rightarrow> database" where
  "checkpointed i k now d =
     update_automations (at_checkpoint i k) (advance k (if k = 5 then Some DELETED else None) now) d"

lemma save_alone:
  assumes "w_env w = []"
  shows "save i k (if k = 5 then Some DELETED else None) w =
    (Inr (), w\<lparr>w_db := checkpointed i k (w_clock w) (w_db w), w_trace := w_trace w @ [Committed]\<rparr>)"
  using assms
  by (simp add: save_def checkpoint_def checkpoint_tx_def checkpointed_def io_catch_def io_bind_def io_simps)

text \<open>A row on its way through the cascade: deleting, with a checkpoint below 5.\<close>

definition in_cascade :: "automation \<Rightarrow> bool" where
  "in_cascade a \<longleftrightarrow> a_matching_state a = DELETING \<and> cascade_position a \<le> 4
     \<and> a_delete_cascade_step a \<noteq> Some 0"

lemma find_checkpointed:
  assumes "find_automation d i = Some a" and "in_cascade a" and "k = cascade_position a + 1"
  shows "find_automation (checkpointed i k now d) i
    = Some (advance k (if k = 5 then Some DELETED else None) now a)"
proof -
  have "a_id a = i" using assms(1) by (rule atab.get_key)
  moreover have "at_checkpoint (a_id a) k a"
    using assms(2,3) by (subst at_checkpoint_iff)
      (auto simp: in_cascade_def cascade_position_def split: option.splits)
  ultimately show ?thesis
    using assms(1) by (simp add: checkpointed_def atab.get_upd advance_def)
qed

lemma find_checkpointed_other: "j \<noteq> i \<Longrightarrow> find_automation (checkpointed i k now d) j = find_automation d j"
  by (auto simp: checkpointed_def atab.get_upd advance_def at_checkpoint_def dest!: atab.get_key
      split: option.splits intro!: option.map_ident_strong)

lemma checkpointed_frame [simp]:
  "revisions (checkpointed i k now d) = revisions d" "runs (checkpointed i k now d) = runs d"
  by (simp_all add: checkpointed_def table_simps)

lemma advance_in_cascade:
  assumes "in_cascade a" and "k = cascade_position a + 1"
  shows "k < 5 \<Longrightarrow> in_cascade (advance k (if k = 5 then Some DELETED else None) now a)"
    and "cascade_position (advance k ms now a) = k"
    and "k = 5 \<Longrightarrow> a_matching_state (advance k (if k = 5 then Some DELETED else None) now a) = DELETED"
  using assms by (auto simp: in_cascade_def advance_def cascade_position_def split: option.splits)

lemma next_step_in_cascade: "next_step_of a = cascade_position a + 1"
  by (simp add: next_step_of_def cascade_position_def)

section \<open>Every external system up\<close>

text \<open>\<open>invent x i\<close> is the registry's inventory of automation \<open>i\<close>. Deletions are delete-if-exists
  and return; a listing returns the inventory; deleting an entry removes it; nothing is pushed
  meanwhile.\<close>

definition services_up :: "'x cascade_deps \<Rightarrow> ('x \<Rightarrow> uuid \<Rightarrow> pystr list) \<Rightarrow> bool" where
  "services_up deps invent \<longleftrightarrow>
     (\<forall>wl n x. \<exists>x'. d_delete_capp (cd_capp deps) wl n x = (Inr (), x') \<and> invent x' = invent x)
   \<and> (\<forall>wl n x. \<exists>x'. d_delete_secret (cd_capp deps) wl n x = (Inr (), x') \<and> invent x' = invent x)
   \<and> (\<forall>i x. \<exists>x'. rc_list_image_entries (cd_registry deps) i x = (Inr (invent x i), x') \<and> invent x' = invent x)
   \<and> (\<forall>i e x. (\<exists>y. e \<in> set (invent y i)) \<longrightarrow>
        (\<exists>x'. rc_delete_image (cd_registry deps) i e x = (Inr (), x') \<and> invent x' i = removeAll e (invent x i)))
   \<and> (\<forall>i actor x. \<exists>c x'. g_archive (cd_git deps) i actor x = (Inr c, x') \<and> invent x' = invent x)"

text \<open>What one step does to the world, in order.\<close>

definition step_trace :: "automation \<Rightarrow> pystr list \<Rightarrow> nat \<Rightarrow> effect list" where
  "step_trace a entries k =
     (if k = 1 then [Committed, PublishReload]
      else if k = 2 then
        [Called (CappDelete (a_namespace a) (capp_name_for (a_id a) (a_capp_deployment_id a))),
         Called (SecretDelete (a_namespace a) (run_auth_secret_name (a_id a))), Committed]
      else if k = 3 then
        Called (RegistryList (a_id a)) # map (\<lambda>e. Called (RegistryDelete (a_id a) e)) entries
          @ [Called (RegistryList (a_id a)), Committed]
      else if k = 4 then [Called (GitArchive (a_id a) (a_updated_by a)), Committed]
      else [Committed])"

lemma external_up:
  assumes "f (w_ext w) = (Inr v, x')"
  shows "external k code c f w = (Inr (), w\<lparr>w_ext := x', w_trace := w_trace w @ [Called c]\<rparr>)"
  using assms by (simp add: external_def io_catch_def io_bind_def io_simps)

lemma delete_entries_up:
  assumes "services_up deps invent" and "\<forall>e \<in> set es. \<exists>y. e \<in> set (invent y i)"
  shows "\<exists>x'. delete_entries deps i es w = (Inr (), w\<lparr>w_ext := x',
      w_trace := w_trace w @ map (\<lambda>e. Called (RegistryDelete i e)) es\<rparr>)
    \<and> set (invent x' i) = set (invent (w_ext w) i) - set es"
  using assms(2)
proof (induction es arbitrary: w)
  case Nil
  show ?case by (auto simp: io_simps intro: exI [of _ "w_ext w"])
next
  case (Cons e es)
  from Cons.prems have "\<exists>y. e \<in> set (invent y i)" by simp
  with assms(1) obtain x1 where x1: "rc_delete_image (cd_registry deps) i e (w_ext w) = (Inr (), x1)"
      "invent x1 i = removeAll e (invent (w_ext w) i)"
    unfolding services_up_def by meson
  let ?w1 = "w\<lparr>w_ext := x1, w_trace := w_trace w @ [Called (RegistryDelete i e)]\<rparr>"
  from Cons.IH [of ?w1] Cons.prems obtain x2 where "delete_entries deps i es ?w1 = (Inr (), ?w1\<lparr>w_ext := x2,
      w_trace := w_trace ?w1 @ map (\<lambda>e. Called (RegistryDelete i e)) es\<rparr>)"
    and "set (invent x2 i) = set (invent (w_ext ?w1) i) - set es" by auto
  with x1 show ?case
    by (intro exI [of _ x2]) (auto simp: io_bind_def external_up)
qed

lemma list_entries_up:
  assumes "services_up deps invent"
  shows "\<exists>x'. list_entries deps i w = (Inr (invent (w_ext w) i),
      w\<lparr>w_ext := x', w_trace := w_trace w @ [Called (RegistryList i)]\<rparr>) \<and> invent x' = invent (w_ext w)"
proof -
  from assms obtain x' where "rc_list_image_entries (cd_registry deps) i (w_ext w) = (Inr (invent (w_ext w) i), x')"
      "invent x' = invent (w_ext w)" unfolding services_up_def by blast
  then show ?thesis by (intro exI [of _ x']) (simp add: list_entries_def io_catch_def io_simps)
qed

lemma step_images_up:
  assumes up: "services_up deps invent" and env: "w_env w = []"
  shows "\<exists>x'. step_delete_images deps a w = (Inr (), w\<lparr>w_db := checkpointed (a_id a) 3 (w_clock w) (w_db w),
      w_ext := x', w_trace := w_trace w @ step_trace a (invent (w_ext w) (a_id a)) 3\<rparr>)"
proof -
  let ?i = "a_id a"
  from list_entries_up [OF up] obtain x1 where l1: "list_entries deps ?i w = (Inr (invent (w_ext w) ?i),
      w\<lparr>w_ext := x1, w_trace := w_trace w @ [Called (RegistryList ?i)]\<rparr>)" and i1: "invent x1 = invent (w_ext w)" by blast
  let ?w1 = "w\<lparr>w_ext := x1, w_trace := w_trace w @ [Called (RegistryList ?i)]\<rparr>"
  let ?es = "invent (w_ext w) ?i"
  have "\<forall>e \<in> set ?es. \<exists>y. e \<in> set (invent y ?i)" by blast
  from delete_entries_up [OF up this, of ?w1] obtain x2 where
    l2: "delete_entries deps ?i ?es ?w1 = (Inr (), ?w1\<lparr>w_ext := x2,
      w_trace := w_trace ?w1 @ map (\<lambda>e. Called (RegistryDelete ?i e)) ?es\<rparr>)"
    and "set (invent x2 ?i) = set (invent x1 ?i) - set ?es" by auto
  then have empty: "invent x2 ?i = []" by (simp add: i1)
  let ?w2 = "?w1\<lparr>w_ext := x2, w_trace := w_trace ?w1 @ map (\<lambda>e. Called (RegistryDelete ?i e)) ?es\<rparr>"
  from list_entries_up [OF up, of ?i ?w2] empty obtain x3 where
    l3: "list_entries deps ?i ?w2 = (Inr [], ?w2\<lparr>w_ext := x3, w_trace := w_trace ?w2 @ [Called (RegistryList ?i)]\<rparr>)"
    by auto
  have "save ?i 3 None (?w2\<lparr>w_ext := x3, w_trace := w_trace ?w2 @ [Called (RegistryList ?i)]\<rparr>)
      = (Inr (), ?w2\<lparr>w_db := checkpointed ?i 3 (w_clock w) (w_db w), w_ext := x3,
          w_trace := w_trace ?w2 @ [Called (RegistryList ?i), Committed]\<rparr>)"
    using save_alone [of "?w2\<lparr>w_ext := x3, w_trace := w_trace ?w2 @ [Called (RegistryList ?i)]\<rparr>" ?i 3] env by simp
  with l1 l2 l3 show ?thesis
    by (intro exI [of _ x3])
      (simp add: step_delete_images_def io_bind_def STEP_IMAGES_DELETED_def step_trace_def)
qed

lemma run_step_up:
  assumes up: "services_up deps invent" and env: "w_env w = []" and k: "1 \<le> k" "k \<le> 5"
  shows "\<exists>x'. run_step deps k a w = (Inr (), w\<lparr>w_db := checkpointed (a_id a) k (w_clock w) (w_db w),
      w_ext := x', w_trace := w_trace w @ step_trace a (invent (w_ext w) (a_id a)) k\<rparr>)
    \<and> (k \<noteq> 3 \<longrightarrow> invent x' = invent (w_ext w))"
proof -
  consider "k = 1" | "k = 2" | "k = 3" | "k = 4" | "k = 5" using k by linarith
  then show ?thesis
  proof cases
    case 1
    then show ?thesis using save_alone [OF env, of "a_id a" 1]
      by (intro exI [of _ "w_ext w"])
        (simp add: run_step_def step_defs step_mark_deleting_def io_bind_def io_simps step_trace_def)
  next
    case 2
    let ?wl = "a_namespace a" and ?n = "capp_name_for (a_id a) (a_capp_deployment_id a)"
      and ?s = "run_auth_secret_name (a_id a)"
    from up obtain x1 where x1: "d_delete_capp (cd_capp deps) ?wl ?n (w_ext w) = (Inr (), x1)"
        "invent x1 = invent (w_ext w)" unfolding services_up_def by blast
    from up obtain x2 where x2: "d_delete_secret (cd_capp deps) ?wl ?s x1 = (Inr (), x2)"
        "invent x2 = invent x1" unfolding services_up_def by blast
    show ?thesis using 2 x1 x2 env save_alone [of "w\<lparr>w_ext := x2, w_trace := w_trace w @
        [Called (CappDelete ?wl ?n), Called (SecretDelete ?wl ?s)]\<rparr>" "a_id a" 2]
      by (intro exI [of _ x2])
        (simp add: run_step_def step_defs step_delete_capp_resources_def Let_def io_bind_def external_up step_trace_def)
  next
    case 3
    then show ?thesis using step_images_up [OF up env, of a] by (simp add: run_step_def step_defs)
  next
    case 4
    from up obtain c x1 where x1: "g_archive (cd_git deps) (a_id a) (a_updated_by a) (w_ext w) = (Inr c, x1)"
        "invent x1 = invent (w_ext w)" unfolding services_up_def by blast
    show ?thesis using 4 x1 env save_alone [of "w\<lparr>w_ext := x1, w_trace := w_trace w @
        [Called (GitArchive (a_id a) (a_updated_by a))]\<rparr>" "a_id a" 4]
      by (intro exI [of _ x1])
        (simp add: run_step_def step_defs step_archive_script_def io_bind_def external_up step_trace_def)
  next
    case 5
    then show ?thesis using save_alone [OF env, of "a_id a" 5]
      by (intro exI [of _ "w_ext w"]) (simp add: run_step_def step_defs step_mark_deleted_def step_trace_def)
  qed
qed

lemma try_step_up:
  assumes "services_up deps invent" and "w_env w = []" and "in_cascade a" and "k = cascade_position a + 1"
  shows "\<exists>x'. try_step deps a w = (Inr None, w\<lparr>w_db := checkpointed (a_id a) k (w_clock w) (w_db w),
      w_ext := x', w_trace := w_trace w @ step_trace a (invent (w_ext w) (a_id a)) k\<rparr>)
    \<and> (k \<noteq> 3 \<longrightarrow> invent x' = invent (w_ext w))"
proof -
  have "1 \<le> k" "k \<le> 5" using assms(3,4) by (auto simp: in_cascade_def)
  from run_step_up [OF assms(1,2) this, of a] obtain x' where
    "run_step deps k a w = (Inr (), w\<lparr>w_db := checkpointed (a_id a) k (w_clock w) (w_db w),
      w_ext := x', w_trace := w_trace w @ step_trace a (invent (w_ext w) (a_id a)) k\<rparr>)"
    and "k \<noteq> 3 \<longrightarrow> invent x' = invent (w_ext w)" by blast
  then show ?thesis using assms(4)
    by (intro exI [of _ x']) (simp add: try_step_def next_step_in_cascade io_catch_def io_bind_def io_simps)
qed

lemma snapshot_alone:
  "w_env w = [] \<Longrightarrow> find_automation (w_db w) i = Some a \<Longrightarrow> snapshot i w = (Inr a, w)"
  by (simp add: snapshot_def snapshot_query_def io_simps)

lemma step_trace_advance [simp]: "step_trace (advance k ms now a) es j = step_trace a es j"
  by (simp add: step_trace_def advance_def)

lemma step_trace_entries: "j \<noteq> 3 \<Longrightarrow> step_trace a es j = step_trace a es' j"
  by (simp add: step_trace_def)

definition deleted_row :: "automation \<Rightarrow> datetime \<Rightarrow> automation" where
  "deleted_row a now = a\<lparr>a_matching_state := DELETED, a_delete_cascade_step := Some 5, a_updated_at := now\<rparr>"

lemma deleted_row_advance: "deleted_row (advance k ms now a) now' = deleted_row a now'"
  by (simp add: deleted_row_def advance_def)

definition cascade_trace :: "automation \<Rightarrow> pystr list \<Rightarrow> effect list" where
  "cascade_trace a entries = concat (map (step_trace a entries) [cascade_position a + 1..<6])"

text \<open>The outcome of a run in which every external system is up.\<close>

definition cascade_done ::
  "uuid \<Rightarrow> automation \<Rightarrow> pystr list \<Rightarrow> 'x world \<Rightarrow> (exn + cascade_result) \<times> 'x world \<Rightarrow> bool" where
  "cascade_done i a entries w out \<longleftrightarrow>
     fst out = Inr (result_of (deleted_row a (w_clock w)) None)
   \<and> find_automation (w_db (snd out)) i = Some (deleted_row a (w_clock w))
   \<and> (\<forall>j. j \<noteq> i \<longrightarrow> find_automation (w_db (snd out)) j = find_automation (w_db w) j)
   \<and> revisions (w_db (snd out)) = revisions (w_db w) \<and> runs (w_db (snd out)) = runs (w_db w)
   \<and> w_trace (snd out) = w_trace w @ cascade_trace a entries
   \<and> w_env (snd out) = w_env w \<and> w_clock (snd out) = w_clock w"

lemma cascade_trace_step:
  assumes "in_cascade a" and "k = cascade_position a + 1"
  shows "cascade_trace a es = step_trace a es k @ concat (map (step_trace a es) [Suc k..<6])"
  using assms by (simp add: cascade_trace_def in_cascade_def upt_conv_Cons del: upt_Suc)

lemma cascade_loop_up:
  assumes "services_up deps invent" and "w_env w = []" and "find_automation (w_db w) i = Some a"
    and "in_cascade a" and "m = 4 - cascade_position a" and "m + 2 \<le> n"
  shows "cascade_done i a (invent (w_ext w) i) w (cascade_loop deps i n a w)"
  using assms
proof (induction m arbitrary: w a n)
  case 0
  let ?k = "cascade_position a + 1"
  have id: "a_id a = i" using 0(3) by (rule atab.get_key)
  have k: "?k = 5" using 0(4,5) by (auto simp: in_cascade_def)
  from try_step_up [OF 0(1,2,4) refl] obtain x' where step: "try_step deps a w =
      (Inr None, w\<lparr>w_db := checkpointed i 5 (w_clock w) (w_db w), w_ext := x',
        w_trace := w_trace w @ step_trace a (invent (w_ext w) i) 5\<rparr>)" unfolding id k by blast
  have find: "find_automation (checkpointed i 5 (w_clock w) (w_db w)) i = Some (deleted_row a (w_clock w))"
    using find_checkpointed [OF 0(3,4) refl, of "w_clock w"] k by (simp add: advance_def deleted_row_def)
  obtain n' where n: "n = Suc (Suc n')" using 0(6) by (metis add_2_eq_Suc' le_Suc_ex plus_nat.simps(2) add.commute)
  have tr: "cascade_trace a es = step_trace a es 5" for es
    using cascade_trace_step [OF 0(4) refl, of es] k by simp
  show ?case
    using 0(4) step find find_checkpointed_other [of _ i 5]
    by (simp add: n in_cascade_def io_bind_def snapshot_alone 0(2) deleted_row_def io_simps
        cascade_done_def tr)
next
  case (Suc m)
  let ?k = "cascade_position a + 1" and ?now = "w_clock w"
  let ?a = "advance ?k None ?now a"
  have id: "a_id a = i" using Suc.prems(3) by (rule atab.get_key)
  have k: "?k < 5" using Suc.prems(4,5) by (auto simp: in_cascade_def)
  from try_step_up [OF Suc.prems(1,2,4) refl] obtain x' where step: "try_step deps a w =
      (Inr None, w\<lparr>w_db := checkpointed i ?k ?now (w_db w), w_ext := x',
        w_trace := w_trace w @ step_trace a (invent (w_ext w) i) ?k\<rparr>)"
    and x': "?k \<noteq> 3 \<longrightarrow> invent x' = invent (w_ext w)" unfolding id by blast
  let ?w = "w\<lparr>w_db := checkpointed i ?k ?now (w_db w), w_ext := x',
      w_trace := w_trace w @ step_trace a (invent (w_ext w) i) ?k\<rparr>"
  have find: "find_automation (w_db ?w) i = Some ?a"
    using find_checkpointed [OF Suc.prems(3,4) refl, of ?now] k by simp
  have inc: "in_cascade ?a" using advance_in_cascade(1) [OF Suc.prems(4) refl k, of ?now] k by simp
  have pos: "cascade_position ?a = ?k" by (rule advance_in_cascade(2) [OF Suc.prems(4) refl])
  obtain n' where n: "n = Suc n'" "m + 2 \<le> n'" using Suc.prems(6) by (cases n) auto
  have "cascade_done i ?a (invent (w_ext ?w) i) ?w (cascade_loop deps i n' ?a ?w)"
    by (rule Suc.IH [OF Suc.prems(1) _ find inc]) (use Suc.prems(2,5) pos n in auto)
  moreover have "cascade_trace ?a (invent x' i) = concat (map (step_trace a (invent (w_ext w) i)) [Suc ?k..<6])"
  proof -
    have "step_trace a (invent x' i) j = step_trace a (invent (w_ext w) i) j" if "j \<in> set [Suc ?k..<6]" for j
    proof (cases "j = 3")
      case True
      with that x' show ?thesis by simp
    qed (rule step_trace_entries)
    then have "map (step_trace a (invent x' i)) [Suc ?k..<6] = map (step_trace a (invent (w_ext w) i)) [Suc ?k..<6]"
      by (rule map_cong [OF refl])
    moreover have "step_trace ?a = step_trace a" by (intro ext) simp
    ultimately show ?thesis unfolding cascade_trace_def pos by (simp only: Suc_eq_plus1)
  qed
  moreover have "cascade_loop deps i n a w = cascade_loop deps i n' ?a ?w"
    using Suc.prems(2,4) step snapshot_alone [OF _ find]
    by (simp add: n in_cascade_def io_bind_def)
  ultimately show ?case
    using find_checkpointed_other [of _ i ?k ?now "w_db w"]
      cascade_trace_step [OF Suc.prems(4) refl, of "invent (w_ext w) i"]
    by (simp add: cascade_done_def deleted_row_advance)
qed

section \<open>A run that may stop\<close>

definition no_progress :: pystr where "no_progress = str ''cascade_no_progress''"

text \<open>A computation outside the database that fails, if at all, with a step error.\<close>

definition external_only :: "('x, 'a) io \<Rightarrow> bool" where
  "external_only m \<longleftrightarrow> (\<forall>w r w'. m w = (r, w') \<longrightarrow>
     w_db w' = w_db w \<and> w_env w' = w_env w \<and> w_clock w' = w_clock w
     \<and> (\<forall>e. r = Inl e \<longrightarrow> (\<exists>st code. e = CascadeStepError st code \<and> code \<noteq> no_progress)))"

text \<open>A step of the cascade, alone: it returns with checkpoint \<open>k\<close> saved, or stops with a step
  error and the database as it was.\<close>

definition saves :: "uuid \<Rightarrow> nat \<Rightarrow> ('x, unit) io \<Rightarrow> bool" where
  "saves i k m \<longleftrightarrow> (\<forall>w r w'. w_env w = [] \<longrightarrow> m w = (r, w') \<longrightarrow>
     w_env w' = [] \<and> w_clock w' = w_clock w
     \<and> (r = Inr () \<and> w_db w' = checkpointed i k (w_clock w) (w_db w)
        \<or> (\<exists>st code. r = Inl (CascadeStepError st code) \<and> code \<noteq> no_progress \<and> w_db w' = w_db w)))"

lemma external_only_bind:
  assumes "external_only m" and "\<And>a. external_only (c a)"
  shows "external_only (io_bind m c)"
  unfolding external_only_def
proof (intro allI impI)
  fix w r w'
  assume run: "io_bind m c w = (r, w')"
  obtain r1 w1 where r1: "m w = (r1, w1)" by (cases "m w")
  note m1 = assms(1) [unfolded external_only_def, rule_format, OF r1]
  show "w_db w' = w_db w \<and> w_env w' = w_env w \<and> w_clock w' = w_clock w
     \<and> (\<forall>e. r = Inl e \<longrightarrow> (\<exists>st code. e = CascadeStepError st code \<and> code \<noteq> no_progress))"
  proof (cases r1)
    case (Inl e)
    with r1 run m1 show ?thesis by (auto simp: io_bind_def)
  next
    case (Inr a)
    with r1 run have "c a w1 = (r, w')" by (simp add: io_bind_def)
    from assms(2) [unfolded external_only_def, rule_format, OF this] m1 show ?thesis by auto
  qed
qed

lemma external_only_external: "code \<noteq> no_progress \<Longrightarrow> external_only (external st code c f)"
  by (auto simp: external_only_def external_def io_catch_def io_bind_def io_call_def io_return_def io_raise_def
      split: prod.splits sum.splits)

lemma external_only_list: "external_only (list_entries deps i)"
  by (auto simp: external_only_def list_entries_def io_catch_def io_call_def io_raise_def no_progress_def str_def
      split: prod.splits sum.splits)

lemma external_only_delete_entries: "external_only (delete_entries deps i es)"
proof (induction es)
  case Nil
  show ?case by (simp add: external_only_def io_simps)
next
  case (Cons e es)
  have "str ''registry_delete_failed'' \<noteq> no_progress" by (simp add: no_progress_def str_def)
  with Cons.IH show ?case by (simp add: external_only_bind external_only_external)
qed

lemma saves_save: "saves i k (save i k (if k = 5 then Some DELETED else None))"
  by (simp add: saves_def save_alone)

lemma saves_raise: "code \<noteq> no_progress \<Longrightarrow> saves i k (io_raise (CascadeStepError st code))"
  by (simp add: saves_def io_simps)

lemma saves_bind:
  assumes "external_only m" and "\<And>a. saves i k (c a)"
  shows "saves i k (io_bind m c)"
  unfolding saves_def
proof (intro allI impI)
  fix w r w'
  assume env: "w_env w = []" and run: "io_bind m c w = (r, w')"
  obtain r1 w1 where r1: "m w = (r1, w1)" by (cases "m w")
  note m1 = assms(1) [unfolded external_only_def, rule_format, OF r1]
  show "w_env w' = [] \<and> w_clock w' = w_clock w
     \<and> (r = Inr () \<and> w_db w' = checkpointed i k (w_clock w) (w_db w)
        \<or> (\<exists>st code. r = Inl (CascadeStepError st code) \<and> code \<noteq> no_progress \<and> w_db w' = w_db w))"
  proof (cases r1)
    case (Inl e)
    with r1 run m1 env show ?thesis by (auto simp: io_bind_def)
  next
    case (Inr a)
    with r1 run have "c a w1 = (r, w')" by (simp add: io_bind_def)
    from assms(2) [unfolded saves_def, rule_format, OF _ this] m1 env show ?thesis by auto
  qed
qed

lemma saves_run_step:
  assumes "1 \<le> k" and "k \<le> 5"
  shows "saves (a_id a) k (run_step deps k a)"
proof -
  have save: "k' \<noteq> 5 \<Longrightarrow> saves (a_id a) k' (save (a_id a) k' None)" for k'
    using saves_save [of "a_id a" k'] by simp
  have codes: "str ''capp_delete_failed'' \<noteq> no_progress" "str ''run_auth_secret_delete_failed'' \<noteq> no_progress"
    "str ''registry_inventory_not_empty'' \<noteq> no_progress" "str ''git_archive_failed'' \<noteq> no_progress"
    by (simp_all add: no_progress_def str_def)
  have mark: "saves (a_id a) 1 (io_bind (save (a_id a) 1 None) (\<lambda>_. io_log PublishReload))"
    unfolding saves_def
  proof (intro allI impI, goal_cases)
    case (1 w r w')
    with save_alone [OF 1(1), of "a_id a" 1] show ?case by (auto simp: io_bind_def io_simps)
  qed
  consider "k = 1" | "k = 2" | "k = 3" | "k = 4" | "k = 5" using assms by linarith
  then show ?thesis
  proof cases
    case 1
    with mark show ?thesis by (simp add: run_step_def step_defs step_mark_deleting_def)
  next
    case 2
    then show ?thesis
      by (simp add: run_step_def step_defs step_delete_capp_resources_def Let_def)
        (intro saves_bind external_only_external codes save; simp)
  next
    case 3
    then show ?thesis
      by (simp add: run_step_def step_defs step_delete_images_def)
        (intro saves_bind external_only_list external_only_delete_entries;
          simp add: step_defs saves_raise codes save)
  next
    case 4
    then show ?thesis
      by (simp add: run_step_def step_defs step_archive_script_def)
        (intro saves_bind external_only_external codes save; simp)
  next
    case 5
    with saves_save [of "a_id a" 5] show ?thesis by (simp add: run_step_def step_defs step_mark_deleted_def)
  qed
qed

text \<open>The verdict of a run that had the row to itself: finished and deleted, or stopped with a
  code and the row still deleting at the step the result reports.\<close>

definition cascade_verdict :: "uuid \<Rightarrow> automation \<Rightarrow> (exn + cascade_result) \<times> 'x world \<Rightarrow> bool" where
  "cascade_verdict i a out \<longleftrightarrow>
     (\<exists>res a'. fst out = Inr res \<and> find_automation (w_db (snd out)) i = Some a' \<and> w_env (snd out) = []
        \<and> cr_matching_state res = a_matching_state a' \<and> cr_delete_cascade_step res = a_delete_cascade_step a'
        \<and> cascade_position a \<le> cascade_position a'
        \<and> (cr_error res = None \<and> a_matching_state a' = DELETED
           \<or> (\<exists>code. cr_error res = Some code \<and> code \<noteq> no_progress \<and> in_cascade a')))"

lemma cascade_loop_deleted:
  "a_matching_state a = DELETED \<Longrightarrow> 0 < n \<Longrightarrow> cascade_loop deps i n a w = (Inr (result_of a None), w)"
  by (cases n) (simp_all add: io_simps)

lemma cascade_loop_outside:
  assumes "a_matching_state a \<noteq> DELETING" and "0 < n"
  shows "cascade_loop deps i n a w =
    (if a_matching_state a = DELETED then Inr (result_of a None)
     else Inl (AutomationLifecycleConflictError (a_matching_state a)), w)"
  using assms by (cases n) (simp_all add: io_simps)

lemma cascade_loop_verdict:
  assumes "w_env w = []" and "find_automation (w_db w) i = Some a"
    and "in_cascade a" and "m = 4 - cascade_position a" and "m + 2 \<le> n"
  shows "cascade_verdict i a (cascade_loop deps i n a w)"
  using assms
proof (induction m arbitrary: w a n rule: less_induct)
  case (less m)
  let ?k = "cascade_position a + 1"
  have id: "a_id a = i" using less.prems(2) by (rule atab.get_key)
  have k: "1 \<le> ?k" "?k \<le> 5" using less.prems(3) by (auto simp: in_cascade_def)
  obtain n' where n: "n = Suc n'" using less.prems(5) by (cases n) auto
  obtain r w1 where step: "run_step deps ?k a w = (r, w1)" by (cases "run_step deps ?k a w")
  note sv = saves_run_step [OF k, of a deps, unfolded saves_def id, rule_format, OF less.prems(1) step]
  show ?case
  proof (cases r)
    case (Inl e)
    with sv obtain st code where e: "e = CascadeStepError st code" "code \<noteq> no_progress" "w_db w1 = w_db w"
      by auto
    have "cascade_loop deps i n a w = (Inr (result_of a (Some code)), w1)"
      using less.prems(3) step Inl e
      by (simp add: n in_cascade_def io_bind_def try_step_def io_catch_def io_simps next_step_in_cascade)
    with e less.prems(2,3) sv show ?thesis
      by (auto simp: cascade_verdict_def result_of_def)
  next
    case (Inr u)
    with sv have db: "w_db w1 = checkpointed i ?k (w_clock w) (w_db w)" and env: "w_env w1 = []" by auto
    let ?ms = "if ?k = 5 then Some DELETED else None"
    let ?a = "advance ?k ?ms (w_clock w) a"
    have find: "find_automation (w_db w1) i = Some ?a"
      unfolding db by (rule find_checkpointed [OF less.prems(2,3) refl])
    have loop: "cascade_loop deps i n a w = cascade_loop deps i n' ?a w1"
      using less.prems(3) step Inr snapshot_alone [OF env find]
      by (simp add: n in_cascade_def io_bind_def try_step_def io_catch_def io_simps next_step_in_cascade)
    have pos: "cascade_position ?a = ?k" by (rule advance_in_cascade(2) [OF less.prems(3) refl])
    show ?thesis
    proof (cases "?k = 5")
      case True
      then have del: "a_matching_state ?a = DELETED" by (simp add: advance_def)
      then have "cascade_loop deps i n' ?a w1 = (Inr (result_of ?a None), w1)"
        using n less.prems(5) by (intro cascade_loop_deleted) simp_all
      with loop find del pos env show ?thesis
        by (auto simp: cascade_verdict_def result_of_def)
    next
      case False
      then have "?k < 5" using k by simp
      then have inc: "in_cascade ?a" by (rule advance_in_cascade(1) [OF less.prems(3) refl])
      have "cascade_verdict i ?a (cascade_loop deps i n' ?a w1)"
        by (rule less.IH [OF _ env find inc refl]) (use pos \<open>?k < 5\<close> n less.prems(4,5) in auto)
      with loop pos show ?thesis by (auto simp: cascade_verdict_def)
    qed
  qed
qed

section \<open>Concurrent runners\<close>

definition is_deleted :: "uuid \<Rightarrow> database \<Rightarrow> bool" where
  "is_deleted i d \<longleftrightarrow> (\<exists>b. find_automation d i = Some b \<and> a_matching_state b = DELETED)"

text \<open>What a runner knows of a row it has read: once deleted, deleted for good.\<close>

definition snapshot_ok :: "uuid \<Rightarrow> automation \<Rightarrow> database \<Rightarrow> bool" where
  "snapshot_ok i a d \<longleftrightarrow> db_ok d \<and> (a_matching_state a = DELETED \<longrightarrow> is_deleted i d)"

lemma stable_snapshot_ok: "stable service_steps (snapshot_ok i a)"
proof (rule stableI)
  fix d d'
  assume steps: "service_steps d d'" and ok: "snapshot_ok i a d"
  then have "rows_progress d d'" "db_ok d'"
    using service_steps_progress [OF steps] service_steps_ok [OF steps]
    by (auto simp: snapshot_ok_def db_progress_def)
  with ok show "snapshot_ok i a d'"
    by (fastforce simp: snapshot_ok_def is_deleted_def rows_progress_def row_progress_def)
qed

lemma snapshot_spec: "io_spec service_steps db_ok (snapshot i) (\<lambda>a. snapshot_ok i a)"
  unfolding snapshot_def
  by (rule svc.spec_read [OF svc.P_stable])
    (auto simp: snapshot_query_def snapshot_ok_def is_deleted_def split: option.splits)

lemma cascade_loop_spec:
  "io_spec service_steps (snapshot_ok i a) (cascade_loop deps i n a) (\<lambda>res d. completed res \<longrightarrow> is_deleted i d)"
proof (induction n arbitrary: a)
  case 0
  show ?case by simp (rule svc.spec_return, simp add: snapshot_ok_def completed_def result_of_def)
next
  case (Suc n)
  have step: "io_spec service_steps (snapshot_ok i a) (try_step deps a) (\<lambda>_. db_ok)"
    using svc.serves_try_step [OF TrueI, of deps a] unfolding serves_def
    by (rule io_spec_weaken) (simp_all add: snapshot_ok_def)
  show ?case
  proof (cases "a_matching_state a = DELETED")
    case True
    then show ?thesis by simp (rule svc.spec_return, simp add: snapshot_ok_def)
  next
    case False
    have next_pass: "io_spec service_steps db_ok (case stopped of
        Some code \<Rightarrow> io_return (result_of a (Some code))
      | None \<Rightarrow> io_bind (snapshot i) (\<lambda>a'. cascade_loop deps i n a'))
        (\<lambda>res d. completed res \<longrightarrow> is_deleted i d)" for stopped
    proof (cases stopped)
      case None
      then show ?thesis by simp (rule svc.spec_bind [OF snapshot_spec Suc.IH])
    next
      case (Some code)
      then show ?thesis using False
        by simp (rule svc.spec_return, simp add: completed_def result_of_def)
    qed
    show ?thesis using False
      by simp (intro impI conjI svc.spec_raise svc.spec_bind [OF step next_pass])
  qed
qed

lemma run_cascade_spec:
  "io_spec service_steps db_ok (run_cascade deps i) (\<lambda>res d. completed res \<longrightarrow> is_deleted i d)"
  unfolding run_cascade_def by (rule svc.spec_bind [OF snapshot_spec cascade_loop_spec])

lemma run_cascade_up:
  assumes "w_env w = []" and "services_up deps invent"
    and "find_automation (w_db w) i = Some a" and "in_cascade a"
  shows "cascade_done i a (invent (w_ext w) i) w (run_cascade deps i w)"
  using cascade_loop_up [OF assms(2,1,3,4) refl, of MAX_ITERATIONS] snapshot_alone [OF assms(1,3)]
  by (simp add: run_cascade_def io_bind_def MAX_ITERATIONS_def STEP_DELETED_def)

section \<open>Samples\<close>

definition sample_deps :: "(uuid \<Rightarrow> pystr list) cascade_deps" where
  "sample_deps =
     \<lparr>cd_capp = \<lparr>d_delete_capp = (\<lambda>w n x. (Inr (), x)), d_delete_secret = (\<lambda>w n x. (Inr (), x))\<rparr>,
      cd_registry = \<lparr>rc_list_image_entries = (\<lambda>i x. (Inr (x i), x)),
                     rc_delete_image = (\<lambda>i e x. (Inr (), x(i := removeAll e (x i))))\<rparr>,
      cd_git = \<lparr>g_commit_script = (\<lambda>p s m x. (Inr [], x)), g_read_script = (\<lambda>p x. (Inr None, x)),
                g_archive = (\<lambda>i a x. (Inr [], x))\<rparr>\<rparr>"

lemma sample_services_up: "services_up sample_deps (\<lambda>x. x)"
  by (simp add: services_up_def sample_deps_def)

lemma sample_in_cascade: "k \<in> {1..4} \<Longrightarrow> in_cascade (sample_row DELETING bs sha (Some k) dep)"
  by (simp add: in_cascade_def cascade_position_def)

lemma sample_find [simp]: "find_automation (sample_db (sample_row ms bs sha step dep)) sample_id = Some (sample_row ms bs sha step dep)"
  by (simp add: find_automation_def)

section \<open>Properties\<close>

text \<open>C5. With no concurrent runner and every external system up, a cascade started from any
  checkpoint finishes: it returns \<open>completed\<close> with no error, the row is deleted at step 5 and
  otherwise as it was, every other row, every revision and every run is untouched, and what it
  did outside is exactly the remaining steps in order, each external deletion before the
  checkpoint that records it: the Capp, then the run-auth Secret, then every listed image and
  the empty re-listing, then the git archive.\<close>

theorem cascade_completes:
  assumes "w_env w = []" and "services_up deps invent"
    and "find_automation (w_db w) i = Some a" and "in_cascade a"
  shows "cascade_done i a (invent (w_ext w) i) w (run_cascade deps i w)"
  using assms by (rule run_cascade_up)

theorem cascade_completes_witness:
  "w_trace (snd (run_cascade sample_deps sample_id
      (sample_world [] (\<lambda>_. [str ''v1'']) (sample_row DELETING IDLE None (Some 2) (Some (str ''dep'')))))) =
    [Called (RegistryList sample_id), Called (RegistryDelete sample_id (str ''v1'')),
     Called (RegistryList sample_id), Committed,
     Called (GitArchive sample_id (str ''bob'')), Committed, Committed]"
proof -
  let ?a = "sample_row DELETING IDLE None (Some 2) (Some (str ''dep''))"
  let ?w = "sample_world [] (\<lambda>_. [str ''v1'']) ?a"
  have "cascade_done sample_id ?a (w_ext ?w sample_id) ?w (run_cascade sample_deps sample_id ?w)"
    by (rule cascade_completes [OF _ sample_services_up]) (simp_all add: sample_in_cascade)
  then show ?thesis
    by (simp add: cascade_done_def cascade_trace_def cascade_position_def step_trace_def upt_conv_Cons)
qed

text \<open>C10. Whatever the external systems answer, a cascade that has the row to itself always
  returns (it never runs out of its 20 iterations) and never reports a deletion that did not
  happen: with no error the row is deleted, and with an error code the row is still deleting,
  at exactly the step the result reports and never behind the one it started from.\<close>

theorem cascade_stops_safely:
  assumes "w_env w = []" and "find_automation (w_db w) i = Some a" and "in_cascade a"
  shows "cascade_verdict i a (run_cascade deps i w)"
  using cascade_loop_verdict [OF assms refl, of MAX_ITERATIONS] snapshot_alone [OF assms(1,2)]
  by (simp add: run_cascade_def io_bind_def MAX_ITERATIONS_def STEP_DELETED_def)

theorem cascade_stops_safely_witness:
  "case run_cascade (sample_deps\<lparr>cd_capp := UnconfiguredCappDeletionClient\<rparr>) sample_id
      (sample_world [] (\<lambda>_. []) (sample_row DELETING IDLE None (Some 1) None)) of
     (r, w') \<Rightarrow> (\<exists>res. r = Inr res \<and> cr_error res \<noteq> Some no_progress)"
proof -
  let ?a = "sample_row DELETING IDLE None (Some 1) None"
  have "cascade_verdict sample_id ?a (run_cascade (sample_deps\<lparr>cd_capp := UnconfiguredCappDeletionClient\<rparr>)
      sample_id (sample_world [] (\<lambda>_. []) ?a))"
    by (rule cascade_stops_safely) (simp_all add: sample_in_cascade)
  then show ?thesis by (auto simp: cascade_verdict_def)
qed

text \<open>A stopped cascade can always be resumed to the end: after an attempt against any
  external systems, one resume with them up completes the deletion.\<close>

lemma resume_finishes_stopped_cascade:
  assumes "w_env w = []" and "find_automation (w_db w) i = Some a" and "in_cascade a"
    and "services_up deps invent" and "run_cascade broken i w = (r, w1)"
  shows "\<exists>res w2. resume_delete deps i w1 = (Inr res, w2) \<and> completed res \<and> cr_error res = None
    \<and> (\<exists>b. find_automation (w_db w2) i = Some b \<and> a_matching_state b = DELETED)"
proof -
  have "cascade_verdict i a (r, w1)"
    using cascade_loop_verdict [OF assms(1-3) refl, of MAX_ITERATIONS broken] snapshot_alone [OF assms(1,2)] assms(5)
    by (simp add: run_cascade_def io_bind_def MAX_ITERATIONS_def STEP_DELETED_def)
  then obtain b where b: "find_automation (w_db w1) i = Some b" "w_env w1 = []"
      "a_matching_state b = DELETED \<or> in_cascade b"
    by (auto simp: cascade_verdict_def)
  show ?thesis
  proof (cases "a_matching_state b = DELETED")
    case True
    then have "resume_delete deps i w1 = (Inr (result_of b None), w1)"
      using b cascade_loop_deleted [of b MAX_ITERATIONS]
      by (simp add: resume_delete_def run_cascade_def io_bind_def snapshot_alone MAX_ITERATIONS_def STEP_DELETED_def)
    with True b show ?thesis by (auto simp: completed_def result_of_def)
  next
    case False
    with b have "cascade_done i b (invent (w_ext w1) i) w1 (run_cascade deps i w1)"
      using cascade_loop_up [OF assms(4) b(2,1) _ refl, of MAX_ITERATIONS] snapshot_alone [OF b(2,1)]
      by (simp add: run_cascade_def io_bind_def MAX_ITERATIONS_def STEP_DELETED_def)
    then show ?thesis
      by (cases "run_cascade deps i w1")
        (auto simp: cascade_done_def resume_delete_def completed_def result_of_def deleted_row_def)
  qed
qed

lemma resume_finishes_stopped_cascade_witness:
  "case run_cascade (sample_deps\<lparr>cd_capp := UnconfiguredCappDeletionClient\<rparr>) sample_id
      (sample_world [] (\<lambda>_. []) (sample_row DELETING IDLE None (Some 1) None)) of
     (r, w1) \<Rightarrow> (\<exists>res w2. resume_delete sample_deps sample_id w1 = (Inr res, w2) \<and> completed res)"
proof -
  let ?w = "sample_world [] (\<lambda>_. []) (sample_row DELETING IDLE None (Some 1) None)"
  let ?run = "run_cascade (sample_deps\<lparr>cd_capp := UnconfiguredCappDeletionClient\<rparr>) sample_id ?w"
  obtain r w1 where run: "?run = (r, w1)" by (cases ?run)
  from resume_finishes_stopped_cascade [OF _ _ _ sample_services_up run] run show ?thesis
    by (auto simp: sample_in_cascade)
qed

text \<open>C9. A cascade never reports a false completion, under any concurrency: when other
  requests and other runners act between its sessions in any way the service allows, external
  systems answer anything and database sessions fail at will, a run that returns \<open>completed\<close>
  leaves the row deleted.\<close>

theorem completed_means_deleted:
  assumes "env_rely service_steps w" and "db_ok (w_db w)"
    and "run_cascade deps i w = (Inr res, w')" and "completed res"
  shows "is_deleted i (w_db w')"
  using io_specD(3) [OF run_cascade_spec assms(1,2,3) refl] assms(4) by simp

theorem completed_means_deleted_witness:
  "case run_cascade sample_deps sample_id
      (sample_world [] (\<lambda>_. []) (sample_row DELETED IDLE None (Some 5) None)) of
     (r, w') \<Rightarrow> (\<exists>res. r = Inr res \<and> completed res) \<and> is_deleted sample_id (w_db w')"
proof -
  let ?a = "sample_row DELETED IDLE None (Some 5) None"
  let ?w = "sample_world [] (\<lambda>_. []) ?a"
  have run: "run_cascade sample_deps sample_id ?w = (Inr (result_of ?a None), ?w)"
    by (simp add: run_cascade_def io_bind_def snapshot_alone cascade_loop_deleted MAX_ITERATIONS_def STEP_DELETED_def)
  have "completed (result_of ?a None)" by (simp add: completed_def result_of_def)
  with completed_means_deleted [OF _ _ run] show ?thesis
    by (simp add: run sample_db_ok)
qed

text \<open>Resuming is never an implicit delete: a cascade run on an automation that was never
  deleted raises the lifecycle conflict and does nothing, and on one that is already deleted it
  reports that and does nothing.\<close>

lemma run_cascade_outside_deletion:
  assumes "w_env w = []" and "find_automation (w_db w) i = Some a" and "a_matching_state a \<noteq> DELETING"
  shows "run_cascade deps i w =
    (if a_matching_state a = DELETED then Inr (result_of a None)
     else Inl (AutomationLifecycleConflictError (a_matching_state a)), w)"
proof -
  have "cascade_loop deps i MAX_ITERATIONS a w =
      (if a_matching_state a = DELETED then Inr (result_of a None)
       else Inl (AutomationLifecycleConflictError (a_matching_state a)), w)"
    by (rule cascade_loop_outside) (use assms(3) in \<open>simp_all add: MAX_ITERATIONS_def STEP_DELETED_def\<close>)
  with assms(1,2) show ?thesis by (simp add: run_cascade_def io_bind_def snapshot_alone)
qed

lemma run_cascade_outside_deletion_witness:
  "run_cascade sample_deps sample_id (sample_world [] (\<lambda>_. []) (sample_row ACTIVE IDLE None None None))
     = (Inl (AutomationLifecycleConflictError ACTIVE), sample_world [] (\<lambda>_. []) (sample_row ACTIVE IDLE None None None))"
  using run_cascade_outside_deletion
    [of "sample_world [] (\<lambda>_. []) (sample_row ACTIVE IDLE None None None)" sample_id
      "sample_row ACTIVE IDLE None None None" sample_deps]
  by simp

text \<open>Admitting a delete with no concurrent request: a row mid-build is refused and a row
  already in deletion is returned unchanged, both with nothing written or signalled; otherwise
  the row is marked deleting at step 1 with its generation one higher and the deleting actor,
  one \<open>delete\<close> revision is appended, the reload signal follows the commit, and asking again
  changes nothing.\<close>

lemma begin_delete_admits_once:
  assumes "w_env w = []" and "db_ok (w_db w)" and "scoped_get t i (w_db w) = Inr a"
    and "begin_delete t i actor w = (r, w')"
  shows "if a_matching_state a \<in> set DELETION_STATES
    then r = Inr \<lparr>da_automation = a, da_started = False\<rparr> \<and> w' = w
    else if a_build_state a = BUILDING then r = Inl AutomationBuildingError \<and> w' = w
    else \<exists>a'. a' = a\<lparr>a_matching_state := DELETING, a_delete_cascade_step := Some 1,
                a_index_generation := a_index_generation a + 1,
                a_updated_by := actor, a_updated_at := w_clock w\<rparr>
      \<and> r = Inr \<lparr>da_automation = a', da_started = True\<rparr>
      \<and> w_db w' = add_revision
           \<lparr>rv_automation_id = i, rv_action = DELETE, rv_git_sha = None,
            rv_resulting_digest = a_active_digest a, rv_actor = actor, rv_created_at = w_clock w\<rparr>
           (put_automation a' (w_db w))
      \<and> w_trace w' = w_trace w @ [Committed, PublishReload]
      \<and> begin_delete t i other w' = (Inr \<lparr>da_automation = a', da_started = False\<rparr>, w')"
proof -
  let ?a = "a\<lparr>a_matching_state := DELETING, a_delete_cascade_step := Some 1,
      a_index_generation := a_index_generation a + 1, a_updated_by := actor, a_updated_at := w_clock w\<rparr>"
  let ?rev = "\<lparr>rv_automation_id = i, rv_action = DELETE, rv_git_sha = None,
      rv_resulting_digest = a_active_digest a, rv_actor = actor, rv_created_at = w_clock w\<rparr>"
  note id = scoped_get_InrD [OF assms(3)] and d = db_okD(1) [OF assms(2)]
  have again: "scoped_get t i (add_revision ?rev (put_automation ?a (w_db w))) = Inr ?a"
    using d id db_ok_scoped(3) [OF assms(2,3)] by (simp add: scoped_get_find table_simps)
  show ?thesis
    using assms id again
    by (auto simp: begin_delete_def begin_delete_tx_def io_bind_def io_simps Let_def step_defs)
qed

lemma begin_delete_admits_once_witness:
  "case begin_delete (str ''acme'') sample_id (str ''ann'')
      (sample_world [] () (sample_row ACTIVE IDLE None None None)) of
     (r, w') \<Rightarrow> begin_delete (str ''acme'') sample_id (str ''eve'') w' \<noteq> (r, w')
       \<and> w_trace w' = [Committed, PublishReload]"
proof -
  let ?w = "sample_world [] () (sample_row ACTIVE IDLE None None None)"
  obtain r w' where run: "begin_delete (str ''acme'') sample_id (str ''ann'') ?w = (r, w')" by fastforce
  have "db_ok (w_db ?w)" by (simp add: sample_db_ok)
  from begin_delete_admits_once [OF _ this _ run, of "sample_row ACTIVE IDLE None None None" "str ''eve''"] run
  show ?thesis by (auto simp: scoped_get_def)
qed

end
