(* ===== verification/Deboard.thy ===== *)
theory Deboard
  imports Cascade_Correct
begin

text \<open>
  \<open>deboard_wallet\<close> of \<open>src/bl/cascade.py\<close> as a whole: the pass over the automations of one tenant
  and wallet accounts for each of them in every environment, and with the external systems up it
  deletes all of them but the ones it has to leave for a later pass.
\<close>

section \<open>One child, every external system up\<close>

text \<open>The children a pass leaves alone: admitted to nothing while their build is in flight.\<close>

definition mid_build :: "database \<Rightarrow> uuid \<Rightarrow> bool" where
  "mid_build d i \<longleftrightarrow> (\<exists>a. find_automation d i = Some a \<and> a_matching_state a \<notin> set DELETION_STATES
     \<and> a_build_state a = BUILDING)"

lemma mid_build_skipped:
  assumes "w_env w = []" and "db_ok (w_db w)" and "find_automation (w_db w) i = Some a"
    and "a_tenant_id a = t" and "mid_build (w_db w) i"
  shows "deboard_admit t i actor w = (Inr SkippedBuilding, w)"
proof -
  have "scoped_get t i (w_db w) = Inr a"
    using db_okD(1) [OF assms(2)] assms(3,4) by (simp add: scoped_get_find)
  with assms(1,3,5) show ?thesis
    by (auto simp: deboard_admit_def begin_delete_def begin_delete_tx_def mid_build_def io_catch_def
        io_bind_def io_simps)
qed

lemma child_deleted:
  assumes env: "w_env w = []" and up: "services_up deps invent" and db: "db_ok (w_db w)"
    and a: "find_automation (w_db w) i = Some a" "a_tenant_id a = t" "a_matching_state a \<noteq> DELETED"
    and free: "\<not> mid_build (w_db w) i"
  obtains w1 w2 where "deboard_admit t i actor w = (Inr Admitted, w1)" and "deboard_run deps i w1 = (Inr True, w2)"
    and "w_env w2 = []" and "db_ok (w_db w2)" and "is_deleted i (w_db w2)"
    and "\<forall>j. j \<noteq> i \<longrightarrow> find_automation (w_db w2) j = find_automation (w_db w) j"
proof -
  have get: "scoped_get t i (w_db w) = Inr a"
    using db_okD(1) [OF db] a(1,2) by (simp add: scoped_get_find)
  have row: "deletion_ok a" using db_ok_scoped [OF db get] by (simp add: row_ok_def)
  have "\<exists>w1 b. deboard_admit t i actor w = (Inr Admitted, w1) \<and> w_env w1 = [] \<and> db_ok (w_db w1)
      \<and> find_automation (w_db w1) i = Some b \<and> in_cascade b
      \<and> (\<forall>j. j \<noteq> i \<longrightarrow> find_automation (w_db w1) j = find_automation (w_db w) j)"
  proof (cases "a_matching_state a = DELETING")
    case True
    with get env have "deboard_admit t i actor w = (Inr Admitted, w)"
      by (simp add: deboard_admit_def begin_delete_def begin_delete_tx_def io_catch_def io_bind_def io_simps)
    with True row env db a(1) show ?thesis
      by (auto simp: in_cascade_def deletion_ok_def cascade_position_def)
  next
    case False
    define b where "b = a\<lparr>a_matching_state := DELETING, a_delete_cascade_step := Some STEP_MARKED_DELETING,
      a_index_generation := a_index_generation a + 1, a_updated_by := actor, a_updated_at := w_clock w\<rparr>"
    obtain d1 where tx: "begin_delete_tx t i actor (w_clock w) (w_db w) = Inr (\<lparr>da_automation = b, da_started = True\<rparr>, Some d1)"
      and d1: "d1 = add_revision \<lparr>rv_automation_id = i, rv_action = DELETE, rv_git_sha = None,
          rv_resulting_digest = a_active_digest a, rv_actor = actor, rv_created_at = w_clock w\<rparr> (put_automation b (w_db w))"
      using get False a free scoped_get_InrD(1) [OF get]
      by (auto simp: begin_delete_tx_def mid_build_def b_def Let_def)
    have "a_id b = i" using scoped_get_InrD(1) [OF get] by (simp add: b_def)
    moreover have "in_cascade b" by (simp add: b_def in_cascade_def cascade_position_def STEP_MARKED_DELETING_def)
    moreover have "deboard_admit t i actor w = (Inr Admitted, w\<lparr>w_db := d1, w_trace := w_trace w @ [Committed, PublishReload]\<rparr>)"
      using env tx by (simp add: deboard_admit_def begin_delete_def io_catch_def io_bind_def io_simps)
    ultimately show ?thesis using env a(1) begin_delete_ok [OF db tx]
      by (auto simp: d1 table_simps)
  qed
  then obtain w1 b where w1: "deboard_admit t i actor w = (Inr Admitted, w1)" "w_env w1 = []" "db_ok (w_db w1)"
      "find_automation (w_db w1) i = Some b" "in_cascade b"
      "\<forall>j. j \<noteq> i \<longrightarrow> find_automation (w_db w1) j = find_automation (w_db w) j" by blast
  have cd: "cascade_done i b (invent (w_ext w1) i) w1 (run_cascade deps i w1)"
    by (rule run_cascade_up [OF w1(2) up w1(4,5)])
  obtain w2 where run: "run_cascade deps i w1 = (Inr (result_of (deleted_row b (w_clock w1)) None), w2)"
    using cd by (cases "run_cascade deps i w1") (auto simp: cascade_done_def)
  then have "deboard_run deps i w1 = (Inr True, w2)"
    by (simp add: deboard_run_def io_catch_def io_bind_def io_return_def completed_def result_of_def deleted_row_def)
  moreover have "db_ok (w_db w2)"
    using io_specD(1) [OF run_cascade_spec _ w1(3) run] w1(2,3) by (auto intro: service_steps_ok)
  ultimately show thesis using that [OF w1(1)] cd run w1(2,6)
    by (auto simp: cascade_done_def is_deleted_def deleted_row_def)
qed

text \<open>The whole loop over distinct children of the tenant.\<close>

lemma deboard_loop_up:
  assumes "w_env w = []" and up: "services_up deps invent" and "db_ok (w_db w)" and "distinct ids"
    and "\<forall>i \<in> set ids. \<exists>a. find_automation (w_db w) i = Some a \<and> a_tenant_id a = t \<and> a_matching_state a \<noteq> DELETED"
  shows "\<exists>w'. deboard_loop deps t actor s ids w =
      (Inr (s\<lparr>ds_deleted := ds_deleted s @ filter (\<lambda>i. \<not> mid_build (w_db w) i) ids,
             ds_skipped_building := ds_skipped_building s @ filter (mid_build (w_db w)) ids\<rparr>), w')
    \<and> db_ok (w_db w') \<and> (\<forall>i \<in> set ids. \<not> mid_build (w_db w) i \<longrightarrow> is_deleted i (w_db w'))
    \<and> (\<forall>j. j \<notin> set ids \<or> mid_build (w_db w) j \<longrightarrow> find_automation (w_db w') j = find_automation (w_db w) j)"
  using assms(1,3-)
proof (induction ids arbitrary: w s)
  case Nil
  then show ?case by (simp add: io_simps)
next
  case (Cons i ids)
  obtain a where a: "find_automation (w_db w) i = Some a" "a_tenant_id a = t" "a_matching_state a \<noteq> DELETED"
    using Cons.prems(4) by auto
  show ?case
  proof (cases "mid_build (w_db w) i")
    case True
    from mid_build_skipped [OF Cons.prems(1,2) a(1,2) True] Cons.prems True
      Cons.IH [of w "s\<lparr>ds_skipped_building := ds_skipped_building s @ [i]\<rparr>"]
    show ?thesis by (auto simp: io_bind_def)
  next
    case False
    obtain w1 w2 where w2: "deboard_admit t i actor w = (Inr Admitted, w1)" "deboard_run deps i w1 = (Inr True, w2)"
        "w_env w2 = []" "db_ok (w_db w2)" "is_deleted i (w_db w2)"
      and others: "\<forall>j. j \<noteq> i \<longrightarrow> find_automation (w_db w2) j = find_automation (w_db w) j"
      by (rule child_deleted [OF Cons.prems(1) up Cons.prems(2) a False])
    have mb: "mid_build (w_db w2) j = mid_build (w_db w) j" if "j \<noteq> i" for j
      using others that by (simp add: mid_build_def)
    have i: "i \<notin> set ids" using Cons.prems(3) by simp
    then have mb': "mid_build (w_db w2) j = mid_build (w_db w) j" if "j \<in> set ids" for j
      using mb [of j] that by auto
    then have f: "filter (mid_build (w_db w2)) ids = filter (mid_build (w_db w)) ids"
        "filter (\<lambda>j. \<not> mid_build (w_db w2) j) ids = filter (\<lambda>j. \<not> mid_build (w_db w) j) ids"
      by (simp_all cong: filter_cong)
    from Cons.IH [of w2 "s\<lparr>ds_deleted := ds_deleted s @ [i]\<rparr>"] w2(3,4) Cons.prems(3,4) others i
    obtain w' where w': "deboard_loop deps t actor (s\<lparr>ds_deleted := ds_deleted s @ [i]\<rparr>) ids w2 =
        (Inr (s\<lparr>ds_deleted := (ds_deleted s @ [i]) @ filter (\<lambda>i. \<not> mid_build (w_db w) i) ids,
               ds_skipped_building := ds_skipped_building s @ filter (mid_build (w_db w)) ids\<rparr>), w')"
      and db: "db_ok (w_db w')" and gone: "\<forall>j \<in> set ids. \<not> mid_build (w_db w2) j \<longrightarrow> is_deleted j (w_db w')"
      and kept: "\<forall>j. j \<notin> set ids \<or> mid_build (w_db w2) j \<longrightarrow> find_automation (w_db w') j = find_automation (w_db w2) j"
      unfolding f by fastforce
    have "is_deleted i (w_db w')" using kept i w2(5) by (simp add: is_deleted_def)
    moreover have "is_deleted j (w_db w')" if "j \<in> set ids" "\<not> mid_build (w_db w) j" for j
      using gone that mb i by metis
    moreover have "find_automation (w_db w') j = find_automation (w_db w) j"
      if "j \<noteq> i \<and> j \<notin> set ids \<or> mid_build (w_db w) j" for j
      using kept that others mb False by metis
    ultimately show ?thesis using w2(1,2) w' db False by (auto simp: io_bind_def)
  qed
qed

text \<open>What the query of a pass returns.\<close>

lemma deboard_query_iff:
  assumes "db_ok d"
  shows "i \<in> set (deboard_query t wallet d) \<longleftrightarrow>
    (\<exists>a. find_automation d i = Some a \<and> a_tenant_id a = t \<and> a_namespace a = wallet \<and> a_matching_state a \<noteq> DELETED)"
  using db_okD(1) [OF assms]
  by (auto simp: deboard_query_def atab.get_of_row dest: atab.get_in_rows atab.get_key)

lemma distinct_deboard_query: "db_ok d \<Longrightarrow> distinct (deboard_query t wallet d)"
  using db_okD(1) [of d]
  by (auto simp: deboard_query_def distinct_map inj_on_def)

section \<open>Properties\<close>

text \<open>C31. Deboarding a wallet with no concurrent request and every external system up deletes it:
  of the automations of that tenant and wallet that are not deleted yet, the ones mid-build are
  reported as skipped, all others are reported as deleted and are deleted, whether they were live
  or already in deletion at any checkpoint, nothing is in progress or failed, and no other row
  moves. A later pass finds exactly the skipped ones.\<close>

theorem deboard_deletes_the_wallet:
  assumes env: "w_env w = []" and up: "services_up deps invent" and db: "db_ok (w_db w)"
  shows "\<exists>s w'. deboard_wallet deps t wallet actor w = (Inr s, w')
    \<and> ds_deleted s = filter (\<lambda>i. \<not> mid_build (w_db w) i) (deboard_query t wallet (w_db w))
    \<and> ds_skipped_building s = filter (mid_build (w_db w)) (deboard_query t wallet (w_db w))
    \<and> ds_in_progress s = [] \<and> ds_failed s = []
    \<and> (\<forall>i \<in> set (ds_deleted s). is_deleted i (w_db w'))
    \<and> (\<forall>i. i \<notin> set (ds_deleted s) \<longrightarrow> find_automation (w_db w') i = find_automation (w_db w) i)
    \<and> set (deboard_query t wallet (w_db w')) = set (ds_skipped_building s)"
proof -
  let ?ids = "deboard_query t wallet (w_db w)"
    and ?s = "\<lparr>ds_deleted = [], ds_in_progress = [], ds_skipped_building = [], ds_failed = []\<rparr>"
  note query = deboard_query_iff [OF db, of _ t wallet]
  have ids: "\<forall>i \<in> set ?ids. \<exists>a. find_automation (w_db w) i = Some a \<and> a_tenant_id a = t \<and> a_matching_state a \<noteq> DELETED"
    using query by blast
  obtain w' where w': "deboard_loop deps t actor ?s ?ids w =
      (Inr (?s\<lparr>ds_deleted := filter (\<lambda>i. \<not> mid_build (w_db w) i) ?ids, ds_skipped_building := filter (mid_build (w_db w)) ?ids\<rparr>), w')"
    and db': "db_ok (w_db w')" and gone: "\<forall>i \<in> set ?ids. \<not> mid_build (w_db w) i \<longrightarrow> is_deleted i (w_db w')"
    and kept: "\<forall>j. j \<notin> set ?ids \<or> mid_build (w_db w) j \<longrightarrow> find_automation (w_db w') j = find_automation (w_db w) j"
    using deboard_loop_up [OF env up db distinct_deboard_query [OF db, of t wallet] ids, of actor ?s] by auto
  have "i \<in> set (deboard_query t wallet (w_db w')) \<longleftrightarrow> i \<in> set ?ids \<and> mid_build (w_db w) i" for i
  proof (cases "i \<in> set ?ids \<and> \<not> mid_build (w_db w) i")
    case True
    with gone have "is_deleted i (w_db w')" by blast
    with True show ?thesis by (auto simp: deboard_query_iff [OF db'] is_deleted_def)
  next
    case False
    with kept have "find_automation (w_db w') i = find_automation (w_db w) i" by blast
    with False show ?thesis by (auto simp: deboard_query_iff [OF db'] query)
  qed
  then have "set (deboard_query t wallet (w_db w')) = {i \<in> set ?ids. mid_build (w_db w) i}" by blast
  moreover have "deboard_wallet deps t wallet actor w = deboard_loop deps t actor ?s ?ids w"
    using env by (simp add: deboard_wallet_def io_bind_def read_session_alone)
  ultimately show ?thesis using w' gone kept by (auto simp: Collect_conj_eq)
qed

theorem deboard_deletes_the_wallet_witness:
  "\<exists>s w'. deboard_wallet sample_deps (str ''acme'') (str ''wallet'') (str ''ann'')
       (sample_world [] (\<lambda>_. [str ''v1'']) (sample_row ACTIVE IDLE None None (Some (str ''dep'')))) = (Inr s, w')
     \<and> ds_deleted s = [sample_id] \<and> is_deleted sample_id (w_db w')"
proof -
  let ?w = "sample_world [] (\<lambda>_. [str ''v1'']) (sample_row ACTIVE IDLE None None (Some (str ''dep'')))"
  have "db_ok (w_db ?w)" by (simp add: sample_db_ok)
  from deboard_deletes_the_wallet [OF _ sample_services_up this, of "str ''acme''" "str ''wallet''" "str ''ann''"]
  show ?thesis by (auto simp: deboard_query_def mid_build_def)
qed

text \<open>C32. Deboarding a wallet accounts for every automation of that tenant and wallet that is
  not deleted yet, in every environment: it fails only if the initial query fails, and
  otherwise each queried id is in exactly one of the four lists of the summary, so one child's
  failure never stops the rest.\<close>

theorem deboard_accounts_for_every_child:
  "case read_session False (\<lambda>d. Inr (deboard_query t wallet d)) w of
     (Inl e, w1) \<Rightarrow> deboard_wallet deps t wallet actor w = (Inl e, w1)
   | (Inr ids, w1) \<Rightarrow> (\<exists>s w'. deboard_wallet deps t wallet actor w = (Inr s, w')
       \<and> mset (ds_deleted s @ ds_in_progress s @ ds_skipped_building s @ ds_failed s) = mset ids)"
proof -
  have total: "\<exists>b w'. deboard_admit t i actor w = (Inr b, w')" "\<exists>b w'. deboard_run deps i w = (Inr b, w')" for i w
    by (auto simp: deboard_admit_def deboard_run_def io_catch_def io_return_def split: prod.splits sum.splits)
  have loop: "\<exists>s' w'. deboard_loop deps t actor s ids w = (Inr s', w')
      \<and> mset (ds_deleted s' @ ds_in_progress s' @ ds_skipped_building s' @ ds_failed s')
        = mset (ds_deleted s @ ds_in_progress s @ ds_skipped_building s @ ds_failed s) + mset ids" for s ids w
  proof (induction ids arbitrary: s w)
    case Nil
    show ?case by (simp add: io_simps)
  next
    case (Cons i ids)
    obtain oc w1 where admit: "deboard_admit t i actor w = (Inr oc, w1)" using total(1) by blast
    obtain b w2 where run: "deboard_run deps i w1 = (Inr b, w2)" using total(2) by blast
    show ?case
    proof (cases oc)
      case Admitted
      with admit run show ?thesis
        using Cons.IH [of "if b then s\<lparr>ds_deleted := ds_deleted s @ [i]\<rparr>
          else s\<lparr>ds_in_progress := ds_in_progress s @ [i]\<rparr>" w2]
        by (cases b) (auto simp: io_bind_def ac_simps)
    next
      case SkippedBuilding
      with admit show ?thesis
        using Cons.IH [of "s\<lparr>ds_skipped_building := ds_skipped_building s @ [i]\<rparr>" w1]
        by (auto simp: io_bind_def ac_simps)
    next
      case AdmitFailed
      with admit show ?thesis
        using Cons.IH [of "s\<lparr>ds_failed := ds_failed s @ [i]\<rparr>" w1] by (auto simp: io_bind_def ac_simps)
    qed
  qed
  obtain r w1 where q: "read_session False (\<lambda>d. Inr (deboard_query t wallet d)) w = (r, w1)" by fastforce
  show ?thesis
  proof (cases r)
    case (Inl e)
    with q show ?thesis by (simp add: deboard_wallet_def io_bind_def)
  next
    case (Inr ids)
    with q loop [of "\<lparr>ds_deleted = [], ds_in_progress = [], ds_skipped_building = [], ds_failed = []\<rparr>" ids w1]
    show ?thesis by (auto simp: deboard_wallet_def io_bind_def)
  qed
qed

end
