(* ===== verification/Runs_Correct.thy ===== *)
theory Runs_Correct
  imports Samples
begin

text \<open>
  Attribution of the runs a deletion kills: the outcome when the finalizer runs alone, and its
  guarantee when other workers advance the run between its sessions. \<open>run_rely\<close> is the order
  the code documents: a pending run may be submitted or finished, a submitted one only
  finished, and a finished one never changes.
\<close>

section \<open>The rely\<close>

fun run_rank :: "run_state \<Rightarrow> nat" where
  "run_rank PENDING = 0"
| "run_rank SUBMITTED = 1"
| "run_rank _ = 2"

lemma run_rank_terminal: "run_rank s = 2 \<longleftrightarrow> s \<notin> set OPEN_RUN_STATES"
  by (cases s) auto

lemma run_rank_less: "run_rank s < 2 \<longleftrightarrow> s \<in> set OPEN_RUN_STATES"
  by (cases s) auto

definition run_rely :: "database \<Rightarrow> database \<Rightarrow> bool" where
  "run_rely d d' \<longleftrightarrow>
     (distinct (map r_run_id (runs d)) \<longrightarrow> distinct (map r_run_id (runs d')))
   \<and> (\<forall>i r. find_run d i = Some r \<longrightarrow>
        (\<exists>r'. find_run d' i = Some r' \<and> run_rank (r_state r) \<le> run_rank (r_state r')
           \<and> (run_rank (r_state r) = 2 \<longrightarrow> r' = r)))"

interpretation rrely: db_rely run_rely
proof
  show "run_rely d d" for d by (auto simp: run_rely_def)
next
  fix d d' d''
  assume a: "run_rely d d'" and b: "run_rely d' d''"
  show "run_rely d d''"
    unfolding run_rely_def
  proof (intro conjI impI allI)
    show "distinct (map r_run_id (runs d)) \<Longrightarrow> distinct (map r_run_id (runs d''))"
      using a b by (simp add: run_rely_def)
    fix i r
    assume "find_run d i = Some r"
    then obtain r1 where r1: "find_run d' i = Some r1" "run_rank (r_state r) \<le> run_rank (r_state r1)"
        "run_rank (r_state r) = 2 \<longrightarrow> r1 = r" using a unfolding run_rely_def by blast
    then obtain r2 where r2: "find_run d'' i = Some r2" "run_rank (r_state r1) \<le> run_rank (r_state r2)"
        "run_rank (r_state r1) = 2 \<longrightarrow> r2 = r1" using b unfolding run_rely_def by blast
    with r1 show "\<exists>r'. find_run d'' i = Some r' \<and> run_rank (r_state r) \<le> run_rank (r_state r')
        \<and> (run_rank (r_state r) = 2 \<longrightarrow> r' = r)" by auto
  qed
qed

text \<open>The run is known to have reached rank \<open>k\<close>.\<close>

definition reached :: "uuid \<Rightarrow> nat \<Rightarrow> database \<Rightarrow> bool" where
  "reached run_id k d \<longleftrightarrow> distinct (map r_run_id (runs d))
     \<and> (\<exists>r. find_run d run_id = Some r \<and> k \<le> run_rank (r_state r))"

lemma stable_reached: "stable run_rely (reached run_id k)"
  by (rule stableI) (fastforce simp: reached_def run_rely_def)

definition ids_ok :: "database \<Rightarrow> bool" where
  "ids_ok d \<longleftrightarrow> distinct (map r_run_id (runs d))"

lemma stable_ids_ok: "stable run_rely ids_ok"
  by (rule stableI) (simp add: ids_ok_def run_rely_def)

definition settled :: "uuid \<Rightarrow> automation_run \<Rightarrow> database \<Rightarrow> bool" where
  "settled run_id run d \<longleftrightarrow> find_run d run_id = Some run \<and> r_state run \<notin> set OPEN_RUN_STATES"

lemma find_run_id: "find_run d i = Some r \<Longrightarrow> r_run_id r = i"
  by (rule rtab.get_key)

lemma complete_run_rely:
  assumes "complete_run_tx run_id (Some s) (deletion_values s) now d = Inr (changed, d')"
  shows "run_rely d d'"
proof -
  have "map r_run_id (runs d') = map r_run_id (runs d)"
    using assms rtab.keys_upd [of "\<lambda>r. fold set_value (deletion_values s) (r\<lparr>r_finished_at := Some now\<rparr>)"
        "run_open_at run_id (Some s)" d]
    by (auto simp: complete_run_tx_def)
  moreover have "run_rank (r_state r) \<le> run_rank (r_state (deletion_outcome now r))"
    if "s \<in> set OPEN_RUN_STATES" "r_state r = s" for r
    using that by (auto simp: deletion_outcome_def)
  ultimately show ?thesis
    using find_complete_run [OF assms] by (auto simp: run_rely_def)
qed

lemma complete_run_reached:
  assumes "complete_run_tx run_id (Some s) (deletion_values s) now d = Inr (changed, d')"
    and "reached run_id (run_rank s) d" and "s \<in> set OPEN_RUN_STATES"
  shows "reached run_id (if changed then 2 else Suc (run_rank s)) d'"
proof -
  from assms(2) obtain r where r: "find_run d run_id = Some r" "run_rank s \<le> run_rank (r_state r)"
    and d: "distinct (map r_run_id (runs d))" by (auto simp: reached_def)
  have changed: "changed \<longleftrightarrow> r_state r = s" using complete_run_changed [OF assms(1) d assms(3)] r(1) by auto
  have d': "distinct (map r_run_id (runs d'))" using complete_run_rely [OF assms(1)] d by (simp add: run_rely_def)
  have find: "find_run d' run_id = Some (if r_state r = s then deletion_outcome now r else r)"
    using find_complete_run [OF assms(1), of run_id] r(1) find_run_id [OF r(1)] assms(3) by simp
  show ?thesis
  proof (cases "r_state r = s")
    case True
    with changed find d' assms(3) show ?thesis by (auto simp: reached_def deletion_outcome_def)
  next
    case False
    then have "run_rank s \<noteq> run_rank (r_state r)" using assms(3) by (cases "r_state r") auto
    with False changed find d' r(2) show ?thesis by (auto simp: reached_def)
  qed
qed

lemma load_run_spec:
  "io_spec run_rely (reached run_id k) (load_run run_id)
     (\<lambda>r d. reached run_id k d \<and> find_run d run_id = Some r \<and> k \<le> run_rank (r_state r))"
  unfolding load_run_def
  by (rule rrely.spec_read [OF stable_reached])
    (auto simp: load_run_query_def reached_def split: option.splits)

lemma load_run_settled: "io_spec run_rely (reached run_id 2) (load_run run_id) (\<lambda>r d. settled run_id r d)"
proof (rule io_spec_weaken [OF load_run_spec, of _ run_id 2])
  fix r d
  assume h: "reached run_id 2 d \<and> find_run d run_id = Some r \<and> 2 \<le> run_rank (r_state r)"
  then have "run_rank (r_state r) = 2" by (cases "r_state r") auto
  with h show "settled run_id r d" by (simp add: settled_def run_rank_terminal)
qed

lemma finalize_loop_spec:
  assumes "s \<in> set OPEN_RUN_STATES" and "2 \<le> run_rank s + n"
  shows "io_spec run_rely (reached run_id (run_rank s)) (finalize_loop run_id n s :: ('x, automation_run) io)
    (\<lambda>r d. settled run_id r d)"
  using assms
proof (induction n arbitrary: s)
  case 0
  then show ?case by (auto simp: run_rank_less [symmetric])
next
  case (Suc n)
  let ?Q = "\<lambda>changed. reached run_id (if changed then 2 else Suc (run_rank s))"
  have cas: "io_spec run_rely (reached run_id (run_rank s))
      (complete_run_if_open run_id (Some s) (deletion_values s)) ?Q"
    unfolding complete_run_if_open_def
    by (rule rrely.spec_session [OF stable_reached], rule tx_specI)
      (use complete_run_rely complete_run_reached Suc.prems(1) in blast)
  have retry: "io_spec run_rely (\<lambda>d. reached run_id (Suc (run_rank s)) d \<and> find_run d run_id = Some r
        \<and> Suc (run_rank s) \<le> run_rank (r_state r))
      (if r_state r \<notin> set OPEN_RUN_STATES then io_return r
       else (finalize_loop run_id n (r_state r) :: ('x, automation_run) io))
      (\<lambda>r d. settled run_id r d)" for r
  proof (cases "r_state r \<in> set OPEN_RUN_STATES")
    case False
    then show ?thesis by simp (rule rrely.spec_return, simp add: settled_def)
  next
    case True
    show ?thesis
    proof (cases "Suc (run_rank s) \<le> run_rank (r_state r)")
      case le: True
      have "io_spec run_rely (reached run_id (run_rank (r_state r)))
          (finalize_loop run_id n (r_state r) :: ('x, automation_run) io) (\<lambda>r d. settled run_id r d)"
        by (rule Suc.IH [OF True]) (use Suc.prems(2) le in simp)
      with True show ?thesis by simp (erule io_spec_weaken, auto simp: reached_def)
    qed (simp add: io_spec_def)
  qed
  have "io_spec run_rely (?Q changed)
      (if changed then load_run run_id
       else io_bind (load_run run_id) (\<lambda>current.
         if r_state current \<notin> set OPEN_RUN_STATES then io_return current
         else (finalize_loop run_id n (r_state current) :: ('x, automation_run) io)))
      (\<lambda>r d. settled run_id r d)" for changed
    using load_run_settled rrely.spec_bind [OF load_run_spec retry] by (cases changed) (simp_all only: if_True if_False)
  then show ?case by simp (rule rrely.spec_bind [OF cas])
qed

lemma finalize_spec:
  "io_spec run_rely ids_ok (finalize_terminated_by_deletion run_id) (\<lambda>r d. settled run_id r d)"
proof -
  have load: "io_spec run_rely ids_ok (load_run run_id)
      (\<lambda>r d. reached run_id (run_rank (r_state r)) d \<and> find_run d run_id = Some r)"
    unfolding load_run_def
    by (rule rrely.spec_read [OF stable_ids_ok])
      (auto simp: load_run_query_def reached_def ids_ok_def split: option.splits)
  have state: "io_spec run_rely (reached run_id k) (matching_state_of i) (\<lambda>_. reached run_id k)" for k i
    unfolding matching_state_of_def by (rule rrely.spec_read [OF stable_reached])
  have loop: "io_spec run_rely (reached run_id (run_rank (r_state r)))
      (if st \<notin> set DELETION_STATES then io_raise (AutomationLifecycleConflictError st)
       else finalize_loop run_id 2 (r_state r)) (\<lambda>r d. settled run_id r d)"
    if "r_state r \<in> set OPEN_RUN_STATES" for st r
    by (intro rrely.spec_if rrely.spec_raise finalize_loop_spec that) simp
  have "io_spec run_rely (\<lambda>d. reached run_id (run_rank (r_state r)) d \<and> find_run d run_id = Some r)
      (if r_state r \<notin> set OPEN_RUN_STATES then io_return r
       else io_bind (matching_state_of (r_automation_id r)) (\<lambda>st.
         if st \<notin> set DELETION_STATES then io_raise (AutomationLifecycleConflictError st)
         else finalize_loop run_id 2 (r_state r))) (\<lambda>r d. settled run_id r d)" for r
  proof (cases "r_state r \<in> set OPEN_RUN_STATES")
    case False
    then show ?thesis by simp (rule rrely.spec_return, simp add: settled_def)
  next
    case True
    have "io_spec run_rely (reached run_id (run_rank (r_state r))) (io_bind (matching_state_of (r_automation_id r)) (\<lambda>st.
         if st \<notin> set DELETION_STATES then io_raise (AutomationLifecycleConflictError st)
         else finalize_loop run_id 2 (r_state r))) (\<lambda>r d. settled run_id r d)"
      by (rule rrely.spec_bind [OF state loop [OF True]])
    then show ?thesis
      by (simp only: True not_True_eq_False if_False) (erule io_spec_weaken, simp_all)
  qed
  then show ?thesis
    unfolding finalize_terminated_by_deletion_def by (rule rrely.spec_bind [OF load])
qed

section \<open>Alone\<close>

lemma finalize_alone:
  assumes "w_env w = []" and "distinct (map r_run_id (runs (w_db w)))"
  shows "finalize_terminated_by_deletion run_id w =
    (case find_run (w_db w) run_id of
       None \<Rightarrow> (Inl RunNotFoundError, w)
     | Some run \<Rightarrow>
         if r_state run \<notin> set OPEN_RUN_STATES then (Inr run, w)
         else case find_automation (w_db w) (r_automation_id run) of
           None \<Rightarrow> (Inl AutomationNotFoundError, w)
         | Some a \<Rightarrow>
             if a_matching_state a \<notin> set DELETION_STATES
             then (Inl (AutomationLifecycleConflictError (a_matching_state a)), w)
             else (Inr (deletion_outcome (w_clock w) run),
                   w\<lparr>w_db := update_runs (\<lambda>r. r_run_id r = run_id) (deletion_outcome (w_clock w)) (w_db w),
                     w_trace := w_trace w @ [Committed]\<rparr>))"
proof (cases "find_run (w_db w) run_id")
  case None
  with assms(1) show ?thesis
    by (simp add: finalize_terminated_by_deletion_def io_bind_def load_run_def load_run_query_def io_simps)
next
  case (Some run)
  note id = find_run_id [OF Some]
  let ?d = "update_runs (\<lambda>r. r_run_id r = run_id) (deletion_outcome (w_clock w)) (w_db w)"
  have tx: "complete_run_tx run_id (Some (r_state run)) (deletion_values (r_state run)) (w_clock w) (w_db w)
      = Inr (True, ?d)" if "r_state run \<in> set OPEN_RUN_STATES"
  proof -
    have same: "r = run" if "r \<in> set (runs (w_db w))" "r_run_id r = run_id" for r
      using that assms(2) id rtab.get_in_rows [OF Some] by (auto simp: distinct_map inj_on_def)
    obtain changed d' where tx: "complete_run_tx run_id (Some (r_state run)) (deletion_values (r_state run))
        (w_clock w) (w_db w) = Inr (changed, d')" by (simp add: complete_run_tx_def)
    have changed using complete_run_changed [OF tx assms(2) that] Some by simp
    moreover have "d' = ?d"
    proof -
      have "map (\<lambda>r. if run_open_at run_id (Some (r_state run)) r
            then fold set_value (deletion_values (r_state run)) (r\<lparr>r_finished_at := Some (w_clock w)\<rparr>) else r) (runs (w_db w))
        = map (\<lambda>r. if r_run_id r = run_id then deletion_outcome (w_clock w) r else r) (runs (w_db w))"
        by (rule map_cong [OF refl])
          (use that in \<open>auto simp: run_open_at_def deletion_values_def deletion_outcome_def dest: same\<close>)
      with tx show ?thesis by (auto simp: complete_run_tx_def update_runs_def update_where_def)
    qed
    ultimately show ?thesis using tx by simp
  qed
  have find: "find_run ?d run_id = Some (deletion_outcome (w_clock w) run)"
    using Some id by (simp add: rtab.get_upd deletion_outcome_def)
  show ?thesis using assms(1) Some tx find
    by (auto simp: finalize_terminated_by_deletion_def io_bind_def load_run_def load_run_query_def
        matching_state_of_def matching_state_query_def complete_run_if_open_def io_simps numeral_2_eq_2
        split: option.splits)
qed

section \<open>Samples\<close>

definition sample_run :: "run_state \<Rightarrow> automation_run" where
  "sample_run st = \<lparr>r_run_id = 5, r_automation_id = sample_id, r_tenant_id = str ''acme'',
     r_history_id = str ''h'', r_fingerprint = str ''f'', r_payload = JNull, r_state = st,
     r_suppression_reason = None, r_gate_flags = None, r_automation_digest = Some sample_image,
     r_matched_m = 2, r_attempts = Some 1, r_outcome_status = None, r_failure_class = None,
     r_result = None, r_created_at = 1, r_submitted_at = None, r_finished_at = None\<rparr>"

definition run_world :: "session_env list \<Rightarrow> run_state \<Rightarrow> unit world" where
  "run_world es st = (sample_world es () (sample_row DELETING IDLE None (Some 2) None))
     \<lparr>w_db := (sample_db (sample_row DELETING IDLE None (Some 2) None))\<lparr>runs := [sample_run st]\<rparr>\<rparr>"

lemma run_world_simps [simp]:
  "w_env (run_world es st) = es" "w_clock (run_world es st) = 100"
  "runs (w_db (run_world es st)) = [sample_run st]"
  "find_run (w_db (run_world es st)) 5 = Some (sample_run st)"
  "find_automation (w_db (run_world es st)) sample_id = Some (sample_row DELETING IDLE None (Some 2) None)"
  by (simp_all add: run_world_def find_run_def find_automation_def sample_run_def)

section \<open>Properties\<close>

text \<open>C35. Attributing a run to a deletion, with no concurrent writer: an unknown run, a run of
  an unknown automation and a run of an automation that is not being deleted are refused with
  nothing written; a finished run is returned as it is; a submitted run becomes \<open>failed\<close> with
  class \<open>terminated_by_deletion\<close> and a pending one \<open>suppressed\<close> as \<open>inactive\<close>, with the finish
  time set, every other field of the run kept, and no other run touched.\<close>

theorem finalize_outcome:
  assumes "w_env w = []" and "distinct (map r_run_id (runs (w_db w)))"
    and "finalize_terminated_by_deletion run_id w = (r, w')"
  shows "case find_run (w_db w) run_id of
      None \<Rightarrow> r = Inl RunNotFoundError \<and> w' = w
    | Some run \<Rightarrow>
        if r_state run \<notin> set OPEN_RUN_STATES then r = Inr run \<and> w' = w
        else case find_automation (w_db w) (r_automation_id run) of
          None \<Rightarrow> r = Inl AutomationNotFoundError \<and> w' = w
        | Some a \<Rightarrow>
            if a_matching_state a \<notin> set DELETION_STATES
            then r = Inl (AutomationLifecycleConflictError (a_matching_state a)) \<and> w' = w
            else r = Inr (deletion_outcome (w_clock w) run)
              \<and> find_run (w_db w') run_id = Some (deletion_outcome (w_clock w) run)
              \<and> (\<forall>j. j \<noteq> run_id \<longrightarrow> find_run (w_db w') j = find_run (w_db w) j)
              \<and> automations (w_db w') = automations (w_db w)
              \<and> revisions (w_db w') = revisions (w_db w)"
proof (cases "find_run (w_db w) run_id")
  case None
  with assms(3) finalize_alone [OF assms(1,2), of run_id] show ?thesis by simp
next
  case (Some run)
  have other: "find_run (update_runs (\<lambda>r. r_run_id r = run_id) f d) j = find_run d j"
    if "j \<noteq> run_id" and "\<And>r. r_run_id (f r) = r_run_id r" for f d j
    using that by (auto simp: rtab.get_upd dest!: find_run_id intro!: option.map_ident_strong)
  have id: "r_run_id (deletion_outcome now r) = r_run_id r" for now r by (simp add: deletion_outcome_def)
  have "find_run (update_runs (\<lambda>r. r_run_id r = run_id) (deletion_outcome (w_clock w)) (w_db w)) run_id
      = Some (deletion_outcome (w_clock w) run)"
    using find_run_id [OF Some] by (simp add: rtab.get_upd id Some)
  then show ?thesis
    using Some assms(3) finalize_alone [OF assms(1,2), of run_id]
    by (auto simp: id other table_simps split: option.splits if_splits)
qed

theorem finalize_outcome_witness:
  "(case finalize_terminated_by_deletion 5 (run_world [] SUBMITTED) of
      (r, w') \<Rightarrow> (\<exists>run. r = Inr run \<and> r_state run = FAILED \<and> r_attempts run = Some 1))
   \<and> finalize_terminated_by_deletion 5 (run_world [] SUCCEEDED) = (Inr (sample_run SUCCEEDED), run_world [] SUCCEEDED)
   \<and> finalize_terminated_by_deletion 6 (run_world [] SUBMITTED) = (Inl RunNotFoundError, run_world [] SUBMITTED)"
proof (intro conjI)
  obtain r w' where run: "finalize_terminated_by_deletion 5 (run_world [] SUBMITTED) = (r, w')" by fastforce
  from finalize_outcome [OF _ _ run] run
  show "case finalize_terminated_by_deletion 5 (run_world [] SUBMITTED) of
      (r, w') \<Rightarrow> (\<exists>run. r = Inr run \<and> r_state run = FAILED \<and> r_attempts run = Some 1)"
    by (simp add: sample_run_def deletion_outcome_def)
  obtain r2 w2 where fin: "finalize_terminated_by_deletion 5 (run_world [] SUCCEEDED) = (r2, w2)" by fastforce
  from finalize_outcome [OF _ _ fin] fin
  show "finalize_terminated_by_deletion 5 (run_world [] SUCCEEDED) = (Inr (sample_run SUCCEEDED), run_world [] SUCCEEDED)"
    by (simp add: sample_run_def)
  obtain r3 w3 where none: "finalize_terminated_by_deletion 6 (run_world [] SUBMITTED) = (r3, w3)" by fastforce
  have "find_run (w_db (run_world [] SUBMITTED)) 6 = None" by (simp add: run_world_def find_run_def sample_run_def)
  with finalize_outcome [OF _ _ none] none
  show "finalize_terminated_by_deletion 6 (run_world [] SUBMITTED) = (Inl RunNotFoundError, run_world [] SUBMITTED)"
    by simp
qed

text \<open>C34. The finalizer under concurrency: whatever other workers do to the runs between its
  sessions, as long as a run only moves from pending to submitted to finished, and whichever
  database sessions fail, the finalizer respects that order itself (so it never overwrites a
  finished run), and when it returns a run, that run is finished and is the stored one; its two
  attempts are enough.\<close>

theorem finalize_settles_under_concurrency:
  assumes "env_rely run_rely w" and "distinct (map r_run_id (runs (w_db w)))"
    and "finalize_terminated_by_deletion run_id w = (r, w')"
  shows "run_rely (w_db w) (w_db w')
    \<and> (case r of Inl e \<Rightarrow> True
       | Inr run \<Rightarrow> find_run (w_db w') run_id = Some run \<and> r_state run \<notin> set OPEN_RUN_STATES)"
  using io_specD [OF finalize_spec assms(1) _ assms(3)] assms(2)
  by (auto simp: ids_ok_def settled_def split: sum.splits)

theorem finalize_settles_under_concurrency_witness:
  "case finalize_terminated_by_deletion 5
       (run_world (replicate 3 \<lparr>se_interfere = update_runs (\<lambda>r. r_state r = PENDING) (\<lambda>r. r\<lparr>r_state := SUBMITTED\<rparr>),
          se_elapse = 1, se_outcome = Lands\<rparr>) PENDING) of
     (r, w') \<Rightarrow> run_rely (w_db (run_world [] PENDING)) (w_db w')"
proof -
  let ?e = "\<lparr>se_interfere = update_runs (\<lambda>r. r_state r = PENDING) (\<lambda>r. r\<lparr>r_state := SUBMITTED\<rparr>),
    se_elapse = 1, se_outcome = Lands\<rparr>"
  let ?w = "run_world (replicate 3 ?e) PENDING"
  obtain r w' where run: "finalize_terminated_by_deletion 5 ?w = (r, w')" by fastforce
  have "run_rely d (se_interfere ?e d)" for d
    using rtab.keys_upd [of "\<lambda>r. r\<lparr>r_state := SUBMITTED\<rparr>" "\<lambda>r. r_state r = PENDING" d]
    by (auto simp: run_rely_def rtab.get_upd)
  then have "env_rely run_rely ?w" by (simp add: env_rely_def)
  from finalize_settles_under_concurrency [OF this _ run] have "run_rely (w_db ?w) (w_db w')" by simp
  with run show ?thesis by (simp add: run_world_def)
qed

text \<open>A terminal write is final: once a completion has moved a run to a finished state,
  every later completion of that run, whatever it expects and sets, reports that nothing
  changed and changes nothing.\<close>

lemma terminal_write_is_final:
  assumes "distinct (map r_run_id (runs d))" and "st \<notin> set OPEN_RUN_STATES"
    and "complete_run_tx run_id expected [SetState st, v] now d = Inr (True, d1)"
    and "\<nexists>s. v = SetState s"
  shows "complete_run_tx run_id expected' vals now' d1 = Inr (False, d1)"
proof -
  from assms(3) have d1: "d1 = update_runs (run_open_at run_id expected)
      (\<lambda>r. fold set_value [SetState st, v] (r\<lparr>r_finished_at := Some now\<rparr>)) d"
    and count: "rowcount (run_open_at run_id expected) (runs d) = 1" by (auto simp: complete_run_tx_def)
  have st: "r_state (fold set_value [SetState st, v] r) = st" for r using assms(4) by (cases v) auto
  obtain p where p: "p \<in> set (runs d)" "run_open_at run_id expected p"
    using count by (metis One_nat_def filter_empty_conv length_0_conv n_not_Suc_n rowcount_def)
  have closed: "\<not> run_open_at run_id expected' r" if "r \<in> set (runs d1)" for r
  proof -
    from that obtain q where q: "q \<in> set (runs d)"
      and r: "r = (if run_open_at run_id expected q
            then fold set_value [SetState st, v] (q\<lparr>r_finished_at := Some now\<rparr>) else q)"
      by (auto simp: d1 table_simps set_update_where)
    have "q = p" if "r_run_id q = run_id"
      using p q that assms(1) by (auto simp: run_open_at_def distinct_map inj_on_def)
    with r p assms(2) st show ?thesis by (auto simp: run_open_at_def split: if_splits)
  qed
  then have "update_where (run_open_at run_id expected') f (runs d1) = runs d1" for f
    by (auto simp: update_where_def intro!: map_idI)
  moreover have "rowcount (run_open_at run_id expected') (runs d1) = 0"
    using closed by (simp add: rowcount_def filter_empty_conv)
  ultimately show ?thesis by (simp add: complete_run_tx_def update_runs_def)
qed

lemma terminal_write_is_final_witness:
  "\<exists>d1. complete_run_tx 5 None [SetState SUCCEEDED, SetAttempts 2] 7 (w_db (run_world [] SUBMITTED)) = Inr (True, d1)
     \<and> complete_run_tx 5 (Some SUBMITTED) (deletion_values SUBMITTED) 8 d1 = Inr (False, d1)"
proof -
  let ?d = "w_db (run_world [] SUBMITTED)"
  obtain d1 where c: "complete_run_tx 5 None [SetState SUCCEEDED, SetAttempts 2] 7 ?d = Inr (True, d1)"
    by (simp add: complete_run_tx_def rowcount_def run_open_at_def sample_run_def)
  have "complete_run_tx 5 (Some SUBMITTED) (deletion_values SUBMITTED) 8 d1 = Inr (False, d1)"
    by (rule terminal_write_is_final [OF _ _ c]) simp_all
  with c show ?thesis by blast
qed

end
