(* ===== verification/Api.thy ===== *)
theory Api
  imports Lifecycle Builds Cascade Runs
begin

text \<open>
  The HTTP surface: the identity and response models of \<open>src/models/api/\<close>, the exception
  handlers of \<open>src/main.py\<close>, the routes of \<open>src/api/routes/\<close> and their dependencies in
  \<open>src/api/deps.py\<close>. A route is a computation that returns a response; \<open>handled\<close> is the
  application's exception mapping. The clients a dependency builds are parameters.
\<close>

section \<open>Identity\<close>

record authenticated_entity =
  en_tenant_id :: pystr
  en_email :: pystr

text \<open>The shim that stands in for the identity provider.\<close>

definition get_authenticated_entity :: authenticated_entity where
  "get_authenticated_entity = \<lparr>en_tenant_id = str ''keep'', en_email = str ''noauth@keep''\<rparr>"

definition require_lifecycle_auth :: "pystr \<Rightarrow> authenticated_entity \<Rightarrow> exn + unit" where
  "require_lifecycle_auth auth_type entity =
     (if auth_type = str ''noauth'' \<or> en_email entity = str ''noauth@keep''
      then Inl LifecycleAuthenticationNotConfiguredError else Inr ())"

section \<open>Response models\<close>

record automation_list_item =
  li_id :: uuid
  li_name :: pystr
  li_namespace :: pystr
  li_triggers :: "json list"
  li_matching_state :: pystr
  li_build_state :: pystr
  li_active_digest :: "pystr option"
  li_contract_version :: "pystr option"
  li_created_by :: pystr
  li_updated_by :: pystr
  li_created_at :: datetime
  li_updated_at :: datetime

text \<open>\<open>AutomationOut\<close> extends the list item.\<close>

record automation_out = automation_list_item +
  ao_script :: "pystr option"
  ao_secret_name :: "pystr option"
  ao_cooldown_seconds :: "int option"
  ao_cooldown_fields :: "json list option"
  ao_timeout_seconds :: "int option"
  ao_grace_seconds :: int
  ao_logstash_url :: "pystr option"
  ao_delete_cascade_step :: "nat option"
  ao_index_generation :: int

record lifecycle_status_out =
  ls_id :: uuid
  ls_matching_state :: pystr
  ls_build_state :: pystr
  ls_active_digest :: "pystr option"
  ls_delete_cascade_step :: "nat option"
  ls_index_generation :: int
  ls_updated_by :: pystr
  ls_updated_at :: datetime

definition list_item_of :: "automation \<Rightarrow> automation_list_item" where
  "list_item_of a =
     \<lparr>li_id = a_id a, li_name = a_name a, li_namespace = a_namespace a, li_triggers = a_triggers a,
      li_matching_state = matching_state_value (a_matching_state a),
      li_build_state = build_state_value (a_build_state a),
      li_active_digest = a_active_digest a, li_contract_version = a_contract_version a,
      li_created_by = a_created_by a, li_updated_by = a_updated_by a,
      li_created_at = a_created_at a, li_updated_at = a_updated_at a\<rparr>"

definition detail :: "automation \<Rightarrow> pystr option \<Rightarrow> automation_out" where
  "detail a script =
     \<lparr>li_id = a_id a, li_name = a_name a, li_namespace = a_namespace a, li_triggers = a_triggers a,
      li_matching_state = matching_state_value (a_matching_state a),
      li_build_state = build_state_value (a_build_state a),
      li_active_digest = a_active_digest a, li_contract_version = a_contract_version a,
      li_created_by = a_created_by a, li_updated_by = a_updated_by a,
      li_created_at = a_created_at a, li_updated_at = a_updated_at a,
      ao_script = script, ao_secret_name = a_secret_name a,
      ao_cooldown_seconds = a_cooldown_seconds a, ao_cooldown_fields = a_cooldown_fields a,
      ao_timeout_seconds = a_timeout_seconds a, ao_grace_seconds = a_grace_seconds a,
      ao_logstash_url = a_logstash_url a, ao_delete_cascade_step = a_delete_cascade_step a,
      ao_index_generation = a_index_generation a\<rparr>"

definition lifecycle_status_of :: "automation \<Rightarrow> lifecycle_status_out" where
  "lifecycle_status_of a =
     \<lparr>ls_id = a_id a, ls_matching_state = matching_state_value (a_matching_state a),
      ls_build_state = build_state_value (a_build_state a), ls_active_digest = a_active_digest a,
      ls_delete_cascade_step = a_delete_cascade_step a, ls_index_generation = a_index_generation a,
      ls_updated_by = a_updated_by a, ls_updated_at = a_updated_at a\<rparr>"

datatype body =
    Errors "field_error list"
  | Detail pystr
  | DetailWithState pystr pystr
  | ListBody "automation_list_item list"
  | DetailBody automation_out
  | StatusBody lifecycle_status_out
  | WebhookBody ci_webhook_out
  | FieldsBody "(pystr \<times> pystr) list"
  | NamespacesBody "pystr list"
  | Object "(pystr \<times> pystr) list"
  | EventStream pystr
  | InternalServerError

record response =
  rs_status :: nat
  rs_retry_after :: "pystr option"
  rs_body :: body

abbreviation response_of :: "nat \<Rightarrow> body \<Rightarrow> response" where
  "response_of s b \<equiv> \<lparr>rs_status = s, rs_retry_after = None, rs_body = b\<rparr>"

section \<open>Exception handlers\<close>

text \<open>\<open>get_app\<close>'s handlers; an exception without one is the framework's 500.\<close>

fun error_response :: "exn \<Rightarrow> response" where
  "error_response (AutomationValidationError errors) = response_of 400 (Errors errors)"
| "error_response AutomationNotFoundError = response_of 404 (Detail (str ''Automation not found''))"
| "error_response AutomationBuildingError =
     response_of 409 (Detail (str ''Automation is mid-build; retry after the build completes''))"
| "error_response (AutomationLifecycleConflictError m) =
     response_of 409 (DetailWithState
       (str ''Automation is being deleted or was deleted; this transition is no longer allowed'')
       (matching_state_value m))"
| "error_response BuildNotRecordedError =
     \<lparr>rs_status = 503, rs_retry_after = Some (str ''1''),
      rs_body = Detail (str ''Build result could not be recorded; retry shortly'')\<rparr>"
| "error_response AutomationBusyError =
     \<lparr>rs_status = 503, rs_retry_after = Some (str ''1''),
      rs_body = Detail (str ''Automation is busy; retry shortly'')\<rparr>"
| "error_response LifecycleAuthenticationNotConfiguredError =
     response_of 503 (Detail
       (str ''Lifecycle operations are unavailable until the identity provider is configured''))"
| "error_response AutomationEditSupersededError =
     response_of 409 (Detail
       (str ''The automation changed while this edit was being saved; reload it and retry''))"
| "error_response ScriptRepoUnavailableError =
     response_of 503 (Detail (str ''Script repository is unavailable; retry shortly''))"
| "error_response CappUnavailableError =
     response_of 503 (Detail (str ''Execution platform is unavailable; retry shortly''))"
| "error_response _ = response_of 500 InternalServerError"

definition handled :: "('x, response) io \<Rightarrow> ('x, response) io" where
  "handled m = io_catch m (\<lambda>e. io_return (error_response e))"

text \<open>A pydantic error: its location (parts already rendered by \<open>str\<close>) and its type.\<close>

definition field_of_loc :: "pystr list \<Rightarrow> pystr" where
  "field_of_loc loc =
     (let location = filter (\<lambda>p. p \<noteq> str ''body'') loc;
          joined = concat (case location of [] \<Rightarrow> [] | p # ps \<Rightarrow> p # map (\<lambda>q. str ''.'' @ q) ps)
      in if joined = [] then str ''body'' else joined)"

definition ends_with :: "pystr \<Rightarrow> pystr \<Rightarrow> bool" where
  "ends_with s suffix \<longleftrightarrow> length suffix \<le> length s \<and> drop (length s - length suffix) s = suffix"

definition request_validation_handler :: "(pystr list \<times> pystr) list \<Rightarrow> response" where
  "request_validation_handler errs =
     response_of 400 (Errors (map (\<lambda>(loc, type).
       field_err (field_of_loc loc)
         (if ends_with type (str ''missing'') then FIELD_REQUIRED else INVALID_VALUE)) errs))"

section \<open>User-tier routes\<close>

definition list_automations_route ::
  "authenticated_entity \<Rightarrow> pystr option \<Rightarrow> matching_state option \<Rightarrow> build_state option \<Rightarrow> ('x, response) io" where
  "list_automations_route entity ns ms bs =
     io_bind (list_automations (en_tenant_id entity) ns ms bs) (\<lambda>as.
     io_return (response_of 200 (ListBody (map list_item_of as))))"

definition create_automation_route ::
  "validation_env \<Rightarrow> int \<Rightarrow> 'x git_client \<Rightarrow> uuid \<Rightarrow> authenticated_entity \<Rightarrow> automation_in \<Rightarrow> ('x, response) io" where
  "create_automation_route env timeout_seconds git fresh entity data =
     io_bind (create_automation env timeout_seconds git fresh (en_tenant_id entity) data (en_email entity)) (\<lambda>a.
     io_return (response_of 201 (DetailBody (detail a (Some (in_script data))))))"

definition get_automation_route ::
  "'x git_client \<Rightarrow> authenticated_entity \<Rightarrow> uuid \<Rightarrow> ('x, response) io" where
  "get_automation_route git entity automation_id =
     io_bind (get_automation git (en_tenant_id entity) automation_id) (\<lambda>(a, script).
     io_return (response_of 200 (DetailBody (detail a script))))"

definition update_automation_route ::
  "validation_env \<Rightarrow> int \<Rightarrow> 'x git_client \<Rightarrow> authenticated_entity \<Rightarrow> uuid \<Rightarrow> automation_in \<Rightarrow> ('x, response) io" where
  "update_automation_route env timeout_seconds git entity automation_id data =
     io_bind (update_automation env timeout_seconds git (en_tenant_id entity) automation_id data (en_email entity)) (\<lambda>a.
     io_return (response_of 200 (DetailBody (detail a (Some (in_script data))))))"

definition list_namespaces_route :: response where
  "list_namespaces_route = response_of 200 (NamespacesBody [])"

definition alert_schema_fields_route :: response where
  "alert_schema_fields_route = response_of 200 (FieldsBody
     (map (\<lambda>n. (n, str ''required'')) MATCHABLE_REQUIRED @ map (\<lambda>n. (n, str ''optional'')) MATCHABLE_OPTIONAL))"

definition enable_automation_route ::
  "pystr \<Rightarrow> authenticated_entity \<Rightarrow> uuid \<Rightarrow> ('x, response) io" where
  "enable_automation_route auth_type entity automation_id =
     io_bind (io_lift (require_lifecycle_auth auth_type entity)) (\<lambda>_.
     io_bind (enable_automation (en_tenant_id entity) automation_id (en_email entity)) (\<lambda>a.
     io_return (response_of 200 (StatusBody (lifecycle_status_of a)))))"

definition disable_automation_route ::
  "pystr \<Rightarrow> authenticated_entity \<Rightarrow> uuid \<Rightarrow> ('x, response) io" where
  "disable_automation_route auth_type entity automation_id =
     io_bind (io_lift (require_lifecycle_auth auth_type entity)) (\<lambda>_.
     io_bind (disable_automation (en_tenant_id entity) automation_id (en_email entity)) (\<lambda>a.
     io_return (response_of 200 (StatusBody (lifecycle_status_of a)))))"

text \<open>The background task runs once the response is made; its outcome is not in it.\<close>

definition delete_automation_route ::
  "pystr \<Rightarrow> 'x cascade_deps \<Rightarrow> authenticated_entity \<Rightarrow> uuid \<Rightarrow> ('x, response) io" where
  "delete_automation_route auth_type deps entity automation_id =
     io_bind (io_lift (require_lifecycle_auth auth_type entity)) (\<lambda>_.
     io_bind (begin_delete (en_tenant_id entity) automation_id (en_email entity)) (\<lambda>adm.
     let a = da_automation adm;
         status = (if \<not> da_started adm \<and> a_matching_state a = DELETED then 200 else 202);
         resp = response_of status (StatusBody (lifecycle_status_of a))
     in io_bind
          (if da_started adm then run_cascade_in_background deps (a_id a) else io_return ()) (\<lambda>_.
        io_return resp)))"

section \<open>The webhook route\<close>

definition ci_webhook_route ::
  "pystr \<Rightarrow> 'x capp_client \<Rightarrow> 'x capp_deletion_client \<Rightarrow> uuid \<Rightarrow> pystr \<Rightarrow> build_outcome
     \<Rightarrow> pystr option \<Rightarrow> pystr option \<Rightarrow> ('x, response) io" where
  "ci_webhook_route image_repository capp deletion automation_id commit_sha status img contract_version =
     (case parse_ci_webhook automation_id commit_sha status img contract_version of
        Inl errors \<Rightarrow> io_return (response_of 400 (Errors errors))
      | Inr event \<Rightarrow>
          io_bind (apply_build_result image_repository capp (Some deletion) event) (\<lambda>out.
          io_return (response_of 200 (WebhookBody out))))"

section \<open>The service\<close>

text \<open>A request as the application receives it, after its tier's authentication, and the
  operations that other components call without a route.\<close>

datatype request =
    ReqList authenticated_entity "pystr option" "matching_state option" "build_state option"
  | ReqCreate authenticated_entity automation_in uuid
  | ReqGet authenticated_entity uuid
  | ReqUpdate authenticated_entity uuid automation_in
  | ReqEnable authenticated_entity uuid
  | ReqDisable authenticated_entity uuid
  | ReqDelete authenticated_entity uuid
  | ReqWebhook uuid pystr build_outcome "pystr option" "pystr option"

record 'x service =
  sv_env :: validation_env
  sv_build_lock_timeout :: int
  sv_auth_type :: pystr
  sv_image_repository :: pystr
  sv_git :: "'x git_client"
  sv_capp :: "'x capp_client"
  sv_deps :: "'x cascade_deps"

fun route :: "'x service \<Rightarrow> request \<Rightarrow> ('x, response) io" where
  "route s (ReqList e ns ms bs) = list_automations_route e ns ms bs"
| "route s (ReqCreate e data fresh) =
     create_automation_route (sv_env s) (sv_build_lock_timeout s) (sv_git s) fresh e data"
| "route s (ReqGet e i) = get_automation_route (sv_git s) e i"
| "route s (ReqUpdate e i data) =
     update_automation_route (sv_env s) (sv_build_lock_timeout s) (sv_git s) e i data"
| "route s (ReqEnable e i) = enable_automation_route (sv_auth_type s) e i"
| "route s (ReqDisable e i) = disable_automation_route (sv_auth_type s) e i"
| "route s (ReqDelete e i) = delete_automation_route (sv_auth_type s) (sv_deps s) e i"
| "route s (ReqWebhook i sha st img v) =
     ci_webhook_route (sv_image_repository s) (sv_capp s) (cd_capp (sv_deps s)) i sha st img v"

definition serve :: "'x service \<Rightarrow> request \<Rightarrow> ('x, response) io" where
  "serve s req = handled (route s req)"

end
