(* ===== verification/Service.thy ===== *)
theory Service
  imports Samples Api
begin

text \<open>
  The application as its callers see it: \<open>serve\<close> answers one request through its route and
  the exception handlers. The contract of \<open>Refinement\<close> carries over from the operations to
  every route, so it is stated once for \<open>serve\<close>; an edit is the only request whose
  transactions need more than \<open>service_rely\<close>, and is a premise there.
\<close>

lemma serve_answers: "\<exists>resp. fst (serve s req w) = Inr resp"
  by (auto simp: serve_def handled_def io_catch_def io_return_def split: prod.splits sum.splits)

context service_rely begin

lemma serves_list_route: "serves R P (list_automations_route e ns ms bs) (\<lambda>_. True)"
  unfolding list_automations_route_def by (intro serves_then serves_list serves_return TrueI)

lemma serves_create_route: "serves R P (create_automation_route env ts git i e data) (\<lambda>_. True)"
  unfolding create_automation_route_def by (intro serves_then serves_create serves_return TrueI)

lemma serves_get_route: "serves R P (get_automation_route git e i) (\<lambda>_. True)"
proof -
  have "serves R P (case p of (a, script) \<Rightarrow> io_return (response_of 200 (DetailBody (detail a script)))) (\<lambda>_. True)"
    for p by (cases p) (simp add: serves_return)
  then show ?thesis unfolding get_automation_route_def by (intro serves_then serves_get)
qed

lemma serves_auth: "serves R P (io_lift (require_lifecycle_auth auth e)) (\<lambda>_. True)"
  by (rule serves_lift) simp

lemma serves_toggle_routes:
  "serves R P (enable_automation_route auth e i) (\<lambda>_. True)"
  "serves R P (disable_automation_route auth e i) (\<lambda>_. True)"
  unfolding enable_automation_route_def disable_automation_route_def enable_automation_def
    disable_automation_def
  by (intro serves_then serves_auth serves_toggle serves_return TrueI; simp)+

lemma serves_delete_route: "serves R P (delete_automation_route auth deps e i) (\<lambda>_. True)"
  unfolding delete_automation_route_def Let_def
  by (intro serves_then serves_auth serves_begin_delete serves_if serves_background serves_return TrueI)

lemma serves_webhook_route: "serves R P (ci_webhook_route repo capp del i sha st img v) (\<lambda>_. True)"
proof (cases "parse_ci_webhook i sha st img v")
  case (Inl errors)
  then show ?thesis by (simp add: ci_webhook_route_def serves_return)
next
  case (Inr event)
  from iffD1 [OF parse_ci_webhook_ok this] have "event_ok event" by blast
  with Inr show ?thesis
    by (simp add: ci_webhook_route_def) (intro serves_then serves_apply serves_return TrueI)
qed

lemma serves_serve:
  assumes repo: "sv_image_repository s = repo"
    and update: "\<And>t i data actor. serves R P
    (update_automation (sv_env s) (sv_build_lock_timeout s) (sv_git s) t i data actor) (\<lambda>_. True)"
  shows "serves R P (serve s req) (\<lambda>_. True)"
proof -
  have "serves R P (update_automation_route (sv_env s) (sv_build_lock_timeout s) (sv_git s) e i data) (\<lambda>_. True)"
    for e i data
    unfolding update_automation_route_def by (intro serves_then update serves_return TrueI)
  then have "serves R P (route s req) (\<lambda>_. True)"
    by (cases req) (simp_all add: repo serves_list_route serves_create_route serves_get_route
        serves_toggle_routes serves_delete_route serves_webhook_route)
  then show ?thesis unfolding serve_def handled_def by (rule serves_catch) (simp add: serves_return)
qed

end

context edit_rely begin

lemma serves_any_request: "sv_image_repository s = repo \<Longrightarrow> serves R P (serve s req) (\<lambda>_. True)"
  by (rule serves_serve) (auto intro: serves_update)

lemma serve_guarantee:
  assumes "env_rely R w" and "P (w_db w)" and "serve s req w = (r, w')" and "sv_image_repository s = repo"
  shows "R (w_db w) (w_db w') \<and> P (w_db w')"
  using servesD(1) [OF serves_any_request [OF assms(4)] assms(1-3)] P_keep [OF _ assms(2)] by blast

end

text \<open>A service for concrete inputs: the sample git client, no execution platform.\<close>

definition sample_service :: "nat service" where
  "sample_service = \<lparr>sv_env = sample_env, sv_build_lock_timeout = 600, sv_auth_type = str ''oidc'',
     sv_image_repository = sample_repo, sv_git = sample_git (\<lambda>x. (Inr sample_sha, x)),
     sv_capp = UnconfiguredCappClient,
     sv_deps = \<lparr>cd_capp = UnconfiguredCappDeletionClient, cd_registry = UnconfiguredRegistryClient,
       cd_git = sample_git (\<lambda>x. (Inr sample_sha, x))\<rparr>\<rparr>"

definition sample_user :: "pystr \<Rightarrow> authenticated_entity" where
  "sample_user t = \<lparr>en_tenant_id = t, en_email = str ''bob''\<rparr>"

end
