(* ===== verification/Lifetime.thy ===== *)
theory Lifetime
  imports Authoring_Correct Builds_Correct Lifecycle_Correct Cascade_Correct Service
begin

text \<open>
  The components composed: one automation followed through the routes from its creation to its
  deletion. \<open>perform\<close> sends a list of requests to the application one after the other;
  \<open>platform_up\<close> says what git, the execution platform and the registry do when nothing is
  broken; one lemma per request says how the automation, its audit trail and the trace move,
  and the property chains them.
\<close>

primrec perform :: "'x service \<Rightarrow> request list \<Rightarrow> 'x world \<Rightarrow> (exn + response) list \<times> 'x world" where
  "perform s [] w = ([], w)"
| "perform s (r # rs) w =
     (case serve s r w of (v, w1) \<Rightarrow> case perform s rs w1 of (vs, w2) \<Rightarrow> (v # vs, w2))"

lemma perform_append:
  assumes "perform s rs w = (vs, w1)" and "perform s rs' w1 = (vs', w2)"
  shows "perform s (rs @ rs') w = (vs @ vs', w2)"
  using assms by (induction rs arbitrary: w vs) (auto split: prod.splits)

section \<open>Every external system up\<close>

text \<open>Beside what the cascade needs: \<open>content\<close> is the script repository and \<open>head\<close> its last commit;
  committing an encodable script stores it under a new head, reading returns what is stored, and
  the execution platform accepts deployments and rollouts and leaves git alone.\<close>

definition platform_up ::
  "'x service \<Rightarrow> ('x \<Rightarrow> uuid \<Rightarrow> pystr list) \<Rightarrow> ('x \<Rightarrow> pystr \<Rightarrow> pystr option) \<Rightarrow> ('x \<Rightarrow> pystr) \<Rightarrow> bool" where
  "platform_up s invent content head \<longleftrightarrow> services_up (sv_deps s) invent
   \<and> (\<forall>p c m x. utf8_encode c \<noteq> None \<longrightarrow> (\<exists>sha x'. g_commit_script (sv_git s) p c m x = (Inr sha, x')
        \<and> is_commit_sha sha \<and> sha \<noteq> head x \<and> head x' = sha
        \<and> content x' = (content x)(p := Some c)))
   \<and> (\<forall>p x. \<exists>x'. g_read_script (sv_git s) p x = (Inr (content x p), x'))
   \<and> (\<forall>i wl img refs x. \<exists>dep x'. c_create_deployment (sv_capp s) i wl img refs x = (Inr dep, x')
        \<and> content x' = content x \<and> head x' = head x)
   \<and> (\<forall>d img refs x. \<exists>x'. c_rollout (sv_capp s) d img refs x = (Inr (), x')
        \<and> content x' = content x \<and> head x' = head x)"

lemma authored_encodable: "authoring_ok env data \<Longrightarrow> utf8_encode (in_script data) \<noteq> None"
  by (auto simp: authoring_ok_def script_ok_def)

lemma platform_commit:
  assumes "platform_up s invent content head" and "utf8_encode c \<noteq> None"
  obtains sha x' where "g_commit_script (sv_git s) p c m x = (Inr sha, x')" and "is_commit_sha sha"
    and "sha \<noteq> head x" and "head x' = sha" and "content x' = (content x)(p := Some c)"
  using assms unfolding platform_up_def by blast

lemma platform_read:
  assumes "platform_up s invent content head"
  obtains x' where "g_read_script (sv_git s) p x = (Inr (content x p), x')"
  using assms unfolding platform_up_def by blast

lemma platform_create:
  assumes "platform_up s invent content head"
  obtains dep x' where "c_create_deployment (sv_capp s) i wl img refs x = (Inr dep, x')"
    and "content x' = content x" and "head x' = head x"
  using assms unfolding platform_up_def by blast

lemma platform_rollout:
  assumes "platform_up s invent content head"
  obtains x' where "c_rollout (sv_capp s) d img refs x = (Inr (), x')"
    and "content x' = content x" and "head x' = head x"
  using assms unfolding platform_up_def by blast

section \<open>Following one automation\<close>

text \<open>From \<open>w0\<close>, in which automation \<open>i\<close> has no audit row, to \<open>w\<close>: its row is now \<open>a\<close>, its audit
  rows are \<open>rs\<close>, the service did \<open>tr\<close>, and no other row and no run moved.\<close>

definition life ::
  "'x world \<Rightarrow> uuid \<Rightarrow> 'x world \<Rightarrow> automation \<Rightarrow> automation_revision list \<Rightarrow> effect list \<Rightarrow> bool" where
  "life w0 i w a rs tr \<longleftrightarrow>
     find_automation (w_db w) i = Some a
   \<and> (\<forall>j. j \<noteq> i \<longrightarrow> find_automation (w_db w) j = find_automation (w_db w0) j)
   \<and> runs (w_db w) = runs (w_db w0) \<and> revisions (w_db w) = revisions (w_db w0) @ rs
   \<and> (\<forall>r \<in> set (revisions (w_db w0)). rv_automation_id r \<noteq> i)
   \<and> w_trace w = w_trace w0 @ tr"

definition alone :: "'x world \<Rightarrow> 'x world \<Rightarrow> bool" where
  "alone w0 w \<longleftrightarrow> w_env w = [] \<and> w_clock w = w_clock w0 \<and> distinct (map a_id (automations (w_db w)))"

definition audit ::
  "uuid \<Rightarrow> revision_action \<Rightarrow> pystr option \<Rightarrow> pystr option \<Rightarrow> pystr \<Rightarrow> datetime \<Rightarrow> automation_revision" where
  "audit i action sha digest actor now =
     \<lparr>rv_automation_id = i, rv_action = action, rv_git_sha = sha, rv_resulting_digest = digest,
      rv_actor = actor, rv_created_at = now\<rparr>"

text \<open>The audit rows of a build that succeeded: the request, marked with its image, and the result.\<close>

abbreviation build_log ::
  "uuid \<Rightarrow> revision_action \<Rightarrow> pystr \<Rightarrow> pystr \<Rightarrow> pystr \<Rightarrow> datetime \<Rightarrow> automation_revision list" where
  "build_log i action sha img actor now \<equiv>
     [audit i action (Some sha) (Some img) actor now, audit i BUILD_SUCCEEDED (Some sha) (Some img) BUILD_ACTOR now]"

lemma life_scoped_get:
  assumes "life w0 i w a rs tr" and "alone w0 w"
  shows "scoped_get (a_tenant_id a) i (w_db w) = Inr a"
  using assms by (simp add: life_def alone_def scoped_get_find)

lemma life_id: "life w0 i w a rs tr \<Longrightarrow> a_id a = i"
  by (auto simp: life_def dest: atab.get_key)

lemma life_write:
  assumes "life w0 i w a rs tr" and "a_id a' = i"
  shows "life w0 i (w\<lparr>w_db := add_revision r (put_automation a' (w_db w)), w_ext := x, w_trace := w_trace w @ es\<rparr>)
    a' (rs @ [r]) (tr @ es)"
  using assms by (auto simp: life_def table_simps)

lemma alone_write:
  assumes "alone w0 w"
  shows "alone w0 (w\<lparr>w_db := add_revision r (put_automation a' (w_db w)), w_ext := x, w_trace := t\<rparr>)"
  using assms by (auto simp: alone_def table_simps)

lemma serve_route: "route s req w = (Inr v, w') \<Longrightarrow> serve s req w = (Inr v, w')"
  by (simp add: serve_def handled_def io_catch_def)

section \<open>The requests\<close>

lemma create_served:
  assumes up: "platform_up s invent content head" and w: "alone w w"
    and fresh: "find_automation (w_db w) i = None" "\<forall>r \<in> set (revisions (w_db w)). rv_automation_id r \<noteq> i"
    and tenant: "en_tenant_id e \<in> set (tenants (w_db w))"
    and ok: "authoring_ok (sv_env s) data"
  obtains sha a w' where "is_commit_sha sha" and "head (w_ext w') = sha"
    and "a = new_automation i (en_tenant_id e) data (en_email e) sha
      (build_lock_deadline (sv_build_lock_timeout s) (w_clock w)) (w_clock w)"
    and "serve s (ReqCreate e data i) w = (Inr (response_of 201 (DetailBody (detail a (Some (in_script data))))), w')"
    and "life w i w' a [audit i CREATE (Some sha) None (en_email e) (w_clock w)]
      [Called (GitCommit (script_path_of i)), Committed]"
    and "alone w w'" and "content (w_ext w') = (content (w_ext w))(script_path_of i := Some (in_script data))"
proof -
  obtain sha x where g: "g_commit_script (sv_git s) (script_path_of i) (in_script data)
      (commit_message (str ''create '') data i) (w_ext w) = (Inr sha, x)"
    and x: "is_commit_sha sha" "head x = sha" "content x = (content (w_ext w))(script_path_of i := Some (in_script data))"
    by (rule platform_commit [OF up authored_encodable [OF ok]]) blast
  define a where "a = new_automation i (en_tenant_id e) data (en_email e) sha
      (build_lock_deadline (sv_build_lock_timeout s) (w_clock w)) (w_clock w)"
  define w' where "w' = w\<lparr>w_db := add_revision (audit i CREATE (Some sha) None (en_email e) (w_clock w))
      ((w_db w)\<lparr>automations := automations (w_db w) @ [a]\<rparr>), w_ext := x,
      w_trace := w_trace w @ [Called (GitCommit (script_path_of i)), Committed]\<rparr>"
  have new: "i \<notin> a_id ` set (automations (w_db w))" using fresh(1) by (simp add: atab.get_None_iff)
  have id: "a_id a = i" "a_tenant_id a = en_tenant_id e" by (simp_all add: a_def new_automation_def)
  have ins: "insert_automation a (w_db w) = Inr ((w_db w)\<lparr>automations := automations (w_db w) @ [a]\<rparr>)"
    using new tenant id by (simp add: insert_automation_def)
  have v: "validated (sv_env s) data = Inr ()" using ok by (simp add: validated_Inr_iff)
  have run: "create_automation (sv_env s) (sv_build_lock_timeout s) (sv_git s) i (en_tenant_id e) data (en_email e) w
      = (Inr a, w')"
    using w v g ins by (simp add: create_alone alone_def create_tx_def w'_def a_def audit_def Let_def)
  show thesis
  proof (rule that [OF x(1) _ a_def])
    show "serve s (ReqCreate e data i) w = (Inr (response_of 201 (DetailBody (detail a (Some (in_script data))))), w')"
      using run by (intro serve_route) (simp add: create_automation_route_def io_simps)
    show "life w i w' a [audit i CREATE (Some sha) None (en_email e) (w_clock w)]
      [Called (GitCommit (script_path_of i)), Committed]"
      using fresh(2) find_insert_automation [OF ins] id by (simp add: life_def w'_def table_simps)
    show "alone w w'" using w new id by (simp add: alone_def w'_def table_simps)
  qed (simp_all add: w'_def x)
qed

text \<open>A build result: the deployment is created on the first build and rolled out later.\<close>

definition report :: "uuid \<Rightarrow> pystr \<Rightarrow> pystr \<Rightarrow> pystr \<Rightarrow> ci_webhook_in" where
  "report i sha img v = \<lparr>e_automation_id = i, e_commit_sha = sha, e_status = SUCCESS,
     e_image = Some img, e_contract_version = Some v\<rparr>"

definition deploy_op :: "automation \<Rightarrow> pystr \<Rightarrow> ext_op" where
  "deploy_op a img = (case a_capp_deployment_id a of
     None \<Rightarrow> CappCreate (a_id a) (a_namespace a) img (secret_refs_of (target_of a))
   | Some d \<Rightarrow> CappRollout d img (secret_refs_of (target_of a)))"

definition mark_built :: "uuid \<Rightarrow> pystr \<Rightarrow> pystr \<Rightarrow> automation_revision list \<Rightarrow> automation_revision list" where
  "mark_built i sha img = update_where
     (\<lambda>r. rv_automation_id r = i \<and> rv_git_sha r = Some sha \<and> rv_action r \<in> set REQUESTING_ACTIONS)
     (\<lambda>r. r\<lparr>rv_resulting_digest := Some img\<rparr>)"

lemma mark_built_other: "\<forall>r \<in> set rs. rv_automation_id r \<noteq> i \<Longrightarrow> mark_built i sha img rs = rs"
  by (auto simp: mark_built_def update_where_def intro!: map_idI)

lemma mark_built_append: "mark_built i sha img (rs @ rs') = mark_built i sha img rs @ mark_built i sha img rs'"
  by (simp add: mark_built_def update_where_def)

lemma deploy_up:
  assumes "platform_up s invent content head" and "a_id a = i"
  obtains created x where "deploy (sv_capp s) (report i sha img v) (target_of a) w
      = (Inr created, w\<lparr>w_ext := x, w_trace := w_trace w @ [Called (deploy_op a img)]\<rparr>)"
    and "created = None \<longleftrightarrow> a_capp_deployment_id a \<noteq> None"
    and "content x = content (w_ext w)" and "head x = head (w_ext w)"
proof (cases "a_capp_deployment_id a")
  case None
  obtain dep x where c: "c_create_deployment (sv_capp s) i (a_namespace a) img (secret_refs_of (target_of a)) (w_ext w)
      = (Inr dep, x)" "content x = content (w_ext w)" "head x = head (w_ext w)"
    by (rule platform_create [OF assms(1)])
  have "bt_wallet (target_of a) = a_namespace a" "bt_capp_deployment_id (target_of a) = None"
    using None by (simp_all add: target_of_def)
  with c None assms(2) show ?thesis
    by (intro that [of "Some dep" x]) (simp_all add: deploy_def report_def deploy_op_def Let_def io_simps)
next
  case (Some d)
  obtain x where c: "c_rollout (sv_capp s) d img (secret_refs_of (target_of a)) (w_ext w) = (Inr (), x)"
      "content x = content (w_ext w)" "head x = head (w_ext w)"
    by (rule platform_rollout [OF assms(1)])
  have "bt_capp_deployment_id (target_of a) = Some d" using Some by (simp add: target_of_def)
  with c Some show ?thesis
    by (intro that [of None x]) (simp_all add: deploy_def report_def deploy_op_def Let_def io_simps)
qed

lemma webhook_served:
  assumes up: "platform_up s invent content head" and l: "life w0 i w a rs tr" and w: "alone w0 w"
    and sha: "is_commit_sha sha" "admission a sha = None"
    and img: "is_digest_ref img" "own_image (sv_image_repository s) i img"
    and v: "\<not> blank v" "length v \<le> CONTRACT_VERSION_MAX_LENGTH"
  obtains created a' w' where "created = None \<longleftrightarrow> a_capp_deployment_id a \<noteq> None"
    and "a' = cut_over_row a (report i sha img v) created (w_clock w0)"
    and "serve s (ReqWebhook i sha SUCCESS (Some img) (Some v)) w = (Inr (response_of 200 (WebhookBody applied)), w')"
    and "life w0 i w' a' (mark_built i sha img rs @ [audit i BUILD_SUCCEEDED (Some sha) (Some img) BUILD_ACTOR (w_clock w0)])
      (tr @ [Called (deploy_op a img), Committed, PublishReload, PublishEvent (build_event_of a' sha)])"
    and "alone w0 w'" and "content (w_ext w') = content (w_ext w)" and "head (w_ext w') = head (w_ext w)"
proof -
  let ?e = "report i sha img v"
  have parse: "parse_ci_webhook i sha SUCCESS (Some img) (Some v) = Inr ?e"
    using sha img v by (simp add: parse_ci_webhook_ok report_def event_ok_def)
  have own: "require_own_image (sv_image_repository s) ?e = Inr ()"
    using img(2) by (auto simp: require_own_image_def own_image_def report_def)
  have find: "find_automation (w_db w) i = Some a" and id: "a_id a = i"
    using l life_id [OF l] by (simp_all add: life_def)
  obtain created x where d: "deploy (sv_capp s) ?e (target_of a) w
      = (Inr created, w\<lparr>w_ext := x, w_trace := w_trace w @ [Called (deploy_op a img)]\<rparr>)"
    and x: "created = None \<longleftrightarrow> a_capp_deployment_id a \<noteq> None"
      "content x = content (w_ext w)" "head x = head (w_ext w)"
    by (rule deploy_up [OF up id])
  define a' where "a' = cut_over_row a ?e created (w_clock w0)"
  define w' where "w' = w\<lparr>w_db := cut_over_db (w_db w) a ?e created (w_clock w0), w_ext := x,
    w_trace := w_trace w @ [Called (deploy_op a img), Committed, PublishReload, PublishEvent (build_event_of a' sha)]\<rparr>"
  have run: "apply_build_result (sv_image_repository s) (sv_capp s) (Some (cd_capp (sv_deps s))) ?e w = (Inr applied, w')"
    using apply_success_alone [OF _ _ _ _ own d] w find sha(2)
    by (simp add: alone_def load_def report_def w'_def a'_def)
  have revs: "revisions (w_db w') = revisions (w_db w0) @ mark_built i sha img rs
      @ [audit i BUILD_SUCCEEDED (Some sha) (Some img) BUILD_ACTOR (w_clock w0)]"
    using l mark_built_other [of "revisions (w_db w0)" i sha img] mark_built_append [of i sha img "revisions (w_db w0)" rs]
    by (simp add: life_def w'_def cut_over_db_def table_simps mark_built_def report_def build_revision_def audit_def)
  show thesis
  proof (rule that [OF x(1) a'_def])
    show "serve s (ReqWebhook i sha SUCCESS (Some img) (Some v)) w = (Inr (response_of 200 (WebhookBody applied)), w')"
      using run parse by (intro serve_route) (simp add: ci_webhook_route_def io_simps)
    show "life w0 i w' a' (mark_built i sha img rs @ [audit i BUILD_SUCCEEDED (Some sha) (Some img) BUILD_ACTOR (w_clock w0)])
      (tr @ [Called (deploy_op a img), Committed, PublishReload, PublishEvent (build_event_of a' sha)])"
      using l revs id unfolding life_def
      by (auto simp: w'_def a'_def cut_over_db_def table_simps)
    show "alone w0 w'" using w by (auto simp: alone_def w'_def cut_over_db_def table_simps)
  qed (simp_all add: w'_def x)
qed

definition enabled :: "automation \<Rightarrow> pystr \<Rightarrow> datetime \<Rightarrow> automation" where
  "enabled a actor now = a\<lparr>a_matching_state := ACTIVE, a_index_generation := a_index_generation a + 1,
     a_updated_by := actor, a_updated_at := now\<rparr>"

lemma enable_served:
  assumes l: "life w0 i w a rs tr" and w: "alone w0 w" and e: "en_tenant_id e = a_tenant_id a"
    and auth: "require_lifecycle_auth (sv_auth_type s) e = Inr ()"
    and a: "a_matching_state a \<notin> set DELETION_STATES" "a_active_digest a = Some img" "\<not> blank img"
  obtains a' w' where "a' = enabled a (en_email e) (w_clock w0)"
    and "serve s (ReqEnable e i) w = (Inr (response_of 200 (StatusBody (lifecycle_status_of a'))), w')"
    and "life w0 i w' a' (rs @ [audit i ENABLE None (Some img) (en_email e) (w_clock w0)]) (tr @ [Committed, PublishReload])"
    and "alone w0 w'" and "w_ext w' = w_ext w"
proof -
  define a' where "a' = enabled a (en_email e) (w_clock w0)"
  define w' where "w' = w\<lparr>w_db := add_revision (audit i ENABLE None (Some img) (en_email e) (w_clock w0))
    (put_automation a' (w_db w)), w_ext := w_ext w, w_trace := w_trace w @ [Committed, PublishReload]\<rparr>"
  have "enable_automation (en_tenant_id e) i (en_email e) w = (Inr a', w')"
    using w a life_id [OF l] life_scoped_get [OF l w] e
    by (simp add: enable_automation_def toggle_def toggle_tx_def alone_def io_bind_def io_simps Let_def
        audit_def a'_def w'_def enabled_def)
  then have "serve s (ReqEnable e i) w = (Inr (response_of 200 (StatusBody (lifecycle_status_of a'))), w')"
    using auth by (intro serve_route) (simp add: enable_automation_route_def io_lift_def io_simps)
  then show thesis unfolding w'_def
    by (rule that [OF a'_def _ life_write [OF l] alone_write [OF w]]) (simp_all add: a'_def enabled_def life_id [OF l])
qed

lemma update_served:
  assumes up: "platform_up s invent content head" and l: "life w0 i w a rs tr" and w: "alone w0 w"
    and e: "en_tenant_id e = a_tenant_id a"
    and ok: "authoring_ok (sv_env s) data"
    and a: "a_matching_state a \<notin> set DELETION_STATES" "a_build_state a \<noteq> BUILDING"
      "check_wallet_unchanged a data = Inr ()"
  obtains sha a' w' where "is_commit_sha sha" and "sha \<noteq> head (w_ext w)"
    and "a' = edited a data (en_email e) sha (build_lock_deadline (sv_build_lock_timeout s) (w_clock w0)) (w_clock w0)"
    and "serve s (ReqUpdate e i data) w = (Inr (response_of 200 (DetailBody (detail a' (Some (in_script data))))), w')"
    and "life w0 i w' a' (rs @ [audit i EDIT (Some sha) None (en_email e) (w_clock w0)])
      (tr @ [Committed, Called (GitCommit (a_script_path a)), Committed])"
    and "alone w0 w'" and "content (w_ext w') = (content (w_ext w))(a_script_path a := Some (in_script data))"
proof -
  let ?dl = "build_lock_deadline (sv_build_lock_timeout s) (w_clock w0)"
  obtain sha x where g: "g_commit_script (sv_git s) (a_script_path a) (in_script data)
      (commit_message (str ''edit '') data i) (w_ext w) = (Inr sha, x)"
    and x: "is_commit_sha sha" "sha \<noteq> head (w_ext w)"
      "content x = (content (w_ext w))(a_script_path a := Some (in_script data))"
    by (rule platform_commit [OF up authored_encodable [OF ok]]) blast
  note get = life_scoped_get [OF l w]
  have d: "distinct (map a_id (automations (w_db w)))" and env: "w_env w = []" "w_clock w = w_clock w0"
    using w by (simp_all add: alone_def)
  define c where "c = \<lparr>bc_automation_id = a_id a, bc_script_path = a_script_path a, bc_deadline = ?dl,
    bc_previous_build_state = a_build_state a, bc_previous_building_sha = a_building_sha a\<rparr>"
  have claim: "claim_build_tx (en_tenant_id e) i data ?dl (w_clock w) (w_db w) = Inr (c, put_automation (claimed a ?dl) (w_db w))"
    using get e a by (simp add: claim_build_tx_def c_def)
  define a' where "a' = edited a data (en_email e) sha ?dl (w_clock w0)"
  define w' where "w' = w\<lparr>w_db := add_revision (audit i EDIT (Some sha) None (en_email e) (w_clock w0))
    (put_automation a' (w_db w)), w_ext := x,
    w_trace := w_trace w @ [Committed, Called (GitCommit (a_script_path a)), Committed]\<rparr>"
  have "update_automation (sv_env s) (sv_build_lock_timeout s) (sv_git s) (en_tenant_id e) i data (en_email e) w = (Inr a', w')"
    using update_alone [OF env(1) ok, of "en_tenant_id e" i "sv_build_lock_timeout s" c] claim g
      finish_after_claim [OF d get, of c] e
    by (simp add: env(2) c_def a'_def w'_def edit_revision_def audit_def)
  then have "serve s (ReqUpdate e i data) w = (Inr (response_of 200 (DetailBody (detail a' (Some (in_script data))))), w')"
    by (intro serve_route) (simp add: update_automation_route_def io_simps)
  then show thesis unfolding w'_def
    by (rule that [OF x(1,2) a'_def _ life_write [OF l] alone_write [OF w]]) (simp_all add: a'_def edited_def life_id [OF l] x)
qed

lemma get_served:
  assumes up: "platform_up s invent content head" and l: "life w0 i w a rs tr" and w: "alone w0 w"
    and e: "en_tenant_id e = a_tenant_id a"
  obtains w' where "serve s (ReqGet e i) w
      = (Inr (response_of 200 (DetailBody (detail a (content (w_ext w) (a_script_path a))))), w')"
    and "life w0 i w' a rs (tr @ [Called (GitRead (a_script_path a))])" and "alone w0 w'"
proof -
  obtain x where g: "g_read_script (sv_git s) (a_script_path a) (w_ext w) = (Inr (content (w_ext w) (a_script_path a)), x)"
    by (rule platform_read [OF up])
  let ?w = "w\<lparr>w_ext := x, w_trace := w_trace w @ [Called (GitRead (a_script_path a))]\<rparr>"
  have "route s (ReqGet e i) w
      = (Inr (response_of 200 (DetailBody (detail a (content (w_ext w) (a_script_path a))))), ?w)"
    using g life_scoped_get [OF l w] w e
    by (simp add: get_automation_route_def get_automation_def alone_def io_bind_def io_simps)
  moreover have "life w0 i ?w a rs (tr @ [Called (GitRead (a_script_path a))])" "alone w0 ?w"
    using l w by (simp_all add: life_def alone_def)
  ultimately show thesis using that serve_route by blast
qed

definition deleting :: "automation \<Rightarrow> pystr \<Rightarrow> datetime \<Rightarrow> automation" where
  "deleting a actor now = a\<lparr>a_matching_state := DELETING, a_delete_cascade_step := Some STEP_MARKED_DELETING,
     a_index_generation := a_index_generation a + 1, a_updated_by := actor, a_updated_at := now\<rparr>"

lemma delete_served:
  assumes up: "platform_up s invent content head" and l: "life w0 i w a rs tr" and w: "alone w0 w"
    and e: "en_tenant_id e = a_tenant_id a"
    and auth: "require_lifecycle_auth (sv_auth_type s) e = Inr ()"
    and a: "a_matching_state a \<notin> set DELETION_STATES" "a_build_state a \<noteq> BUILDING"
  obtains a' w' where "a' = deleting a (en_email e) (w_clock w0)"
    and "serve s (ReqDelete e i) w = (Inr (response_of 202 (StatusBody (lifecycle_status_of a'))), w')"
    and "life w0 i w' (deleted_row a' (w_clock w0))
      (rs @ [audit i DELETE None (a_active_digest a) (en_email e) (w_clock w0)])
      (tr @ [Committed, PublishReload] @ cascade_trace a' (invent (w_ext w) i))"
proof -
  define a' where "a' = deleting a (en_email e) (w_clock w0)"
  let ?r = "audit i DELETE None (a_active_digest a) (en_email e) (w_clock w0)"
  define w1 where "w1 = w\<lparr>w_db := add_revision ?r (put_automation a' (w_db w)), w_ext := w_ext w,
    w_trace := w_trace w @ [Committed, PublishReload]\<rparr>"
  have id: "a_id a' = i" by (simp add: a'_def deleting_def life_id [OF l])
  have l1: "life w0 i w1 a' (rs @ [?r]) (tr @ [Committed, PublishReload])"
    unfolding w1_def by (rule life_write [OF l id])
  have w1: "alone w0 w1" unfolding w1_def by (rule alone_write [OF w])
  have adm: "begin_delete (en_tenant_id e) i (en_email e) w = (Inr \<lparr>da_automation = a', da_started = True\<rparr>, w1)"
    using w a life_id [OF l] life_scoped_get [OF l w] e
    by (simp add: begin_delete_def begin_delete_tx_def alone_def io_bind_def io_simps Let_def
        audit_def a'_def w1_def deleting_def)
  have "in_cascade a'" by (simp add: a'_def deleting_def in_cascade_def cascade_position_def STEP_MARKED_DELETING_def)
  then have cd: "cascade_done i a' (invent (w_ext w1) i) w1 (run_cascade (sv_deps s) i w1)"
    using up l1 w1 by (intro run_cascade_up) (auto simp: platform_up_def life_def alone_def)
  obtain w' where run: "run_cascade (sv_deps s) i w1 = (Inr (result_of (deleted_row a' (w_clock w1)) None), w')"
    using cd by (cases "run_cascade (sv_deps s) i w1") (auto simp: cascade_done_def)
  then have bg: "run_cascade_in_background (sv_deps s) i w1 = (Inr (), w')"
    by (simp add: run_cascade_in_background_def io_catch_def io_bind_def io_return_def)
  have "serve s (ReqDelete e i) w = (Inr (response_of 202 (StatusBody (lifecycle_status_of a'))), w')"
    using auth adm bg id
    by (intro serve_route) (simp add: delete_automation_route_def io_lift_def io_bind_def io_return_def Let_def)
  moreover have "life w0 i w' (deleted_row a' (w_clock w0)) (rs @ [?r])
      (tr @ [Committed, PublishReload] @ cascade_trace a' (invent (w_ext w) i))"
    using l1 cd run w1 by (auto simp: life_def cascade_done_def alone_def w1_def)
  ultimately show thesis by (rule that [OF a'_def])
qed

section \<open>Properties\<close>

text \<open>The external calls of a trace.\<close>

primrec calls :: "effect list \<Rightarrow> ext_op list" where
  "calls [] = []"
| "calls (e # es) = (case e of Called c \<Rightarrow> c # calls es | _ \<Rightarrow> calls es)"

lemma calls_append [simp]: "calls (es @ es') = calls es @ calls es'"
  by (induction es) (auto split: effect.splits)

lemma calls_map_Called [simp]: "calls (map (\<lambda>e. Called (f e)) xs) = map f xs"
  by (induction xs) auto

lemma cascade_calls:
  assumes "a_delete_cascade_step a = Some STEP_MARKED_DELETING"
  shows "calls (cascade_trace a entries) =
    [CappDelete (a_namespace a) (capp_name_for (a_id a) (a_capp_deployment_id a)),
     SecretDelete (a_namespace a) (run_auth_secret_name (a_id a)), RegistryList (a_id a)]
    @ map (RegistryDelete (a_id a)) entries @ [RegistryList (a_id a), GitArchive (a_id a) (a_updated_by a)]"
  using assms by (simp add: cascade_trace_def cascade_position_def STEP_MARKED_DELETING_def step_trace_def upt_conv_Cons)

definition secret_refs :: "automation_in \<Rightarrow> pystr list" where
  "secret_refs data = (case in_secret_name data of None \<Rightarrow> [] | Some s \<Rightarrow> if s = [] then [] else [s])"

text \<open>An automation that is built from \<open>data\<close> and runs \<open>img\<close> under deployment \<open>dep\<close>.\<close>

definition runs_image :: "authenticated_entity \<Rightarrow> automation_in \<Rightarrow> pystr \<Rightarrow> pystr \<Rightarrow> uuid \<Rightarrow> automation \<Rightarrow> bool" where
  "runs_image e data img dep i a \<longleftrightarrow> a_id a = i \<and> a_tenant_id a = en_tenant_id e
     \<and> a_script_path a = script_path_of i \<and> a_name a = in_name data \<and> a_namespace a = in_namespace data
     \<and> a_secret_name a = in_secret_name data \<and> a_build_state a = IDLE
     \<and> a_active_digest a = Some img \<and> a_capp_deployment_id a = Some dep"

lemma first_build:
  assumes up: "platform_up s invent content head" and w: "alone w w"
    and fresh: "find_automation (w_db w) i = None" "\<forall>r \<in> set (revisions (w_db w)). rv_automation_id r \<noteq> i"
    and tenant: "en_tenant_id e \<in> set (tenants (w_db w))" and ok: "authoring_ok (sv_env s) data"
    and img: "is_digest_ref img" "own_image (sv_image_repository s) i img"
    and v: "\<not> blank v" "length v \<le> CONTRACT_VERSION_MAX_LENGTH"
  obtains sha b a tr dep w' where
    "perform s [ReqCreate e data i, ReqWebhook i sha SUCCESS (Some img) (Some v)] w
       = ([Inr (response_of 201 b), Inr (response_of 200 (WebhookBody applied))], w')"
    and "life w i w' a (build_log i CREATE sha img (en_email e) (w_clock w)) tr"
    and "calls tr = [GitCommit (script_path_of i), CappCreate i (in_namespace data) img (secret_refs data)]"
    and "runs_image e data img dep i a" and "a_matching_state a = INACTIVE" and "a_index_generation a = 0"
    and "alone w w'" and "head (w_ext w') = sha"
proof -
  obtain sha a1 w1 where s1: "is_commit_sha sha" "head (w_ext w1) = sha"
      "a1 = new_automation i (en_tenant_id e) data (en_email e) sha
         (build_lock_deadline (sv_build_lock_timeout s) (w_clock w)) (w_clock w)"
      "serve s (ReqCreate e data i) w = (Inr (response_of 201 (DetailBody (detail a1 (Some (in_script data))))), w1)"
      "life w i w1 a1 [audit i CREATE (Some sha) None (en_email e) (w_clock w)]
         [Called (GitCommit (script_path_of i)), Committed]"
      "alone w w1"
    by (rule create_served [OF up w fresh tenant ok])
  obtain created a2 w2 where s2: "created = None \<longleftrightarrow> a_capp_deployment_id a1 \<noteq> None"
      "a2 = cut_over_row a1 (report i sha img v) created (w_clock w)"
      "serve s (ReqWebhook i sha SUCCESS (Some img) (Some v)) w1 = (Inr (response_of 200 (WebhookBody applied)), w2)"
      "life w i w2 a2 (mark_built i sha img [audit i CREATE (Some sha) None (en_email e) (w_clock w)]
         @ [audit i BUILD_SUCCEEDED (Some sha) (Some img) BUILD_ACTOR (w_clock w)])
         ([Called (GitCommit (script_path_of i)), Committed] @ [Called (deploy_op a1 img), Committed, PublishReload,
            PublishEvent (build_event_of a2 sha)])"
      "alone w w2" "head (w_ext w2) = head (w_ext w1)"
    by (rule webhook_served [OF up s1(5,6,1) _ img v]) (simp_all add: s1(3) admission_None_iff new_automation_def)
  from s2(1) s1(3) obtain dep where dep: "created = Some dep" by (auto simp: new_automation_def)
  show thesis
  proof (rule that)
    show "life w i w2 a2 (build_log i CREATE sha img (en_email e) (w_clock w))
       ([Called (GitCommit (script_path_of i)), Committed] @ [Called (deploy_op a1 img), Committed, PublishReload,
            PublishEvent (build_event_of a2 sha)])"
      using s2(4) by (simp add: mark_built_def update_where_def audit_def REQUESTING_ACTIONS_def)
    show "runs_image e data img (deployment_id dep) i a2"
      unfolding s2(2) s1(3) dep by (simp add: runs_image_def cut_over_row_def report_def new_automation_def)
  qed (simp_all add: s1(4) s2(3,5,6) s1(2), simp_all add: s1(3) s2(2) deploy_op_def target_of_def secret_refs_of_def
      secret_refs_def new_automation_def)
qed

lemma second_build:
  assumes up: "platform_up s invent content head" and l: "life w0 i w a rs tr" and w: "alone w0 w"
    and a: "runs_image e data img dep i a" "a_matching_state a \<notin> set DELETION_STATES"
    and ok: "authoring_ok (sv_env s) data'" "in_namespace data' = in_namespace data"
    and img: "is_digest_ref img'" "own_image (sv_image_repository s) i img'"
    and v: "\<not> blank v" "length v \<le> CONTRACT_VERSION_MAX_LENGTH"
    and rs: "\<forall>r \<in> set rs. rv_git_sha r \<in> {None, Some (head (w_ext w))}"
  obtains sha' b a' tr' w' where
    "perform s [ReqUpdate e i data', ReqWebhook i sha' SUCCESS (Some img') (Some v)] w
       = ([Inr (response_of 200 b), Inr (response_of 200 (WebhookBody applied))], w')"
    and "life w0 i w' a' (rs @ build_log i EDIT sha' img' (en_email e) (w_clock w0)) (tr @ tr')"
    and "calls tr' = [GitCommit (script_path_of i), CappRollout dep img' (secret_refs data')]"
    and "runs_image e data' img' dep i a'" and "a_matching_state a' = a_matching_state a"
    and "a_index_generation a' = a_index_generation a" and "alone w0 w'"
    and "content (w_ext w') (script_path_of i) = Some (in_script data')"
proof -
  obtain sha' a1 w1 where s1: "is_commit_sha sha'" "sha' \<noteq> head (w_ext w)"
      "a1 = edited a data' (en_email e) sha' (build_lock_deadline (sv_build_lock_timeout s) (w_clock w0)) (w_clock w0)"
      "serve s (ReqUpdate e i data') w = (Inr (response_of 200 (DetailBody (detail a1 (Some (in_script data'))))), w1)"
      "life w0 i w1 a1 (rs @ [audit i EDIT (Some sha') None (en_email e) (w_clock w0)])
         (tr @ [Committed, Called (GitCommit (a_script_path a)), Committed])"
      "alone w0 w1" "content (w_ext w1) = (content (w_ext w))(a_script_path a := Some (in_script data'))"
    by (rule update_served [OF up l w _ ok(1) a(2)])
      (use a(1) ok(2) in \<open>auto simp: runs_image_def check_wallet_unchanged_def\<close>)
  obtain created a2 w2 where s2: "created = None \<longleftrightarrow> a_capp_deployment_id a1 \<noteq> None"
      "a2 = cut_over_row a1 (report i sha' img' v) created (w_clock w0)"
      "serve s (ReqWebhook i sha' SUCCESS (Some img') (Some v)) w1 = (Inr (response_of 200 (WebhookBody applied)), w2)"
      "life w0 i w2 a2 (mark_built i sha' img' (rs @ [audit i EDIT (Some sha') None (en_email e) (w_clock w0)])
         @ [audit i BUILD_SUCCEEDED (Some sha') (Some img') BUILD_ACTOR (w_clock w0)])
         ((tr @ [Committed, Called (GitCommit (a_script_path a)), Committed]) @ [Called (deploy_op a1 img'), Committed,
            PublishReload, PublishEvent (build_event_of a2 sha')])"
      "alone w0 w2" "content (w_ext w2) = content (w_ext w1)"
    by (rule webhook_served [OF up s1(5,6,1) _ img v]) (use a(2) in \<open>simp_all add: s1(3) admission_None_iff edited_def\<close>)
  have old: "mark_built i sha' img' rs = rs"
    using rs s1(2) by (force simp: mark_built_def update_where_def intro!: map_idI)
  have created: "created = None" using s2(1) a(1) by (simp add: s1(3) edited_def runs_image_def)
  show thesis
  proof (rule that)
    show "life w0 i w2 a2 (rs @ build_log i EDIT sha' img' (en_email e) (w_clock w0))
       (tr @ [Committed, Called (GitCommit (a_script_path a)), Committed, Called (deploy_op a1 img'), Committed,
            PublishReload, PublishEvent (build_event_of a2 sha')])"
      using s2(4) old by (simp add: mark_built_append) (simp add: mark_built_def update_where_def audit_def REQUESTING_ACTIONS_def)
    show "runs_image e data' img' dep i a2"
      using a(1) ok(2) unfolding s2(2) s1(3) created by (simp add: runs_image_def cut_over_row_def report_def edited_def)
  qed (use a(1) ok(2) in \<open>simp_all add: s1(4,7) s2(3,5,6) runs_image_def\<close>,
      simp_all add: s1(3) s2(2) deploy_op_def target_of_def secret_refs_of_def secret_refs_def edited_def)
qed

lemma read_then_delete:
  assumes up: "platform_up s invent content head" and l: "life w0 i w a rs tr" and w: "alone w0 w"
    and a: "runs_image e data img dep i a" "a_matching_state a \<notin> set DELETION_STATES"
    and auth: "require_lifecycle_auth (sv_auth_type s) e = Inr ()"
    and script: "content (w_ext w) (script_path_of i) = Some script"
  obtains b a' tr' entries w' where
    "perform s [ReqGet e i, ReqDelete e i] w
       = ([Inr (response_of 200 (DetailBody (detail a (Some script)))), Inr (response_of 202 b)], w')"
    and "life w0 i w' a' (rs @ [audit i DELETE None (Some img) (en_email e) (w_clock w0)]) (tr @ tr')"
    and "calls tr' = [GitRead (script_path_of i), CappDelete (in_namespace data) (capp_name_for i (Some dep)),
         SecretDelete (in_namespace data) (run_auth_secret_name i), RegistryList i]
        @ map (RegistryDelete i) entries @ [RegistryList i, GitArchive i (en_email e)]"
    and "a_matching_state a' = DELETED" and "a_delete_cascade_step a' = Some 5"
    and "a_index_generation a' = a_index_generation a + 1"
proof -
  have row: "en_tenant_id e = a_tenant_id a" "a_build_state a \<noteq> BUILDING"
    using a(1) by (simp_all add: runs_image_def)
  obtain w1 where s1: "serve s (ReqGet e i) w
        = (Inr (response_of 200 (DetailBody (detail a (content (w_ext w) (a_script_path a))))), w1)"
      "life w0 i w1 a rs (tr @ [Called (GitRead (a_script_path a))])" "alone w0 w1"
    by (rule get_served [OF up l w row(1)])
  obtain a' w2 where s2: "a' = deleting a (en_email e) (w_clock w0)"
      "serve s (ReqDelete e i) w1 = (Inr (response_of 202 (StatusBody (lifecycle_status_of a'))), w2)"
      "life w0 i w2 (deleted_row a' (w_clock w0))
        (rs @ [audit i DELETE None (a_active_digest a) (en_email e) (w_clock w0)])
        ((tr @ [Called (GitRead (a_script_path a))]) @ [Committed, PublishReload] @ cascade_trace a' (invent (w_ext w1) i))"
    by (rule delete_served [OF up s1(2,3) row(1) auth a(2) row(2)])
  have step: "a_delete_cascade_step a' = Some STEP_MARKED_DELETING" by (simp add: s2(1) deleting_def)
  show thesis
  proof (rule that)
    show "perform s [ReqGet e i, ReqDelete e i] w
        = ([Inr (response_of 200 (DetailBody (detail a (Some script)))), Inr (response_of 202 (StatusBody (lifecycle_status_of a')))], w2)"
      using s1(1) s2(2) script a(1) by (simp add: runs_image_def)
    show "life w0 i w2 (deleted_row a' (w_clock w0)) (rs @ [audit i DELETE None (Some img) (en_email e) (w_clock w0)])
        (tr @ [Called (GitRead (a_script_path a)), Committed, PublishReload] @ cascade_trace a' (invent (w_ext w1) i))"
      using s2(3) a(1) by (simp add: runs_image_def)
    show "calls ([Called (GitRead (a_script_path a)), Committed, PublishReload] @ cascade_trace a' (invent (w_ext w1) i))
      = [GitRead (script_path_of i), CappDelete (in_namespace data) (capp_name_for i (Some dep)),
         SecretDelete (in_namespace data) (run_auth_secret_name i), RegistryList i]
        @ map (RegistryDelete i) (invent (w_ext w1) i) @ [RegistryList i, GitArchive i (en_email e)]"
      using a(1) cascade_calls [OF step] by (simp add: s2(1) deleting_def runs_image_def)
  qed (simp_all add: deleted_row_def s2(1) deleting_def)
qed

text \<open>C6. The whole life of an automation through the routes, with no concurrent request and every
  external system up: a tenant creates it, CI reports the build, the user enables it, edits it in
  the same wallet, CI reports the second build, the user reads it and deletes it. Every request
  succeeds; the second build is rolled out onto the deployment the first one created, while the
  automation stays active; the read shows the edited script, the second image and an active, idle
  automation; at the end the row is deleted at step 5 after exactly two generation changes, its
  audit trail is the six events in order, each requested build marked with the image it led to,
  no other row and no run moved, and the external calls are exactly those listed, in that order.\<close>

theorem whole_life:
  assumes up: "platform_up s invent content head" and env: "w_env w = []" and db: "db_ok (w_db w)"
    and tenant: "en_tenant_id e \<in> set (tenants (w_db w))"
    and fresh: "find_automation (w_db w) i = None" "\<forall>r \<in> set (revisions (w_db w)). rv_automation_id r \<noteq> i"
    and auth: "require_lifecycle_auth (sv_auth_type s) e = Inr ()"
    and ok: "authoring_ok (sv_env s) data" "authoring_ok (sv_env s) data'" "in_namespace data' = in_namespace data"
    and img: "is_digest_ref img" "own_image (sv_image_repository s) i img"
    and img': "is_digest_ref img'" "own_image (sv_image_repository s) i img'"
    and v: "\<not> blank v" "length v \<le> CONTRACT_VERSION_MAX_LENGTH"
  shows "\<exists>sha sha' vs w' out a tr dep entries.
    perform s [ReqCreate e data i, ReqWebhook i sha SUCCESS (Some img) (Some v), ReqEnable e i,
       ReqUpdate e i data', ReqWebhook i sha' SUCCESS (Some img') (Some v), ReqGet e i, ReqDelete e i] w
      = (map Inr vs, w')
    \<and> map rs_status vs = [201, 200, 200, 200, 200, 200, 202]
    \<and> rs_body (vs ! 5) = DetailBody out \<and> ao_script out = Some (in_script data') \<and> li_name out = in_name data'
    \<and> li_matching_state out = matching_state_value ACTIVE \<and> li_build_state out = build_state_value IDLE
    \<and> li_active_digest out = Some img' \<and> ao_index_generation out = 1
    \<and> life w i w' a (build_log i CREATE sha img (en_email e) (w_clock w)
        @ [audit i ENABLE None (Some img) (en_email e) (w_clock w)]
        @ build_log i EDIT sha' img' (en_email e) (w_clock w) @ [audit i DELETE None (Some img') (en_email e) (w_clock w)]) tr
    \<and> a_matching_state a = DELETED \<and> a_delete_cascade_step a = Some 5 \<and> a_index_generation a = 2
    \<and> calls tr =
        [GitCommit (script_path_of i), CappCreate i (in_namespace data) img (secret_refs data),
         GitCommit (script_path_of i), CappRollout dep img' (secret_refs data'), GitRead (script_path_of i),
         CappDelete (in_namespace data) (capp_name_for i (Some dep)),
         SecretDelete (in_namespace data) (run_auth_secret_name i), RegistryList i]
        @ map (RegistryDelete i) entries @ [RegistryList i, GitArchive i (en_email e)]"
proof -
  let ?t = "w_clock w"
  have w: "alone w w" using env db_okD(1) [OF db] by (simp add: alone_def)
  obtain sha b1 a1 tr1 dep w1 where p1:
      "perform s [ReqCreate e data i, ReqWebhook i sha SUCCESS (Some img) (Some v)] w
         = ([Inr (response_of 201 b1), Inr (response_of 200 (WebhookBody applied))], w1)"
      "life w i w1 a1 (build_log i CREATE sha img (en_email e) ?t) tr1"
      "calls tr1 = [GitCommit (script_path_of i), CappCreate i (in_namespace data) img (secret_refs data)]"
      "runs_image e data img dep i a1" "a_matching_state a1 = INACTIVE" "a_index_generation a1 = 0"
      "alone w w1" "head (w_ext w1) = sha"
    by (rule first_build [OF up w fresh tenant ok(1) img v])
  obtain a2 w2 where p2: "a2 = enabled a1 (en_email e) ?t"
      "serve s (ReqEnable e i) w1 = (Inr (response_of 200 (StatusBody (lifecycle_status_of a2))), w2)"
      "life w i w2 a2 (build_log i CREATE sha img (en_email e) ?t @ [audit i ENABLE None (Some img) (en_email e) ?t])
         (tr1 @ [Committed, PublishReload])"
      "alone w w2" "w_ext w2 = w_ext w1"
    by (rule enable_served [OF p1(2,7) _ auth, of img])
      (use p1(4,5) digest_ref_not_blank [OF img(1)] in \<open>simp_all add: runs_image_def\<close>)
  have a2: "runs_image e data img dep i a2" "a_matching_state a2 = ACTIVE" "a_index_generation a2 = 1"
    using p1(4,6) by (simp_all add: p2(1) enabled_def runs_image_def)
  obtain sha' b3 a3 tr3 w3 where p3:
      "perform s [ReqUpdate e i data', ReqWebhook i sha' SUCCESS (Some img') (Some v)] w2
         = ([Inr (response_of 200 b3), Inr (response_of 200 (WebhookBody applied))], w3)"
      "life w i w3 a3 ((build_log i CREATE sha img (en_email e) ?t @ [audit i ENABLE None (Some img) (en_email e) ?t])
         @ build_log i EDIT sha' img' (en_email e) ?t)
         ((tr1 @ [Committed, PublishReload]) @ tr3)"
      "calls tr3 = [GitCommit (script_path_of i), CappRollout dep img' (secret_refs data')]"
      "runs_image e data' img' dep i a3" "a_matching_state a3 = a_matching_state a2"
      "a_index_generation a3 = a_index_generation a2" "alone w w3"
      "content (w_ext w3) (script_path_of i) = Some (in_script data')"
    by (rule second_build [OF up p2(3,4) a2(1) _ ok(2,3) img' v]) (simp_all add: a2(2) audit_def p2(5) p1(8))
  obtain b4 a4 tr4 entries w4 where p4: "perform s [ReqGet e i, ReqDelete e i] w3
        = ([Inr (response_of 200 (DetailBody (detail a3 (Some (in_script data'))))), Inr (response_of 202 b4)], w4)"
      "life w i w4 a4 (((build_log i CREATE sha img (en_email e) ?t @ [audit i ENABLE None (Some img) (en_email e) ?t])
         @ build_log i EDIT sha' img' (en_email e) ?t)
         @ [audit i DELETE None (Some img') (en_email e) ?t]) (((tr1 @ [Committed, PublishReload]) @ tr3) @ tr4)"
      "calls tr4 = [GitRead (script_path_of i), CappDelete (in_namespace data') (capp_name_for i (Some dep)),
         SecretDelete (in_namespace data') (run_auth_secret_name i), RegistryList i]
         @ map (RegistryDelete i) entries @ [RegistryList i, GitArchive i (en_email e)]"
      "a_matching_state a4 = DELETED" "a_delete_cascade_step a4 = Some 5" "a_index_generation a4 = a_index_generation a3 + 1"
    by (rule read_then_delete [OF up p3(2,7,4) _ auth p3(8)]) (simp add: p3(5) a2(2))
  let ?vs = "[response_of 201 b1, response_of 200 (WebhookBody applied), response_of 200 (StatusBody (lifecycle_status_of a2)),
    response_of 200 b3, response_of 200 (WebhookBody applied),
    response_of 200 (DetailBody (detail a3 (Some (in_script data')))), response_of 202 b4]"
  have p: "perform s ([ReqCreate e data i, ReqWebhook i sha SUCCESS (Some img) (Some v)] @ [ReqEnable e i]
      @ [ReqUpdate e i data', ReqWebhook i sha' SUCCESS (Some img') (Some v)] @ [ReqGet e i, ReqDelete e i]) w
      = (map Inr ?vs, w4)"
    using perform_append [OF p1(1) perform_append [OF _ perform_append [OF p3(1) p4(1)]], of "[ReqEnable e i]"] p2(2) by simp
  show ?thesis
    by (rule exI [of _ sha], rule exI [of _ sha'], rule exI [of _ ?vs], rule exI [of _ w4],
        rule exI [of _ "detail a3 (Some (in_script data'))"], rule exI [of _ a4],
        rule exI [of _ "tr1 @ [Committed, PublishReload] @ tr3 @ tr4"], rule exI [of _ dep], rule exI [of _ entries])
      (use p p3 p4 p1(3) ok(3) a2 in \<open>simp add: detail_def runs_image_def\<close>)
qed

text \<open>A platform for concrete inputs: a script repository whose head alternates, and an execution
  platform and a registry that accept everything.\<close>

definition up_git :: "((pystr \<Rightarrow> pystr option) \<times> pystr \<times> (uuid \<Rightarrow> pystr list)) git_client" where
  "up_git = \<lparr>g_commit_script = (\<lambda>p c m (f, h, inv).
       let sha = (if h = sample_sha then replicate 40 49 else sample_sha) in (Inr sha, (f(p := Some c), sha, inv))),
     g_read_script = (\<lambda>p (f, h, inv). (Inr (f p), (f, h, inv))),
     g_archive = (\<lambda>i actor x. (Inr sample_sha, x))\<rparr>"

definition up_service :: "((pystr \<Rightarrow> pystr option) \<times> pystr \<times> (uuid \<Rightarrow> pystr list)) service" where
  "up_service = \<lparr>sv_env = sample_env, sv_build_lock_timeout = 600, sv_auth_type = str ''oidc'',
     sv_image_repository = sample_repo, sv_git = up_git,
     sv_capp = \<lparr>c_create_deployment = (\<lambda>i wl img refs x. (Inr sample_deployment, x)),
                c_rollout = (\<lambda>d img refs x. (Inr (), x))\<rparr>,
     sv_deps = \<lparr>cd_capp = \<lparr>d_delete_capp = (\<lambda>wl n x. (Inr (), x)), d_delete_secret = (\<lambda>wl n x. (Inr (), x))\<rparr>,
       cd_registry = \<lparr>rc_list_image_entries = (\<lambda>i (f, h, inv). (Inr (inv i), (f, h, inv))),
         rc_delete_image = (\<lambda>i e (f, h, inv). (Inr (), (f, h, inv(i := removeAll e (inv i)))))\<rparr>,
       cd_git = up_git\<rparr>\<rparr>"

lemma sample_sha_ok: "is_commit_sha sample_sha" "is_commit_sha (replicate 40 49)" "sample_sha \<noteq> replicate 40 49"
  by (simp_all add: is_commit_sha_def sample_sha_def list_all_iff is_hex_lower_def is_ascii_digit_def)

lemma up_service_up: "platform_up up_service (\<lambda>(f, h, inv). inv) (\<lambda>(f, h, inv). f) (\<lambda>(f, h, inv). h)"
  using sample_sha_ok
  by (auto simp: platform_up_def services_up_def up_service_def up_git_def Let_def)

definition born_world :: "((pystr \<Rightarrow> pystr option) \<times> pystr \<times> (uuid \<Rightarrow> pystr list)) world" where
  "born_world = \<lparr>w_db = \<lparr>automations = [], revisions = [], runs = [], tenants = [str ''acme'']\<rparr>,
     w_clock = 100, w_env = [], w_ext = (\<lambda>_. None, [], \<lambda>_. [str ''v1'']), w_trace = []\<rparr>"

theorem whole_life_witness:
  "\<exists>sha sha' vs w' a. perform up_service
      [ReqCreate (sample_user (str ''acme'')) sample_data sample_id,
       ReqWebhook sample_id sha SUCCESS (Some sample_image) (Some (str ''1'')),
       ReqEnable (sample_user (str ''acme'')) sample_id,
       ReqUpdate (sample_user (str ''acme'')) sample_id sample_data,
       ReqWebhook sample_id sha' SUCCESS (Some sample_image) (Some (str ''1'')),
       ReqGet (sample_user (str ''acme'')) sample_id, ReqDelete (sample_user (str ''acme'')) sample_id] born_world
      = (map Inr vs, w')
    \<and> map rs_status vs = [201, 200, 200, 200, 200, 200, 202]
    \<and> find_automation (w_db w') sample_id = Some a \<and> a_matching_state a = DELETED
    \<and> length (revisions (w_db w')) = 6"
proof -
  let ?e = "sample_user (str ''acme'')"
  have "own_image (sv_image_repository up_service) sample_id sample_image"
    by (simp add: own_image_def up_service_def sample_repo_valid sample_image_repository)
  moreover have "authoring_ok (sv_env up_service) sample_data" using sample_authoring_ok by (simp add: up_service_def)
  moreover have "w_env born_world = []" "db_ok (w_db born_world)" "en_tenant_id ?e \<in> set (tenants (w_db born_world))"
    "find_automation (w_db born_world) sample_id = None"
    "\<forall>r \<in> set (revisions (w_db born_world)). rv_automation_id r \<noteq> sample_id"
    by (simp_all add: born_world_def db_ok_def sample_user_def find_automation_def)
  moreover have "require_lifecycle_auth (sv_auth_type up_service) ?e = Inr ()"
    by (simp add: require_lifecycle_auth_def up_service_def sample_user_def str_def)
  moreover have "\<not> blank (str ''1'')" "length (str ''1'') \<le> CONTRACT_VERSION_MAX_LENGTH"
    by (simp_all add: blank_iff str_def is_space_def CONTRACT_VERSION_MAX_LENGTH_def)
  ultimately show ?thesis
    using whole_life [OF up_service_up, of born_world ?e sample_id sample_data sample_data sample_image sample_image "str ''1''"]
      sample_image_digest
    by (fastforce simp: life_def born_world_def)
qed

end
