(* ===== verification/Provenance.thy ===== *)
theory Provenance
  imports Builds_Correct Service
begin

text \<open>
  Where images come from. \<open>own_images\<close>: every image a row serves or an audit row names is in the
  repository of that automation. It is an invariant of the service although only the webhook
  checks it, before the deployment and outside the transaction that stores the image: an
  interpretation of \<open>edit_rely\<close> whose relation is the invariant's own preservation.
\<close>

definition own_images :: "pystr \<Rightarrow> database \<Rightarrow> bool" where
  "own_images repo d \<longleftrightarrow>
     (\<forall>a \<in> set (automations d). \<forall>img. a_active_digest a = Some img \<longrightarrow> own_image repo (a_id a) img)
   \<and> (\<forall>r \<in> set (revisions d). \<forall>img. rv_resulting_digest r = Some img \<longrightarrow> own_image repo (rv_automation_id r) img)"

section \<open>The transactions\<close>

lemma own_images_row:
  "own_images repo d \<Longrightarrow> a \<in> set (automations d) \<Longrightarrow> a_active_digest a = Some img \<Longrightarrow> own_image repo (a_id a) img"
  by (simp add: own_images_def)

lemma own_images_put:
  assumes "own_images repo d" and "\<And>img. a_active_digest a = Some img \<Longrightarrow> own_image repo (a_id a) img"
  shows "own_images repo (put_automation a d)"
  using assms by (auto simp: own_images_def table_simps dest!: set_put_automation)

lemma own_images_update:
  assumes "own_images repo d" and "\<And>a. a_id (f a) = a_id a \<and> a_active_digest (f a) = a_active_digest a"
  shows "own_images repo (update_automations p f d)"
  using assms by (auto simp: own_images_def table_simps set_update_where)

lemma own_images_revision:
  assumes "own_images repo d" and "\<And>img. rv_resulting_digest r = Some img \<Longrightarrow> own_image repo (rv_automation_id r) img"
  shows "own_images repo (add_revision r d)"
  using assms by (auto simp: own_images_def table_simps)

lemma own_images_insert:
  assumes "own_images repo d" and "insert_automation a d = Inr d'" and "a_active_digest a = None"
  shows "own_images repo d'"
  using assms insert_automation_InrD(1) [OF assms(2)] by (auto simp: own_images_def)

lemma own_images_runs: "own_images repo (update_runs p f d) = own_images repo d"
  by (simp add: own_images_def table_simps)

lemma own_images_cut_over:
  assumes own: "own_images repo d" and "require_own_image repo event = Inr ()"
    and tx: "cut_over_tx event created now d = Inr (res, Some d')"
  shows "own_images repo d'"
proof -
  obtain a where a: "load (e_automation_id event) d = Inr a" and d': "d' = cut_over_db d a event created now"
    using tx by (rule cut_over_tx_SomeD)
  from assms(2) have img: "own_image repo (e_automation_id event) s" if "e_image event = Some s" for s
    using that by (auto simp: own_image_def elim!: require_own_image_InrD)
  have row: "own_images repo (put_automation (cut_over_row a event created now) d)"
    by (rule own_images_put [OF own]) (use img load_InrD [OF a] in simp)
  then have "own_images repo (update_revisions
      (\<lambda>r. rv_automation_id r = e_automation_id event \<and> rv_git_sha r = Some (e_commit_sha event)
         \<and> rv_action r \<in> set REQUESTING_ACTIONS)
      (\<lambda>r. r\<lparr>rv_resulting_digest := e_image event\<rparr>) (put_automation (cut_over_row a event created now) d))"
    using img by (auto simp: own_images_def table_simps set_update_where)
  then show ?thesis unfolding d' cut_over_db_def
    by (rule own_images_revision) (use img in \<open>simp add: build_revision_def\<close>)
qed

lemma own_images_txs:
  assumes "own_images repo d"
  shows "create_tx i t data actor sha deadline now d = Inr (a, d') \<Longrightarrow> own_images repo d'"
    and "claim_build_tx t i data deadline now d = Inr (c, d') \<Longrightarrow> own_images repo d'"
    and "release_build_claim_tx c now d = Inr (u, d') \<Longrightarrow> own_images repo d'"
    and "finish_edit_tx t i data actor c sha now d = Inr (a, d') \<Longrightarrow> own_images repo d'"
    and "toggle_tx t i actor target action now d = Inr (a, d') \<Longrightarrow> own_images repo d'"
    and "record_failure_tx event now d = Inr (res, Some d') \<Longrightarrow> own_images repo d'"
    and "begin_delete_tx t i actor now d = Inr (adm, Some d') \<Longrightarrow> own_images repo d'"
    and "checkpoint_tx i n ms now d = Inr (won, d') \<Longrightarrow> own_images repo d'"
    and "complete_run_tx run_id expected vals now d = Inr (changed, d') \<Longrightarrow> own_images repo d'"
proof -
  have puts: "own_image repo (a_id b) img \<and> own_image repo i img"
    if "scoped_get t i d = Inr b" "a_active_digest b = Some img" for t i b img
    using own_images_row [OF assms scoped_get_InrD(3) [OF that(1)] that(2)] scoped_get_InrD(1) [OF that(1)] by simp
  have loads: "own_image repo (a_id b) img" if "load i d = Inr b" "a_active_digest b = Some img" for i b img
    using load_InrD [OF that(1)] atab.get_in_rows own_images_row [OF assms _ that(2)] by blast
  note adds = own_images_revision own_images_put [OF assms]
  show "create_tx i t data actor sha deadline now d = Inr (a, d') \<Longrightarrow> own_images repo d'"
    by (auto elim!: create_tx_InrD intro!: own_images_revision elim: own_images_insert [OF assms] simp: new_automation_def)
  show "claim_build_tx t i data deadline now d = Inr (c, d') \<Longrightarrow> own_images repo d'"
    by (auto elim!: claim_build_tx_InrD intro!: adds dest: puts)
  show "finish_edit_tx t i data actor c sha now d = Inr (a, d') \<Longrightarrow> own_images repo d'"
    by (auto elim!: finish_edit_tx_InrD intro!: adds dest: puts)
  show "toggle_tx t i actor target action now d = Inr (a, d') \<Longrightarrow> own_images repo d'"
    by (auto elim!: toggle_tx_InrD intro!: adds dest: puts)
  show "record_failure_tx event now d = Inr (res, Some d') \<Longrightarrow> own_images repo d'"
    by (auto elim!: record_failure_tx_SomeD intro!: adds dest: loads simp: build_revision_def)
  show "begin_delete_tx t i actor now d = Inr (adm, Some d') \<Longrightarrow> own_images repo d'"
    by (auto elim!: begin_delete_tx_SomeD intro!: adds dest: puts)
qed (auto simp: release_build_claim_tx_def checkpoint_tx_def advance_def complete_run_tx_def own_images_runs assms
    intro!: own_images_update)

text \<open>What the requests promise each other: the state machine, and the provenance of images.\<close>

definition provenance_steps :: "pystr \<Rightarrow> database \<Rightarrow> database \<Rightarrow> bool" where
  "provenance_steps repo d d' \<longleftrightarrow> service_steps d d' \<and> (own_images repo d \<longrightarrow> own_images repo d')"

definition provenance_ok :: "pystr \<Rightarrow> database \<Rightarrow> bool" where
  "provenance_ok repo d \<longleftrightarrow> db_ok d \<and> own_images repo d"

lemma provenance_step: "service_step d d' \<Longrightarrow> own_images repo d' \<Longrightarrow> provenance_steps repo d d'"
  by (simp add: provenance_steps_def r_into_rtranclp)

interpretation own: edit_rely "provenance_steps repo" "provenance_ok repo" repo for repo
proof unfold_locales
  show "provenance_steps repo d d'' " if "provenance_steps repo d d'" "provenance_steps repo d' d''" for d d' d''
    using that by (auto simp: provenance_steps_def)
  show "stable (provenance_steps repo) (provenance_ok repo)"
    by (rule stableI) (auto simp: provenance_steps_def provenance_ok_def intro: service_steps_ok)
next
  fix d t i data deadline now c d'
  assume "provenance_ok repo d" and tx: "claim_build_tx t i data deadline now d = Inr (c, d')"
  then have ok: "db_ok d" "own_images repo d" by (simp_all add: provenance_ok_def)
  from own_images_txs(2) [OF ok(2) tx] claim_ok_step(2) [OF ok(1) tx]
  show "provenance_steps repo d d' \<and> claim_ok c" by (blast intro: provenance_step service_step.intros tx)
next
  show "provenance_steps repo d d" for d by (simp add: provenance_steps_def)
qed (unfold provenance_ok_def; blast intro: provenance_step service_step.intros own_images_txs own_images_cut_over)+

section \<open>Properties\<close>

text \<open>C13. An automation only ever runs its own images: whatever requests run in whatever
  interleaving, with whatever answers of the external systems and database faults, an image that
  a row serves or that an audit row names lies in the repository of that automation, although the
  check runs before the deployment and outside the transaction that stores the image. So no two
  automations serve the same image.\<close>

theorem images_stay_with_their_automation:
  assumes "env_rely (provenance_steps (sv_image_repository s)) w"
    and "db_ok (w_db w)" and "own_images (sv_image_repository s) (w_db w)"
    and "serve s req w = (r, w')"
  shows "provenance_steps (sv_image_repository s) (w_db w) (w_db w')
    \<and> own_images (sv_image_repository s) (w_db w')
    \<and> (\<forall>a \<in> set (automations (w_db w')). \<forall>b \<in> set (automations (w_db w')).
         a_active_digest a = a_active_digest b \<longrightarrow> a = b \<or> a_active_digest a = None)"
proof -
  have "provenance_ok (sv_image_repository s) (w_db w)" using assms(2,3) by (simp add: provenance_ok_def)
  from own.serve_guarantee [OF assms(1) this assms(4) refl]
  have steps: "provenance_steps (sv_image_repository s) (w_db w) (w_db w')"
    and ok: "db_ok (w_db w')" "own_images (sv_image_repository s) (w_db w')"
    by (simp_all add: provenance_ok_def)
  have "a = b" if "a \<in> set (automations (w_db w'))" "b \<in> set (automations (w_db w'))"
    "a_active_digest a = a_active_digest b" "a_active_digest a = Some img" for a b img
  proof -
    have "a_id a = a_id b"
      using own_images_row [OF ok(2)] that own_image_unique by metis
    with that(1,2) db_okD(1) [OF ok(1)] show ?thesis by (auto simp: distinct_map inj_on_def)
  qed
  with steps ok(2) show ?thesis by (meson option.exhaust)
qed

theorem images_stay_with_their_automation_witness:
  "own_images sample_repo (w_db (snd (serve sample_service
     (ReqWebhook sample_id sample_sha SUCCESS (Some sample_image) (Some (str ''1'')))
     (sample_world [] 0 (sample_row INACTIVE BUILDING (Some sample_sha) None None)))))"
proof -
  let ?w = "sample_world [] (0::nat) (sample_row INACTIVE BUILDING (Some sample_sha) None None)"
  let ?req = "ReqWebhook sample_id sample_sha SUCCESS (Some sample_image) (Some (str ''1''))"
  obtain r w' where run: "serve sample_service ?req ?w = (r, w')" by fastforce
  have repo: "sv_image_repository sample_service = sample_repo" by (simp add: sample_service_def)
  have own: "own_images sample_repo (w_db ?w)"
    by (simp add: own_images_def own_image_def sample_repo_valid sample_image_repository sample_revision_def)
  have "db_ok (w_db ?w)" by (simp add: sample_db_ok)
  from images_stay_with_their_automation [OF _ this _ run] own run show ?thesis by (simp add: repo)
qed

end
