(* ===== verification/Claims.thy ===== *)
theory Claims
  imports Samples
begin

text \<open>
  Concurrent edits. An edit is not one transaction: it claims the build, commits the script to
  git with no session open, and then finishes, releases, or (its session failing) abandons the
  claim. The claim's deadline is its fencing token. The machine \<open>edit_step\<close> adds to the database
  the time and the claims of the edits under way, each with its payload, and interleaves them
  with every other transaction of the service and with a reconciler that takes builds whose
  deadline has passed away from whoever holds them. Its invariant \<open>edits_ok\<close> says that every edit
  under way either holds the lock of its automation, alone, or has lost it for good. From it follow
  that edits exclude each other, that an edit which holds its claim can always finish while one
  that lost it can change nothing, and that a deployed automation never moves to another wallet,
  although only the claim checks the wallet and the finishing write does not.

  The reconciler is not part of the repository. What is assumed of it is what the comments of
  \<open>src/bl/automations_bl.py\<close> and \<open>src/config.py\<close> say: it releases a build lock only past its deadline.
  Of the clock it is assumed that it does not run backwards and that a claim is written before its
  own deadline, that is, within \<open>BUILD_LOCK_TIMEOUT_SECONDS\<close> of reading the clock.
\<close>

section \<open>The machine\<close>

inductive other_step :: "database \<Rightarrow> database \<Rightarrow> bool" where
  other_create: "authoring_ok env data \<Longrightarrow>
    create_tx i t data actor sha deadline now d = Inr (a, d') \<Longrightarrow> other_step d d'"
| other_toggle: "(target, action) \<in> {(ACTIVE, ENABLE), (INACTIVE, DISABLE)} \<Longrightarrow>
    toggle_tx t i actor target action now d = Inr (a, d') \<Longrightarrow> other_step d d'"
| other_cut_over: "event_ok event \<Longrightarrow> e_status event = SUCCESS \<Longrightarrow>
    cut_over_tx event created now d = Inr (res, Some d') \<Longrightarrow> other_step d d'"
| other_failure: "record_failure_tx event now d = Inr (res, Some d') \<Longrightarrow> other_step d d'"
| other_begin_delete: "begin_delete_tx t i actor now d = Inr (adm, Some d') \<Longrightarrow> other_step d d'"
| other_checkpoint: "(n, ms) \<in> {(1, None), (2, None), (3, None), (4, None), (5, Some DELETED)} \<Longrightarrow>
    checkpoint_tx i n ms now d = Inr (won, d') \<Longrightarrow> other_step d d'"
| other_complete_run: "complete_run_tx run_id (Some s) (deletion_values s) now d = Inr (changed, d') \<Longrightarrow>
    other_step d d'"

type_synonym pending = "build_claim \<times> automation_in"

inductive reconcile_step :: "datetime \<Rightarrow> database \<Rightarrow> database \<Rightarrow> bool" where
  reconcile_release: "find_automation d i = Some a \<Longrightarrow> a_build_state a = BUILDING \<Longrightarrow>
    a_build_lock_deadline a = Some deadline \<Longrightarrow> deadline \<le> now \<Longrightarrow> s \<noteq> BUILDING \<Longrightarrow>
    reconcile_step now d (put_automation
      (a\<lparr>a_build_state := s, a_building_sha := None, a_build_lock_deadline := None\<rparr>) d)"

type_synonym edit_state = "datetime \<times> database \<times> pending list"

inductive edit_step :: "edit_state \<Rightarrow> edit_state \<Rightarrow> bool" where
  edit_tick: "now \<le> now' \<Longrightarrow> edit_step (now, d, ps) (now', d, ps)"
| edit_claim: "claim_build_tx t i data deadline now d = Inr (c, d') \<Longrightarrow> now < deadline \<Longrightarrow>
    edit_step (now, d, ps) (now, d', (c, data) # ps)"
| edit_release: "(c, data) \<in> set ps \<Longrightarrow> release_build_claim_tx c now d = Inr (u, d') \<Longrightarrow>
    edit_step (now, d, ps) (now, d', remove1 (c, data) ps)"
| edit_finish: "(c, data) \<in> set ps \<Longrightarrow> authoring_ok env data \<Longrightarrow>
    finish_edit_tx t (bc_automation_id c) data actor c sha now d = Inr (a, d') \<Longrightarrow>
    edit_step (now, d, ps) (now, d', remove1 (c, data) ps)"
| edit_abandon: "p \<in> set ps \<Longrightarrow> edit_step (now, d, ps) (now, d, remove1 p ps)"
| edit_reconcile: "reconcile_step now d d' \<Longrightarrow> edit_step (now, d, ps) (now, d', ps)"
| edit_other: "other_step d d' \<Longrightarrow> edit_step (now, d, ps) (now, d', ps)"

lemma other_step_service: "other_step d d' \<Longrightarrow> service_step d d'"
  by (induction rule: other_step.induct) (blast intro: service_step.intros)+

section \<open>What the other transactions leave alone\<close>

definition claimed :: "automation \<Rightarrow> bool" where
  "claimed a \<longleftrightarrow> a_build_state a = BUILDING \<and> a_building_sha a = None"

definition claim_view :: "automation \<Rightarrow> build_state \<times> pystr option \<times> datetime option \<times> pystr \<times> pystr option \<times> pystr" where
  "claim_view a = (a_build_state a, a_building_sha a, a_build_lock_deadline a, a_namespace a,
     a_capp_deployment_id a, a_tenant_id a)"

definition wallet_kept :: "automation \<Rightarrow> automation \<Rightarrow> bool" where
  "wallet_kept a a' \<longleftrightarrow>
     (a_capp_deployment_id a \<noteq> None \<longrightarrow> a_capp_deployment_id a' \<noteq> None \<and> a_namespace a' = a_namespace a)"

text \<open>No transaction but a claim takes the lock.\<close>

definition lock_kept :: "automation \<Rightarrow> automation \<Rightarrow> bool" where
  "lock_kept a a' \<longleftrightarrow> (a_build_state a' = BUILDING \<longrightarrow>
     a_build_state a = BUILDING \<and> a_build_lock_deadline a' = a_build_lock_deadline a)"

definition row_kept :: "automation \<Rightarrow> automation \<Rightarrow> bool" where
  "row_kept a a' \<longleftrightarrow> (claimed a \<longrightarrow> claim_view a' = claim_view a) \<and> wallet_kept a a' \<and> lock_kept a a'"

definition rows_rel :: "(automation \<Rightarrow> automation \<Rightarrow> bool) \<Rightarrow> database \<Rightarrow> database \<Rightarrow> bool" where
  "rows_rel r d d' \<longleftrightarrow>
     (\<forall>i a. find_automation d i = Some a \<longrightarrow> (\<exists>a'. find_automation d' i = Some a' \<and> r a a'))"

lemmas kept_defs = row_kept_def claimed_def claim_view_def wallet_kept_def lock_kept_def

lemma row_kept_refl [simp]: "row_kept a a" and wallet_kept_refl [simp]: "wallet_kept a a"
  by (simp_all add: kept_defs)

lemma wallet_kept_trans: "wallet_kept a b \<Longrightarrow> wallet_kept b c \<Longrightarrow> wallet_kept a c"
  by (auto simp: wallet_kept_def)

lemma rows_relD:
  assumes "rows_rel r d d'" and "find_automation d i = Some a"
  obtains a' where "find_automation d' i = Some a'" and "r a a'"
  using assms unfolding rows_rel_def by blast

lemma rows_rel_mono: "rows_rel r d d' \<Longrightarrow> (\<And>a a'. r a a' \<Longrightarrow> q a a') \<Longrightarrow> rows_rel q d d'"
  unfolding rows_rel_def by blast

lemma rows_rel_revisions [simp]:
  "rows_rel r d (add_revision rv d') \<longleftrightarrow> rows_rel r d d'"
  "rows_rel r d (update_revisions p f d') \<longleftrightarrow> rows_rel r d d'"
  by (simp_all add: rows_rel_def table_simps)

lemma rows_rel_put:
  assumes "\<And>a. r a a" and "find_automation d (a_id a') = Some a" and "r a a'"
  shows "rows_rel r d (put_automation a' d)"
  using assms by (auto simp: rows_rel_def table_simps)

lemma rows_rel_update:
  assumes "\<And>a. r a a" and "\<And>a. a_id (f a) = a_id a"
    and "\<And>a. a \<in> set (automations d) \<Longrightarrow> p a \<Longrightarrow> r a (f a)"
  shows "rows_rel r d (update_automations p f d)"
  using assms by (auto simp: rows_rel_def atab.get_upd dest: atab.get_in_rows)

lemma rows_rel_scoped:
  assumes "\<And>a. r a a" and "db_ok d" and "scoped_get t i d = Inr a" and "a_id a' = a_id a" and "r a a'"
  shows "rows_rel r d (put_automation a' d)"
  using db_ok_scoped(3) [OF assms(2,3)] scoped_get_InrD(1) [OF assms(3)] assms(1,4,5)
  by (intro rows_rel_put [where a = a]) simp_all

lemma rows_rel_load:
  assumes "\<And>a. r a a" and "load i d = Inr a" and "a_id a' = a_id a" and "r a a'"
  shows "rows_rel r d (put_automation a' d)"
  using load_InrD [OF assms(2)] assms(1,3,4) by (intro rows_rel_put [where a = a]) simp_all

lemma create_rows:
  assumes "create_tx i t data actor sha deadline now d = Inr (a, d')" and "\<And>a. r a a"
  shows "rows_rel r d d'"
  using assms(1)
proof (rule create_tx_InrD)
  fix d1
  assume ins: "insert_automation a d = Inr d1"
    and d': "d' = add_revision \<lparr>rv_automation_id = i, rv_action = CREATE, rv_git_sha = Some sha,
                rv_resulting_digest = None, rv_actor = actor, rv_created_at = now\<rparr> d1"
  have "find_automation d (a_id a) = None"
    using insert_automation_InrD(2) [OF ins] by (simp add: atab.get_None_iff)
  then show ?thesis by (auto simp: rows_rel_def d' table_simps find_insert_automation [OF ins] assms(2))
qed

lemma other_step_rows:
  assumes "other_step d d'" and "db_ok d"
  shows "rows_rel row_kept d d'"
  using assms(1)
proof cases
  case other_create
  then show ?thesis by (blast intro: create_rows row_kept_refl)
next
  case (other_toggle target action t i actor now a')
  from other_toggle(2) show ?thesis
    by (rule toggle_tx_InrD) (simp add: rows_rel_scoped [OF row_kept_refl assms(2)] kept_defs)
next
  case (other_cut_over event created now res)
  from other_cut_over(3) show ?thesis
    by (rule cut_over_tx_SomeD)
      (auto simp: cut_over_db_def kept_defs admitted_at_commit_def failure_raced_def split: option.splits
        intro!: rows_rel_load [OF row_kept_refl])
next
  case (other_failure event now res)
  from other_failure(1) show ?thesis
    by (rule record_failure_tx_SomeD)
      (auto simp: kept_defs admission_None_iff intro!: rows_rel_load [OF row_kept_refl])
next
  case (other_begin_delete t i actor now adm)
  from other_begin_delete(1) show ?thesis
    by (rule begin_delete_tx_SomeD) (simp add: rows_rel_scoped [OF row_kept_refl assms(2)] kept_defs)
next
  case (other_checkpoint n ms i now won)
  then show ?thesis
    by (auto simp: checkpoint_tx_def advance_def kept_defs intro!: rows_rel_update)
next
  case (other_complete_run run_id s now changed)
  then show ?thesis by (auto simp: complete_run_tx_def rows_rel_def table_simps)
qed

lemma reconcile_ok:
  assumes "reconcile_step now d d'" and "db_ok d"
  shows "db_ok d'"
  using assms(1)
proof cases
  case (reconcile_release i a deadline s)
  have "row_ok (tenants d) a" using db_okD(3) [OF assms(2) atab.get_in_rows [OF reconcile_release(2)]] .
  with reconcile_release show ?thesis
    by (auto simp: row_ok_defs requested_def intro!: db_ok_put [OF assms(2)])
qed

section \<open>What a claim protects\<close>

text \<open>An edit holds the lock of its automation, or has lost it: the row is not locked under its
  deadline, and that deadline has passed, so no later claim can have the same.\<close>

definition locked_by :: "build_claim \<Rightarrow> automation \<Rightarrow> bool" where
  "locked_by c a \<longleftrightarrow> a_build_state a = BUILDING \<and> a_build_lock_deadline a = Some (bc_deadline c)"

definition holds :: "database \<Rightarrow> pending \<Rightarrow> bool" where
  "holds d p \<longleftrightarrow>
     (\<exists>a. find_automation d (bc_automation_id (fst p)) = Some a \<and> locked_by (fst p) a \<and> a_building_sha a = None
        \<and> claim_ok (fst p) \<and> (a_capp_deployment_id a = None \<or> a_namespace a = in_namespace (snd p)))"

definition lost :: "datetime \<Rightarrow> database \<Rightarrow> pending \<Rightarrow> bool" where
  "lost now d p \<longleftrightarrow>
     (\<exists>a. find_automation d (bc_automation_id (fst p)) = Some a \<and> \<not> locked_by (fst p) a)
     \<and> bc_deadline (fst p) \<le> now \<and> claim_ok (fst p)"

definition token :: "pending \<Rightarrow> uuid \<times> datetime" where
  "token p = (bc_automation_id (fst p), bc_deadline (fst p))"

definition edits_ok :: "edit_state \<Rightarrow> bool" where
  "edits_ok s = (case s of (now, d, ps) \<Rightarrow>
     db_ok d \<and> distinct (map token ps) \<and> (\<forall>p \<in> set ps. holds d p \<or> lost now d p))"

lemma edits_okD:
  assumes "edits_ok (now, d, ps)"
  shows "db_ok d" and "distinct (map token ps)" and "p \<in> set ps \<Longrightarrow> holds d p \<or> lost now d p"
    and "p \<in> set ps \<Longrightarrow> claim_ok (fst p)"
  using assms by (auto simp: edits_ok_def holds_def lost_def)

lemma holds_kept:
  assumes "rows_rel row_kept d d'" and "holds d p"
  shows "holds d' p"
proof -
  from assms(2) obtain a where a: "find_automation d (bc_automation_id (fst p)) = Some a" "locked_by (fst p) a"
      "a_building_sha a = None" "claim_ok (fst p)"
      "a_capp_deployment_id a = None \<or> a_namespace a = in_namespace (snd p)"
    by (auto simp: holds_def)
  from assms(1) a(1) obtain a' where "find_automation d' (bc_automation_id (fst p)) = Some a'" "row_kept a a'"
    by (rule rows_relD)
  with a show ?thesis by (auto simp: holds_def locked_by_def kept_defs)
qed

lemma lost_kept:
  assumes "rows_rel row_kept d d'" and "lost now d p"
  shows "lost now d' p"
proof -
  from assms(2) obtain a where a: "find_automation d (bc_automation_id (fst p)) = Some a" "\<not> locked_by (fst p) a"
    by (auto simp: lost_def)
  from assms(1) a(1) obtain a' where "find_automation d' (bc_automation_id (fst p)) = Some a'" "row_kept a a'"
    by (rule rows_relD)
  with a assms(2) show ?thesis by (auto simp: lost_def locked_by_def row_kept_def lock_kept_def)
qed

lemma standing_frame:
  assumes "find_automation d' (bc_automation_id (fst p)) = find_automation d (bc_automation_id (fst p))"
  shows "holds d' p \<or> lost now d' p \<longleftrightarrow> holds d p \<or> lost now d p"
  using assms by (simp add: holds_def lost_def)

lemma lost_later: "lost now d p \<Longrightarrow> now \<le> now' \<Longrightarrow> lost now' d p"
  by (auto simp: lost_def)

text \<open>Two edits of one automation: the one that does not hold the lock stays without it.\<close>

lemma rival_lost:
  assumes "holds d q \<or> lost now d q" and "find_automation d (bc_automation_id (fst q)) = Some a"
    and "a_build_state a = BUILDING \<longrightarrow> a_build_lock_deadline a \<noteq> Some (bc_deadline (fst q))"
    and "find_automation d' (bc_automation_id (fst q)) = Some a'"
    and "a_build_state a' = BUILDING \<longrightarrow> a_build_lock_deadline a' \<noteq> Some (bc_deadline (fst q))"
  shows "lost now d' q"
  using assms by (auto simp: holds_def lost_def locked_by_def)

lemma remove1_keyed:
  assumes "distinct (map f xs)"
  shows "distinct (map f (remove1 x xs))" and "set (remove1 x xs) = set xs - {x}"
    and "y \<in> set (remove1 x xs) \<Longrightarrow> x \<in> set xs \<Longrightarrow> f y \<noteq> f x"
  using assms by (auto simp: distinct_map set_remove1_eq inj_on_def)

text \<open>An edit that lets its claim go may change its own row, if it holds it; the rows of the others
  stay.\<close>

lemma edits_ok_let_go:
  assumes ok: "edits_ok (now, d, ps)" and p: "p \<in> set ps" and "db_ok d'"
    and frame: "\<And>i. i \<noteq> bc_automation_id (fst p) \<Longrightarrow> find_automation d' i = find_automation d i"
    and own: "\<And>a. find_automation d (bc_automation_id (fst p)) = Some a \<Longrightarrow>
      \<exists>a'. find_automation d' (bc_automation_id (fst p)) = Some a' \<and> (a' = a \<or> locked_by (fst p) a
        \<and> (a_build_state a' = BUILDING \<longrightarrow> a_build_lock_deadline a' = Some (bc_deadline (fst p))))"
  shows "edits_ok (now, d', remove1 p ps)"
proof -
  note keys = edits_okD(2) [OF ok]
  have "holds d' q \<or> lost now d' q" if q: "q \<in> set (remove1 p ps)" for q
  proof -
    have st: "holds d q \<or> lost now d q" using edits_okD(3) [OF ok] q remove1_keyed(2) [OF keys] by auto
    show ?thesis
    proof (cases "bc_automation_id (fst q) = bc_automation_id (fst p)")
      case False
      with st standing_frame [OF frame, of q now] show ?thesis by simp
    next
      case same: True
      have other: "bc_deadline (fst q) \<noteq> bc_deadline (fst p)"
        using remove1_keyed(3) [OF keys q p] same by (auto simp: token_def)
      obtain a where a: "find_automation d (bc_automation_id (fst p)) = Some a"
        using st same by (auto simp: holds_def lost_def)
      from own [OF a] obtain a' where a': "find_automation d' (bc_automation_id (fst p)) = Some a'"
        and change: "a' = a \<or> locked_by (fst p) a
          \<and> (a_build_state a' = BUILDING \<longrightarrow> a_build_lock_deadline a' = Some (bc_deadline (fst p)))" by blast
      show ?thesis
      proof (cases "a' = a")
        case True
        with st standing_frame [of d' q d now] a a' same show ?thesis by simp
      next
        case False
        with change have locked: "locked_by (fst p) a"
          and kept: "a_build_state a' = BUILDING \<longrightarrow> a_build_lock_deadline a' = Some (bc_deadline (fst p))" by simp_all
        have "lost now d' q"
          using rival_lost [OF st, of a d' a'] a a' locked kept other same by (simp add: locked_by_def)
        then show ?thesis ..
      qed
    qed
  qed
  with assms(3) remove1_keyed(1) [OF keys] show ?thesis by (simp add: edits_ok_def)
qed

lemma claim_edits_ok:
  assumes ok: "edits_ok (now, d, ps)" and claim: "claim_build_tx t i data deadline now d = Inr (c, d')"
    and later: "now < deadline"
  shows "edits_ok (now, d', (c, data) # ps)"
  using claim
proof (rule claim_build_tx_InrD)
  fix a
  assume a: "scoped_get t i d = Inr a" "a_build_state a \<noteq> BUILDING" "check_wallet_unchanged a data = Inr ()"
    and c: "c = \<lparr>bc_automation_id = a_id a, bc_script_path = a_script_path a,
                  bc_deadline = deadline, bc_previous_build_state = a_build_state a,
                  bc_previous_building_sha = a_building_sha a\<rparr>"
    and d': "d' = put_automation (a\<lparr>a_build_state := BUILDING, a_build_lock_deadline := Some deadline,
                                a_building_sha := None\<rparr>) d"
  note db = edits_okD(1) [OF ok] and st = edits_okD(3) [OF ok]
  have row: "find_automation d (a_id a) = Some a"
    using db_ok_scoped(3) [OF db a(1)] scoped_get_InrD(1) [OF a(1)] by simp
  have old: "lost now d q \<and> bc_deadline (fst q) \<noteq> deadline" if "q \<in> set ps" "bc_automation_id (fst q) = a_id a" for q
    using st [OF that(1)] row a(2) that(2) later by (auto simp: holds_def lost_def locked_by_def)
  have "holds d' q \<or> lost now d' q" if "q \<in> set ps" for q
  proof (cases "bc_automation_id (fst q) = a_id a")
    case True
    with old [OF that] row show ?thesis by (auto simp: lost_def locked_by_def d' table_simps)
  next
    case False
    then have "find_automation d' (bc_automation_id (fst q)) = find_automation d (bc_automation_id (fst q))"
      by (simp add: d' table_simps)
    with st [OF that] standing_frame [of d' q d now] show ?thesis by simp
  qed
  moreover have "holds d' (c, data)"
    using row a(3) claim_ok_step(2) [OF db claim]
    by (auto simp: holds_def locked_by_def d' c table_simps check_wallet_unchanged_def split: if_splits)
  moreover have "token (c, data) \<notin> token ` set ps"
    using old by (fastforce simp: token_def c)
  ultimately show ?thesis using edits_okD(2) [OF ok] claim_ok_step(1) [OF db claim] by (simp add: edits_ok_def)
qed

lemma release_row:
  assumes "release_build_claim_tx c now d = Inr (u, d')"
  shows "find_automation d' i = map_option (\<lambda>r. if i = bc_automation_id c \<and> locked_by c r
      then r\<lparr>a_build_state := bc_previous_build_state c, a_building_sha := bc_previous_building_sha c,
             a_build_lock_deadline := None\<rparr> else r) (find_automation d i)"
  using assms atab.get_key [of d i]
  by (cases "find_automation d i") (auto simp: release_build_claim_tx_def atab.get_upd locked_by_def)

lemma edit_step_ok:
  assumes "edit_step s s'" and "edits_ok s"
  shows "edits_ok s'"
  using assms
proof (induction rule: edit_step.induct)
  case (edit_tick now now' d ps)
  then show ?case by (auto simp: edits_ok_def intro: lost_later)
next
  case (edit_claim t i data deadline now d c d' ps)
  then show ?case by (blast intro: claim_edits_ok)
next
  case (edit_release c data ps now d u d')
  note row = release_row [OF edit_release(2)]
  have "claim_ok c" using edits_okD(4) [OF edit_release(3,1)] by simp
  moreover from release_ok [OF edits_okD(1) [OF edit_release(3)] this edit_release(2)] have "db_ok d'" .
  ultimately show ?case using edit_release(1,3)
  proof (intro edits_ok_let_go)
    show "\<exists>a'. find_automation d' (bc_automation_id (fst (c, data))) = Some a' \<and> (a' = a \<or> locked_by (fst (c, data)) a
        \<and> (a_build_state a' = BUILDING \<longrightarrow> a_build_lock_deadline a' = Some (bc_deadline (fst (c, data)))))"
      if "find_automation d (bc_automation_id (fst (c, data))) = Some a" "claim_ok c" for a
      using that by (cases "locked_by c a") (auto simp: row claim_ok_def)
  qed (auto simp: row option.map_ident)
next
  case (edit_finish c data ps env t actor sha now d a' d')
  have "db_ok d'" using finish_ok edit_finish(2,3) edits_okD(1) [OF edit_finish(4)] by blast
  with edit_finish(1,4) show ?case
  proof (intro edits_ok_let_go)
    show "find_automation d' i = find_automation d i" if "i \<noteq> bc_automation_id (fst (c, data))" for i
      using edit_finish(3) that by (elim finish_edit_tx_InrD) (auto simp: table_simps dest: scoped_get_InrD(1))
    show "\<exists>a'. find_automation d' (bc_automation_id (fst (c, data))) = Some a' \<and> (a' = b \<or> locked_by (fst (c, data)) b
        \<and> (a_build_state a' = BUILDING \<longrightarrow> a_build_lock_deadline a' = Some (bc_deadline (fst (c, data)))))"
      if "find_automation d (bc_automation_id (fst (c, data))) = Some b" for b
      using edit_finish(3) that db_ok_scoped(3) [OF edits_okD(1) [OF edit_finish(4)]]
      by (elim finish_edit_tx_InrD) (fastforce simp: table_simps locked_by_def dest: scoped_get_InrD(1))
  qed
next
  case (edit_abandon p ps now d)
  then show ?case by (intro edits_ok_let_go) (auto dest: edits_okD(1))
next
  case (edit_reconcile now d d' ps)
  note ok = edits_okD [OF edit_reconcile(2)]
  have "holds d' p \<or> lost now d' p" if "p \<in> set ps" for p
    using edit_reconcile(1)
  proof cases
    case (reconcile_release i a deadline s)
    then show ?thesis
      using ok(3,4) [OF that] atab.get_key [OF reconcile_release(2)]
      by (cases "bc_automation_id (fst p) = i") (auto simp: holds_def lost_def locked_by_def table_simps)
  qed
  with ok reconcile_ok [OF edit_reconcile(1)] show ?case by (simp add: edits_ok_def)
next
  case (edit_other d d' now ps)
  note ok = edits_okD [OF edit_other(2)]
  from other_step_rows [OF edit_other(1) ok(1)] service_step_ok [OF other_step_service [OF edit_other(1)] ok(1)]
    ok(2,3) show ?case by (auto simp: edits_ok_def intro: holds_kept lost_kept)
qed

lemma edits_ok_start: "db_ok d \<Longrightarrow> edits_ok (now, d, [])"
  by (simp add: edits_ok_def)

lemma edit_steps_ok: "edit_step\<^sup>*\<^sup>* s s' \<Longrightarrow> edits_ok s \<Longrightarrow> edits_ok s'"
  by (induction rule: rtranclp_induct) (auto intro: edit_step_ok)

section \<open>Properties\<close>

definition protects :: "build_claim \<Rightarrow> automation_in \<Rightarrow> automation \<Rightarrow> database \<Rightarrow> bool" where
  "protects c data row d \<longleftrightarrow>
     (\<forall>data' deadline now.
        claim_build_tx (a_tenant_id row) (a_id row) data' deadline now d = Inl AutomationBuildingError)
   \<and> (\<forall>actor now. begin_delete_tx (a_tenant_id row) (a_id row) actor now d = Inl AutomationBuildingError)
   \<and> (\<forall>actor sha now. \<exists>a d'.
        finish_edit_tx (a_tenant_id row) (a_id row) data actor c sha now d = Inr (a, d')
        \<and> a_building_sha a = Some sha)"

definition fenced_off :: "build_claim \<Rightarrow> automation \<Rightarrow> database \<Rightarrow> bool" where
  "fenced_off c row d \<longleftrightarrow>
     (\<forall>data actor sha now.
        finish_edit_tx (a_tenant_id row) (a_id row) data actor c sha now d = Inl AutomationEditSupersededError)
   \<and> (\<forall>now. release_build_claim_tx c now d = Inr ((), d))"

lemma scoped_get_own:
  assumes "db_ok d" and "find_automation d i = Some a"
  shows "scoped_get (a_tenant_id a) (a_id a) d = Inr a" and "a_id a = i"
  using assms scoped_get_find [OF db_okD(1) [OF assms(1)]] atab.get_key [OF assms(2)] by simp_all

lemma holds_protects:
  assumes "db_ok d" and "holds d (c, data)"
  obtains row where "find_automation d (bc_automation_id c) = Some row" and "locked_by c row" and "protects c data row d"
proof -
  from assms(2) obtain a where a: "find_automation d (bc_automation_id c) = Some a" "locked_by c a"
    by (auto simp: holds_def)
  have "a_matching_state a \<notin> set DELETION_STATES"
    using db_okD(3) [OF assms(1) atab.get_in_rows [OF a(1)]] a(2) by (auto simp: row_ok_def build_ok_def locked_by_def)
  then have "protects c data a d"
    using scoped_get_own [OF assms(1) a(1)] a(2)
    by (simp add: protects_def claim_build_tx_def begin_delete_tx_def finish_edit_tx_def locked_by_def Let_def)
  with a show ?thesis by (rule that)
qed

lemma lost_fenced_off:
  assumes "db_ok d" and "lost now d (c, data)"
  obtains row where "find_automation d (bc_automation_id c) = Some row" and "\<not> locked_by c row" and "fenced_off c row d"
proof -
  from assms(2) obtain a where a: "find_automation d (bc_automation_id c) = Some a" "\<not> locked_by c a"
    by (auto simp: lost_def)
  have "r = a" if "r \<in> set (automations d)" "a_id r = bc_automation_id c" for r
    using atab.get_of_row [OF db_okD(1) [OF assms(1)] that(1)] that(2) a(1) by simp
  then have "update_where (\<lambda>r. a_id r = bc_automation_id c \<and> locked_by c r) f (automations d) = automations d" for f
    using a(2) by (auto simp: update_where_def intro!: map_idI)
  then have "fenced_off c a d"
    using scoped_get_own [OF assms(1) a(1)] a(2)
    by (auto simp: fenced_off_def finish_edit_tx_def release_build_claim_tx_def update_automations_def locked_by_def Let_def)
  with a show ?thesis by (rule that)
qed

text \<open>C23. Edits exclude each other, whatever the reconciler does: in every interleaving of the
  transactions of the service and of releases of expired build locks that starts with no edit
  under way, every edit under way either holds the lock of its automation or has lost it. While it
  holds it, no other edit under way does, no other edit can claim the automation and no delete can
  begin (both are told it is building), and the edit itself can always finish. Once it has lost it,
  also to a newer edit of the same automation, it can neither write its definition (it is told
  that it was superseded) nor release the lock.\<close>

theorem edits_exclude_each_other:
  assumes "db_ok d" and "edit_step\<^sup>*\<^sup>* (now, d, []) (now', d', ps)"
  shows "(\<forall>(c, data) \<in> set ps. \<exists>row. find_automation d' (bc_automation_id c) = Some row
       \<and> (if locked_by c row then protects c data row d' else fenced_off c row d'))
    \<and> distinct (map token ps)
    \<and> (\<forall>p \<in> set ps. \<forall>q \<in> set ps. \<forall>row. find_automation d' (bc_automation_id (fst p)) = Some row
       \<longrightarrow> bc_automation_id (fst q) = bc_automation_id (fst p)
       \<longrightarrow> locked_by (fst p) row \<longrightarrow> locked_by (fst q) row \<longrightarrow> p = q)"
proof (intro conjI ballI allI impI)
  from assms have ok: "edits_ok (now', d', ps)" using edit_steps_ok edits_ok_start by blast
  note facts = edits_okD [OF ok]
  show "distinct (map token ps)" by (rule facts(2))
  show "p = q" if "p \<in> set ps" "q \<in> set ps" "bc_automation_id (fst q) = bc_automation_id (fst p)"
      "locked_by (fst p) row" "locked_by (fst q) row" for p q row
    using that facts(2) by (auto simp: distinct_map inj_on_def token_def locked_by_def)
  show "case p of (c, data) \<Rightarrow> \<exists>row. find_automation d' (bc_automation_id c) = Some row
       \<and> (if locked_by c row then protects c data row d' else fenced_off c row d')" if p: "p \<in> set ps" for p
  proof (cases p)
    case (Pair c data)
    with facts(3) [OF p] consider "holds d' (c, data)" | "lost now' d' (c, data)" by blast
    then show ?thesis
      by cases (auto simp: Pair elim: holds_protects [OF facts(1)] lost_fenced_off [OF facts(1)])
  qed
qed

text \<open>The sample automation, idle and deployed, with an edit of it under way.\<close>

definition sample_claim :: build_claim where
  "sample_claim = \<lparr>bc_automation_id = sample_id, bc_script_path = script_path_of sample_id,
     bc_deadline = 9, bc_previous_build_state = IDLE, bc_previous_building_sha = None\<rparr>"

lemma sample_edit_claim:
  "edit_step\<^sup>*\<^sup>* (5, sample_db (sample_row ACTIVE IDLE None None (Some dep)), [])
     (5, sample_db (sample_row ACTIVE BUILDING None None (Some dep)), [(sample_claim, sample_data)])"
proof (intro r_into_rtranclp edit_claim)
  show "claim_build_tx (str ''acme'') sample_id sample_data 9 5
      (sample_db (sample_row ACTIVE IDLE None None (Some dep)))
    = Inr (sample_claim, sample_db (sample_row ACTIVE BUILDING None None (Some dep)))"
    by (simp add: claim_build_tx_def scoped_get_def check_wallet_unchanged_def sample_claim_def
        put_automation_def update_automations_def update_where_def)
      (simp add: sample_row_def sample_data_def sample_db_def)
qed simp

lemma sample_idle_ok: "db_ok (sample_db (sample_row ACTIVE IDLE None None dep))"
  by (rule sample_db_ok) simp_all

text \<open>The edit holds its claim; past the deadline the reconciler takes it away.\<close>

theorem edits_exclude_each_other_witness:
  "(\<exists>row. find_automation (sample_db (sample_row ACTIVE BUILDING None None (Some (str ''d'')))) sample_id = Some row
     \<and> protects sample_claim sample_data row (sample_db (sample_row ACTIVE BUILDING None None (Some (str ''d'')))))
   \<and> (\<exists>row. find_automation (sample_db (sample_row ACTIVE BUILD_FAILED None None (Some (str ''d'')))) sample_id = Some row
     \<and> fenced_off sample_claim row (sample_db (sample_row ACTIVE BUILD_FAILED None None (Some (str ''d'')))))"
proof -
  let ?db = "\<lambda>b. sample_db (sample_row ACTIVE b None None (Some (str ''d'')))"
  have find: "find_automation (?db b) sample_id = Some (sample_row ACTIVE b None None (Some (str ''d'')))" for b
    by (simp add: find_automation_def)
  have "reconcile_step 9 (?db BUILDING) (put_automation ((sample_row ACTIVE BUILDING None None (Some (str ''d'')))
      \<lparr>a_build_state := BUILD_FAILED, a_building_sha := None, a_build_lock_deadline := None\<rparr>) (?db BUILDING))"
    by (rule reconcile_release [OF find, where deadline = 9]) (simp_all add: sample_row_def)
  then have "reconcile_step 9 (?db BUILDING) (?db BUILD_FAILED)"
    by (simp add: put_automation_def update_automations_def update_where_def) (simp add: sample_row_def sample_db_def)
  then have "edit_step (9, ?db BUILDING, [(sample_claim, sample_data)]) (9, ?db BUILD_FAILED, [(sample_claim, sample_data)])"
    by (rule edit_reconcile)
  moreover have "edit_step (5, ?db BUILDING, [(sample_claim, sample_data)]) (9, ?db BUILDING, [(sample_claim, sample_data)])"
    by (rule edit_tick) simp
  ultimately have "edit_step\<^sup>*\<^sup>* (5, ?db IDLE, []) (9, ?db BUILD_FAILED, [(sample_claim, sample_data)])"
    using sample_edit_claim [of "str ''d''"] by (meson rtranclp.rtrancl_into_rtrancl)
  from edits_exclude_each_other [OF sample_idle_ok this]
    edits_exclude_each_other [OF sample_idle_ok sample_edit_claim [of "str ''d''"]]
  show ?thesis
    by (simp add: sample_claim_def find) (simp add: locked_by_def sample_row_def)
qed

lemma edit_step_wallets:
  assumes "edit_step s s'" and "edits_ok s"
  shows "rows_rel wallet_kept (fst (snd s)) (fst (snd s'))"
  using assms
proof (induction rule: edit_step.induct)
  case (edit_tick now now' d ps)
  show ?case by (auto simp: rows_rel_def)
next
  case (edit_claim t i data deadline now d c d' ps)
  then have "db_ok d" by (simp add: edits_ok_def)
  from edit_claim(1) show ?case
    by (rule claim_build_tx_InrD)
      (simp, erule rows_rel_scoped [OF wallet_kept_refl \<open>db_ok d\<close>], simp_all add: wallet_kept_def)
next
  case (edit_release c data ps now d u d')
  then show ?case
    by (auto simp: release_build_claim_tx_def wallet_kept_def intro!: rows_rel_update)
next
  case (edit_finish c data ps env t actor sha now d a' d')
  then have ok: "db_ok d" and standing: "holds d (c, data) \<or> lost now d (c, data)" by (auto simp: edits_ok_def)
  from edit_finish(3) show ?case
  proof (rule finish_edit_tx_InrD)
    fix a
    assume a: "scoped_get t (bc_automation_id c) d = Inr a" "a_build_state a = BUILDING"
        "a_build_lock_deadline a = Some (bc_deadline c)"
    then have "a_capp_deployment_id a = None \<or> a_namespace a = in_namespace data"
      using db_ok_scoped(3) [OF ok a(1)] standing by (auto simp: holds_def lost_def locked_by_def)
    moreover assume "a' = a\<lparr>a_name := in_name data, a_namespace := in_namespace data,
                a_triggers := in_triggers data, a_secret_name := in_secret_name data,
                a_cooldown_seconds := in_cooldown_seconds data,
                a_cooldown_fields := in_cooldown_fields data,
                a_timeout_seconds := Some (or_default (in_timeout_seconds data) TIMEOUT_SECONDS_DEFAULT),
                a_grace_seconds := or_default (in_grace_seconds data) GRACE_SECONDS_DEFAULT,
                a_logstash_url := in_logstash_url data, a_building_sha := Some sha,
                a_updated_by := actor, a_updated_at := now\<rparr>"
      and "d' = add_revision
           \<lparr>rv_automation_id = bc_automation_id c, rv_action = EDIT, rv_git_sha = Some sha,
            rv_resulting_digest = None, rv_actor = actor, rv_created_at = now\<rparr>
           (put_automation a' d)"
    ultimately show ?thesis
      using rows_rel_scoped [of wallet_kept d _ _ a a', OF wallet_kept_refl ok a(1)]
      by (auto simp: wallet_kept_def [of a])
  qed
next
  case (edit_abandon p ps now d)
  show ?case by (auto simp: rows_rel_def)
next
  case (edit_reconcile now d d' ps)
  from edit_reconcile(1) show ?case
  proof cases
    case (reconcile_release i a deadline s)
    then show ?thesis using atab.get_key [of d i a] by (auto simp: wallet_kept_def intro!: rows_rel_put [where a = a])
  qed
next
  case (edit_other d d' now ps)
  then have "db_ok d" by (simp add: edits_ok_def)
  from other_step_rows [OF edit_other(1) this] show ?case
    by (simp, elim rows_rel_mono) (simp add: row_kept_def)
qed

text \<open>C24. A deployed automation never moves to another wallet: in every interleaving of edits, the
  other transactions and the reconciler, a row with a CAPP deployment keeps its namespace and stays
  deployed. The check is made when an edit claims the build; nothing that runs between the
  claim and the write that ends the edit can deploy the automation.\<close>

theorem deployed_wallet_is_fixed:
  assumes "db_ok d" and "edit_step\<^sup>*\<^sup>* (now, d, []) (now1, d1, ps)"
    and "edit_step\<^sup>*\<^sup>* (now1, d1, ps) (now2, d2, qs)"
    and "find_automation d1 i = Some a" and "a_capp_deployment_id a \<noteq> None"
  shows "\<exists>a'. find_automation d2 i = Some a' \<and> a_namespace a' = a_namespace a
    \<and> a_capp_deployment_id a' \<noteq> None"
proof -
  from assms(1,2) have ok: "edits_ok (now1, d1, ps)" using edit_steps_ok edits_ok_start by blast
  have "\<exists>a'. find_automation (fst (snd s)) i = Some a' \<and> wallet_kept a a'" if "edit_step\<^sup>*\<^sup>* (now1, d1, ps) s" for s
    using that
  proof (induction rule: rtranclp_induct)
    case base
    with assms(4) show ?case by simp
  next
    case (step s1 s2)
    from step.IH obtain b where b: "find_automation (fst (snd s1)) i = Some b" "wallet_kept a b" by blast
    from edit_step_wallets [OF step.hyps(2) edit_steps_ok [OF step.hyps(1) ok]] b(1)
    obtain c where "find_automation (fst (snd s2)) i = Some c" "wallet_kept b c" by (rule rows_relD)
    with b(2) show ?case by (blast intro: wallet_kept_trans)
  qed
  from this [OF assms(3)] assms(5) show ?thesis by (auto simp: wallet_kept_def)
qed

theorem deployed_wallet_is_fixed_witness:
  "\<exists>a'. find_automation (sample_db (sample_row ACTIVE BUILDING None None (Some (str ''d'')))) sample_id = Some a'
     \<and> a_namespace a' = str ''wallet'' \<and> a_capp_deployment_id a' \<noteq> None"
  using deployed_wallet_is_fixed [OF sample_idle_ok rtranclp.rtrancl_refl
      sample_edit_claim [of "str ''d''"],
      of sample_id "sample_row ACTIVE IDLE None None (Some (str ''d''))"]
  by (simp add: find_automation_def)

end
