(* ===== verification/Accounting.thy ===== *)
theory Accounting
  imports Claims Builds_Correct
begin

text \<open>
  How often a requested build takes effect. CI may deliver a result several times, its deliveries
  may overlap, and a success may arrive after the failure that raced it; still the audit trail
  records no more cutovers of a commit than creates and edits that requested it, one more at most
  for every edit of the automation whose expired claim the reconciler turned into a failed build:
  \<open>_failure_raced\<close> cannot tell that failure from the build's own. The machine is \<open>edit_step\<close> of
  \<open>Claims\<close>, reconciler included; \<open>build_path\<close> counts those expiries along a path of it. The proof
  keeps one account per automation and commit: a request opens it, a failure leaves it open (the
  success may still come), a cutover closes it, an expiry grants one more cutover.

  Of the clock it is assumed that the requests of one automation carry strictly increasing time
  stamps (\<open>requests_in_order\<close>), since \<open>_failure_raced\<close> finds the newest request by its stamp.
\<close>

section \<open>The newest request\<close>

definition requests :: "uuid \<Rightarrow> automation_revision list \<Rightarrow> automation_revision list" where
  "requests i rs = filter (\<lambda>r. rv_automation_id r = i \<and> rv_action r \<in> set REQUESTING_ACTIONS) rs"

definition newest :: "uuid \<Rightarrow> automation_revision list \<Rightarrow> pystr option" where
  "newest i rs = (case sort_key (\<lambda>r. - rv_created_at r) (requests i rs) of [] \<Rightarrow> None | r # _ \<Rightarrow> rv_git_sha r)"

lemma latest_newest: "latest_requested_sha i d = newest i (revisions d)"
  by (simp add: latest_requested_sha_def newest_def requests_def)

lemma sort_key_snoc_least: "\<forall>x \<in> set xs. f r < f x \<Longrightarrow> sort_key f (xs @ [r]) = r # sort_key f xs"
  by (induction xs) auto

lemma newest_request:
  assumes "rv_automation_id r = i" and "rv_action r \<in> set REQUESTING_ACTIONS"
    and "\<forall>q \<in> set (requests i rs). rv_created_at q < rv_created_at r"
  shows "newest i (rs @ [r]) = rv_git_sha r"
  using assms sort_key_snoc_least [of "requests i rs" "\<lambda>r. - rv_created_at r" r]
  by (simp add: newest_def requests_def)

lemma newest_other:
  "rv_automation_id r \<noteq> i \<or> rv_action r \<notin> set REQUESTING_ACTIONS \<Longrightarrow> newest i (rs @ [r]) = newest i rs"
  by (auto simp: newest_def requests_def)

text \<open>Writing the digest into the requests moves no request.\<close>

definition same_events :: "automation_revision list \<Rightarrow> automation_revision list \<Rightarrow> bool" where
  "same_events rs rs' \<longleftrightarrow>
     map (\<lambda>r. (rv_automation_id r, rv_action r, rv_git_sha r, rv_created_at r)) rs
   = map (\<lambda>r. (rv_automation_id r, rv_action r, rv_git_sha r, rv_created_at r)) rs'"

lemma same_events_update:
  "same_events (update_where p (\<lambda>r. r\<lparr>rv_resulting_digest := x\<rparr>) rs) rs"
  by (simp add: same_events_def update_where_def)

lemma same_events_newest:
  assumes "same_events rs rs'"
  shows "newest i rs = newest i rs'"
proof -
  let ?v = "\<lambda>r. (rv_automation_id r, rv_action r, rv_git_sha r, rv_created_at r)"
  have filt: "map ?v (requests i xs) = filter (\<lambda>(j, a, _). j = i \<and> a \<in> set REQUESTING_ACTIONS) (map ?v xs)" for xs
    by (simp add: requests_def filter_map o_def)
  have ins: "map ?v (insort_key (\<lambda>r. - rv_created_at r) x xs) = insort_key (\<lambda>(_, _, _, t). - t) (?v x) (map ?v xs)" for x xs
    by (induction xs) auto
  have srt: "map ?v (sort_key (\<lambda>r. - rv_created_at r) xs) = sort_key (\<lambda>(_, _, _, t). - t) (map ?v xs)" for xs
    by (induction xs) (simp_all add: ins)
  have hd: "(case xs of [] \<Rightarrow> None | r # _ \<Rightarrow> rv_git_sha r) = (case map ?v xs of [] \<Rightarrow> None | (_, _, s, _) # _ \<Rightarrow> s)" for xs
    by (cases xs) auto
  from assms show ?thesis
    by (simp add: newest_def hd srt filt same_events_def)
qed

section \<open>Accounts\<close>

definition events :: "revision_action set \<Rightarrow> uuid \<Rightarrow> pystr \<Rightarrow> automation_revision list \<Rightarrow> nat" where
  "events acts i sha rs =
     length (filter (\<lambda>r. rv_action r \<in> acts \<and> rv_automation_id r = i \<and> rv_git_sha r = Some sha) rs)"

abbreviation requested_builds :: "uuid \<Rightarrow> pystr \<Rightarrow> database \<Rightarrow> nat" where
  "requested_builds i sha d \<equiv> events (set REQUESTING_ACTIONS) i sha (revisions d)"

abbreviation successes :: "uuid \<Rightarrow> pystr \<Rightarrow> database \<Rightarrow> nat" where
  "successes i sha d \<equiv> events {BUILD_SUCCEEDED} i sha (revisions d)"

abbreviation failures :: "uuid \<Rightarrow> pystr \<Rightarrow> database \<Rightarrow> nat" where
  "failures i sha d \<equiv> events {REV_BUILD_FAILED} i sha (revisions d)"

lemma events_append [simp]: "events acts i sha (rs @ rs') = events acts i sha rs + events acts i sha rs'"
  by (simp add: events_def)

lemma events_single [simp]:
  "events acts i sha [r] = (if rv_action r \<in> acts \<and> rv_automation_id r = i \<and> rv_git_sha r = Some sha then 1 else 0)"
  by (simp add: events_def)

lemma same_events_count: "same_events rs rs' \<Longrightarrow> events acts i sha rs = events acts i sha rs'"
proof -
  let ?v = "\<lambda>r. (rv_automation_id r, rv_action r, rv_git_sha r, rv_created_at r)"
  have "events acts i sha xs = length (filter (\<lambda>(j, a, s, _). a \<in> acts \<and> j = i \<and> s = Some sha) (map ?v xs))" for xs
    by (simp add: events_def filter_map o_def)
  moreover assume "same_events rs rs'"
  ultimately show ?thesis by (simp only: same_events_def)
qed

text \<open>What concerns one automation: its row and its audit rows.\<close>

definition trail :: "uuid \<Rightarrow> automation_revision list \<Rightarrow> automation_revision list" where
  "trail i rs = filter (\<lambda>r. rv_automation_id r = i) rs"

lemma newest_trail [simp]: "newest i (trail i rs) = newest i rs"
  by (simp add: newest_def requests_def trail_def conj_commute conj_left_commute)

lemma requests_trail [simp]: "requests i (trail i rs) = requests i rs"
  by (simp add: requests_def trail_def conj_commute conj_left_commute)

lemma events_trail [simp]: "events acts i sha (trail i rs) = events acts i sha rs"
  by (simp add: events_def trail_def conj_commute conj_left_commute)

lemma trail_append [simp]: "trail i (rs @ rs') = trail i rs @ trail i rs'"
  by (simp add: trail_def)

lemma trail_update:
  "trail i (update_where p (\<lambda>r. r\<lparr>rv_resulting_digest := x\<rparr>) rs)
   = update_where p (\<lambda>r. r\<lparr>rv_resulting_digest := x\<rparr>) (trail i rs)"
  by (induction rs) (auto simp: trail_def update_where_def)

lemma same_events_refl [simp]: "same_events rs rs"
  by (simp add: same_events_def)

text \<open>An edit holds the automation that was \<open>build_failed\<close> before it, and may give it back.\<close>

definition failed_before :: "automation \<Rightarrow> pending list \<Rightarrow> bool" where
  "failed_before a ps \<longleftrightarrow> (\<exists>p \<in> set ps. bc_automation_id (fst p) = a_id a \<and> locked_by (fst p) a
     \<and> bc_previous_build_state (fst p) = BUILD_FAILED)"

text \<open>A success for the commit may still be recorded: the row is building it, or its failure was
  recorded and no newer request replaced it, even if an edit is under way that may yet be undone.\<close>

definition open_for :: "automation \<Rightarrow> automation_revision list \<Rightarrow> pending list \<Rightarrow> pystr \<Rightarrow> bool" where
  "open_for a rs ps sha \<longleftrightarrow>
     a_build_state a = BUILDING \<and> a_building_sha a = Some sha
   \<or> a_build_state a = BUILD_FAILED \<and> newest (a_id a) rs = Some sha
   \<or> claimed a \<and> newest (a_id a) rs = Some sha \<and> failed_before a ps"

text \<open>\<open>n\<close> is the number of cutovers the expiries so far have granted.\<close>

definition balanced :: "nat \<Rightarrow> automation \<Rightarrow> automation_revision list \<Rightarrow> pending list \<Rightarrow> bool" where
  "balanced n a rs ps \<longleftrightarrow> (\<forall>sha. let
       requested = events {CREATE, EDIT} (a_id a) sha rs;
       succeeded = events {BUILD_SUCCEEDED} (a_id a) sha rs;
       failed = events {REV_BUILD_FAILED} (a_id a) sha rs
     in succeeded \<le> requested + n \<and> failed \<le> requested
      \<and> (open_for a rs ps sha \<longrightarrow> succeeded < requested + n)
      \<and> (a_build_state a = BUILDING \<and> a_building_sha a = Some sha \<longrightarrow>
           failed < requested \<and> newest (a_id a) rs = Some sha))"

definition account :: "nat \<Rightarrow> automation option \<Rightarrow> automation_revision list \<Rightarrow> pending list \<Rightarrow> bool" where
  "account n r rs ps = (case r of None \<Rightarrow> rs = [] | Some a \<Rightarrow> balanced n a rs ps)"

lemma accountD:
  assumes "account n (Some a) rs ps"
  shows "events {BUILD_SUCCEEDED} (a_id a) sha rs \<le> events {CREATE, EDIT} (a_id a) sha rs + n"
    and "events {REV_BUILD_FAILED} (a_id a) sha rs \<le> events {CREATE, EDIT} (a_id a) sha rs"
    and "open_for a rs ps sha \<Longrightarrow> events {BUILD_SUCCEEDED} (a_id a) sha rs < events {CREATE, EDIT} (a_id a) sha rs + n"
    and "a_build_state a = BUILDING \<Longrightarrow> a_building_sha a = Some sha \<Longrightarrow>
      events {REV_BUILD_FAILED} (a_id a) sha rs < events {CREATE, EDIT} (a_id a) sha rs
      \<and> newest (a_id a) rs = Some sha"
  using assms by (simp_all add: account_def balanced_def Let_def)

lemma accountI:
  assumes "\<And>sha. events {BUILD_SUCCEEDED} (a_id a) sha rs \<le> events {CREATE, EDIT} (a_id a) sha rs + n"
    and "\<And>sha. events {REV_BUILD_FAILED} (a_id a) sha rs \<le> events {CREATE, EDIT} (a_id a) sha rs"
    and "\<And>sha. open_for a rs ps sha \<Longrightarrow> events {BUILD_SUCCEEDED} (a_id a) sha rs < events {CREATE, EDIT} (a_id a) sha rs + n"
    and "\<And>sha. a_build_state a = BUILDING \<Longrightarrow> a_building_sha a = Some sha \<Longrightarrow>
      events {REV_BUILD_FAILED} (a_id a) sha rs < events {CREATE, EDIT} (a_id a) sha rs
      \<and> newest (a_id a) rs = Some sha"
  shows "account n (Some a) rs ps"
  using assms by (simp add: account_def balanced_def Let_def)

lemma account_weaken:
  assumes "account n r rs ps" and "n \<le> n'"
    and "\<And>a p. r = Some a \<Longrightarrow> p \<in> set ps' \<Longrightarrow> bc_automation_id (fst p) = a_id a \<Longrightarrow> p \<in> set ps"
  shows "account n' r rs ps'"
proof (cases r)
  case (Some a)
  have "open_for a rs ps' sha \<Longrightarrow> open_for a rs ps sha" for sha
    using assms(3) [OF Some] by (auto simp: open_for_def failed_before_def)
  with Some assms(2) accountD [OF assms(1) [unfolded Some]] show ?thesis
    unfolding Some by (intro accountI) (meson add_left_mono le_trans less_le_trans)+
qed (use assms(1) in \<open>simp add: account_def\<close>)

lemma account_events: "same_events rs rs' \<Longrightarrow> account n r rs ps \<longleftrightarrow> account n r rs' ps"
  using same_events_newest [of rs rs'] same_events_count [of rs rs']
  by (simp add: account_def balanced_def open_for_def split: option.splits) (auto simp: same_events_def)

section \<open>What each transaction does to the account of its automation\<close>

lemma account_same:
  assumes "account n (Some a) rs ps" and "a_id a' = a_id a" and "a_build_state a' = a_build_state a"
    and "a_building_sha a' = a_building_sha a" and "a_build_lock_deadline a' = a_build_lock_deadline a"
    and "set rs' \<inter> {r. rv_action r \<in> {CREATE, EDIT, BUILD_SUCCEEDED, REV_BUILD_FAILED}} = {}"
  shows "account n (Some a') (rs @ rs') ps"
proof -
  have "requests i rs' = []" for i using assms(6) by (auto simp: requests_def filter_empty_conv REQUESTING_ACTIONS_def)
  then have new: "newest i (rs @ rs') = newest i rs" for i by (simp add: newest_def requests_def)
  have "events acts i sha rs' = 0" if "acts \<subseteq> {CREATE, EDIT, BUILD_SUCCEEDED, REV_BUILD_FAILED}" for acts i sha
    using assms(6) that by (auto simp: events_def filter_empty_conv)
  then have "events {BUILD_SUCCEEDED} i sha rs' = 0" "events {REV_BUILD_FAILED} i sha rs' = 0"
    "events {CREATE, EDIT} i sha rs' = 0" for i sha by simp_all
  with assms(1-5) new show ?thesis
    by (simp add: account_def balanced_def open_for_def failed_before_def claimed_def locked_by_def)
qed

lemma account_create:
  assumes "a_id a = i" and "a_build_state a = BUILDING" and "a_building_sha a = Some sha"
    and "rv_automation_id r = i" and "rv_action r = CREATE" and "rv_git_sha r = Some sha"
  shows "account n (Some a) [r] ps"
  using assms newest_request [of r i "[]"]
  by (intro accountI) (auto simp: requests_def open_for_def claimed_def REQUESTING_ACTIONS_def)

text \<open>The new claim is the only one that holds the row (\<open>alone\<close>).\<close>

lemma account_claim:
  assumes "account n (Some a) rs ps" and "a_build_state a \<noteq> BUILDING"
    and "a' = a\<lparr>a_build_state := BUILDING, a_build_lock_deadline := Some deadline, a_building_sha := None\<rparr>"
    and "bc_previous_build_state c = a_build_state a"
    and alone: "\<And>p. p \<in> set ps' \<Longrightarrow> bc_automation_id (fst p) = a_id a \<Longrightarrow> locked_by (fst p) a' \<Longrightarrow> fst p = c"
  shows "account n (Some a') rs ps'"
proof -
  have "a_build_state a = BUILD_FAILED" if "failed_before a' ps'"
    using that alone assms(3,4) by (fastforce simp: failed_before_def)
  with assms(2,3) have "open_for a' rs ps' sha \<Longrightarrow> open_for a rs ps sha" for sha
    by (auto simp: open_for_def claimed_def)
  with accountD [OF assms(1)] assms(3) show ?thesis by (intro accountI) auto
qed

text \<open>An edit gives its claim back.\<close>

lemma account_release:
  assumes "account n (Some a) rs ps" and "p \<in> set ps" and "bc_automation_id (fst p) = a_id a"
    and "locked_by (fst p) a" and "a_building_sha a = None" and "claim_ok (fst p)"
  shows "account n (Some (a\<lparr>a_build_state := bc_previous_build_state (fst p),
    a_building_sha := bc_previous_building_sha (fst p), a_build_lock_deadline := None\<rparr>)) rs ps'"
proof -
  have "claimed a" "bc_previous_build_state (fst p) = BUILD_FAILED \<Longrightarrow> failed_before a ps"
    using assms(2-5) by (auto simp: claimed_def locked_by_def failed_before_def)
  then show ?thesis
    using accountD [OF assms(1)] assms(6)
    by (intro accountI) (auto simp: claim_ok_def open_for_def claimed_def)
qed

lemma account_finish:
  assumes "account n (Some a) rs ps" and "a_id a' = a_id a"
    and "a_build_state a' = BUILDING" and "a_building_sha a' = Some sha"
    and "rv_automation_id r = a_id a" and "rv_action r = EDIT" and "rv_git_sha r = Some sha"
    and "\<forall>q \<in> set (requests (a_id a) rs). rv_created_at q < rv_created_at r"
  shows "account n (Some a') (rs @ [r]) ps'"
proof -
  have "newest (a_id a) (rs @ [r]) = Some sha"
    using newest_request [of r "a_id a" rs] assms(5-8) by (simp add: REQUESTING_ACTIONS_def)
  then show ?thesis
    using accountD(1,2) [OF assms(1)] assms(2-7)
    by (intro accountI) (auto simp: open_for_def claimed_def trans_le_add1 less_Suc_eq_le le_Suc_eq)
qed

lemma account_failure:
  assumes "account n (Some a) rs ps" and "a_build_state a = BUILDING" and "a_building_sha a = Some sha"
    and "a_id a' = a_id a" and "a_build_state a' = BUILD_FAILED"
    and "rv_automation_id r = a_id a" and "rv_action r = REV_BUILD_FAILED" and "rv_git_sha r = Some sha"
  shows "account n (Some a') (rs @ [r]) ps'"
proof -
  have "newest (a_id a) (rs @ [r]) = Some sha"
    using newest_other [of r "a_id a" rs] accountD(4) [OF assms(1-3)] assms(7) by (simp add: REQUESTING_ACTIONS_def)
  moreover have "open_for a rs ps sha" using assms(2,3) by (simp add: open_for_def)
  ultimately show ?thesis
    using accountD [OF assms(1)] assms(2-8) by (auto intro!: accountI simp: open_for_def claimed_def Suc_le_eq)
qed

lemma account_cut_over:
  assumes "account n (Some a) rs ps"
    and "a_build_state a = BUILDING \<and> a_building_sha a = Some sha \<or> a_build_state a = BUILD_FAILED \<and> newest (a_id a) rs = Some sha"
    and "a_id a' = a_id a" and "a_build_state a' = IDLE"
    and "rv_automation_id r = a_id a" and "rv_action r = BUILD_SUCCEEDED" and "rv_git_sha r = Some sha"
    and "same_events rs' rs"
  shows "account n (Some a') (rs' @ [r]) ps'"
proof -
  have "open_for a rs ps sha" using assms(2) by (auto simp: open_for_def)
  then show ?thesis
    using accountD [OF assms(1)] assms(3-7) same_events_count [OF assms(8)]
    by (auto intro!: accountI simp: open_for_def claimed_def Suc_le_eq)
qed

text \<open>The reconciler: an expired build leaves the account as it is, an expired edit that becomes a
  failed build grants one more cutover.\<close>

lemma account_expire:
  assumes "account n (Some a) rs ps" and "a_build_state a = BUILDING" and "s \<noteq> BUILDING"
    and "claimed a \<and> s = BUILD_FAILED \<Longrightarrow> n < n'" and "n \<le> n'"
  shows "account n' (Some (a\<lparr>a_build_state := s, a_building_sha := None, a_build_lock_deadline := None\<rparr>)) rs ps"
proof -
  let ?a = "a\<lparr>a_build_state := s, a_building_sha := None, a_build_lock_deadline := None\<rparr>"
  have "events {BUILD_SUCCEEDED} (a_id a) sha rs < events {CREATE, EDIT} (a_id a) sha rs + n'"
    if "open_for ?a rs ps sha" for sha
  proof (cases "a_building_sha a")
    case None
    with that assms(2,3) have "n < n'" by (intro assms(4)) (auto simp: open_for_def claimed_def)
    with accountD(1) [OF assms(1), of sha] show ?thesis by linarith
  next
    case (Some x)
    with that assms(3) accountD(4) [OF assms(1,2) Some] have "open_for a rs ps sha"
      using assms(2) by (auto simp: open_for_def claimed_def)
    with accountD(3) [OF assms(1) this] assms(5) show ?thesis by linarith
  qed
  with accountD(1,2) [OF assms(1)] assms(3,5) show ?thesis
    by (intro accountI) (auto intro: order_trans [OF _ add_left_mono])
qed


section \<open>Paths of the machine\<close>

text \<open>A step at which an edit's claim on the automation turns into a failed build, although no edit
  gave its claim back: only the reconciler makes one (\<open>expired_reconciled\<close>).\<close>

definition expired :: "uuid \<Rightarrow> edit_state \<Rightarrow> edit_state \<Rightarrow> bool" where
  "expired i s s' = (case (s, s') of ((now, d, ps), (now', d', ps')) \<Rightarrow>
     ps' = ps \<and> (case (find_automation d i, find_automation d' i) of
       (Some a, Some a') \<Rightarrow> claimed a \<and> a_build_state a' = BUILD_FAILED
     | _ \<Rightarrow> False))"

inductive build_path :: "uuid \<Rightarrow> edit_state \<Rightarrow> nat \<Rightarrow> edit_state \<Rightarrow> bool" for i s where
  path_start: "build_path i s 0 s"
| path_step: "build_path i s n s' \<Longrightarrow> edit_step s' s'' \<Longrightarrow>
    build_path i s (if expired i s' s'' then Suc n else n) s''"

lemma expired_iff:
  "expired i (now, d, ps) (now', d', ps') \<longleftrightarrow> ps' = ps \<and>
     (\<exists>a a'. find_automation d i = Some a \<and> find_automation d' i = Some a' \<and> claimed a \<and> a_build_state a' = BUILD_FAILED)"
  by (cases "find_automation d i"; cases "find_automation d' i") (simp_all add: expired_def)

lemma remove1_neq: "x \<in> set xs \<Longrightarrow> remove1 x xs \<noteq> xs"
  by (induction xs) auto

lemma expired_reconciled:
  assumes "edit_step s s'" and "edits_ok s" and "expired i s s'"
  shows "\<exists>now d d' ps. s = (now, d, ps) \<and> s' = (now, d', ps) \<and> reconcile_step now d d'"
  using assms
proof (induction rule: edit_step.induct)
  case (edit_tick now now' d ps)
  from edit_tick(3) show ?case unfolding expired_iff by (elim conjE exE) (simp add: claimed_def)
next
  case (edit_claim t i data deadline now d c d' ps)
  from edit_claim(4) show ?case unfolding expired_iff by simp
next
  case (edit_release c data ps now d u d')
  with remove1_neq [OF edit_release(1)] show ?case unfolding expired_iff by simp
next
  case (edit_finish c data ps env t actor sha now d a d')
  with remove1_neq [OF edit_finish(1)] show ?case unfolding expired_iff by simp
next
  case (edit_abandon p ps now d)
  with remove1_neq [OF edit_abandon(1)] show ?case unfolding expired_iff by simp
next
  case (edit_reconcile now d d' ps)
  then show ?case by blast
next
  case (edit_other d d' now ps)
  from edit_other(3) obtain a a' where a: "find_automation d i = Some a" "find_automation d' i = Some a'"
      "claimed a" "a_build_state a' = BUILD_FAILED"
    unfolding expired_iff by blast
  from rows_relD [OF other_step_rows [OF edit_other(1) edits_okD(1) [OF edit_other(2)]] a(1)] a(2)
  have "row_kept a a'" by auto
  with a(3,4) show ?case by (auto simp: kept_defs)
qed

text \<open>The time stamps of the requests of an automation, in the order they were recorded.\<close>

definition stamps :: "uuid \<Rightarrow> automation_revision list \<Rightarrow> datetime list" where
  "stamps i rs = map rv_created_at (requests i rs)"

definition requests_in_order :: "uuid \<Rightarrow> database \<Rightarrow> bool" where
  "requests_in_order i d \<longleftrightarrow> sorted_wrt (<) (stamps i (revisions d))"

lemma stamps_append [simp]: "stamps i (rs @ rs') = stamps i rs @ stamps i rs'"
  by (simp add: stamps_def requests_def)

lemma same_events_stamps:
  assumes "same_events rs rs'"
  shows "stamps i rs = stamps i rs'"
proof -
  let ?v = "\<lambda>r. (rv_automation_id r, rv_action r, rv_git_sha r, rv_created_at r)"
  have "stamps i xs = map (\<lambda>(_, _, _, t). t) (filter (\<lambda>(j, a, _). j = i \<and> a \<in> set REQUESTING_ACTIONS) (map ?v xs))" for xs
    by (simp add: stamps_def requests_def filter_map o_def)
  with assms show ?thesis by (simp only: same_events_def)
qed

lemma in_order_prefix:
  assumes "requests_in_order i d'" and "same_events rs (revisions d)" and "revisions d' = rs @ new"
  shows "requests_in_order i d"
  using assms same_events_stamps [OF assms(2), of i] by (simp add: requests_in_order_def sorted_wrt_append)

text \<open>One step, seen from one automation. A step appends audit rows of one automation \<open>j\<close> and
  changes at most its row; \<open>own\<close> is what it does to the account of \<open>j\<close>.\<close>

definition books :: "uuid \<Rightarrow> nat \<Rightarrow> edit_state \<Rightarrow> bool" where
  "books i n s = (case s of (now, d, ps) \<Rightarrow> account n (find_automation d i) (trail i (revisions d)) ps)"

definition grows :: "edit_state \<Rightarrow> edit_state \<Rightarrow> bool" where
  "grows s s' \<longleftrightarrow> (\<exists>rs new. same_events rs (revisions (fst (snd s))) \<and> revisions (fst (snd s')) = rs @ new)"

lemma grows_same: "revisions d' = revisions d \<Longrightarrow> grows (now, d, ps) (now', d', ps')"
  unfolding grows_def by (intro exI [of _ "revisions d"] exI [of _ "[]"]) simp

lemma books_frame:
  assumes books: "books i n (now, d, ps)" and le: "n \<le> n'"
    and rows: "i \<noteq> j \<Longrightarrow> find_automation d' i = find_automation d i"
    and new: "revisions d' = rs @ new" "\<forall>r \<in> set new. rv_automation_id r = j"
    and old: "\<And>k. same_events (trail k rs) (trail k (revisions d))"
    and claims: "\<And>p. i \<noteq> j \<Longrightarrow> p \<in> set ps' \<Longrightarrow> bc_automation_id (fst p) = i \<Longrightarrow> p \<in> set ps"
    and own: "i = j \<Longrightarrow> account n (find_automation d j) (trail j (revisions d)) ps \<Longrightarrow>
      account n' (find_automation d' j) (trail j rs @ new) ps'"
  shows "books i n' (now', d', ps')"
proof (cases "i = j")
  case True
  have "trail j new = new" using new(2) by (auto simp: trail_def)
  with own True books show ?thesis by (simp add: books_def new(1))
next
  case False
  then have "trail i new = []" using new(2) by (auto simp: trail_def filter_empty_conv)
  moreover have "account n' (find_automation d i) (trail i (revisions d)) ps'"
  proof (rule account_weaken [OF books [unfolded books_def prod.case] le])
    show "p \<in> set ps" if "find_automation d i = Some a" "p \<in> set ps'" "bc_automation_id (fst p) = a_id a" for a p
      using claims [OF False that(2)] atab.get_key [OF that(1)] that(3) by simp
  qed
  ultimately show ?thesis using account_events [OF old [of i]] rows [OF False] by (simp add: books_def new(1))
qed

lemma books_weaken:
  assumes "books i n (now, d, ps)" and "n \<le> n'" and "set ps' \<subseteq> set ps"
  shows "books i n' (now', d, ps')"
  using assms(1) unfolding books_def prod.case by (rule account_weaken) (use assms(2,3) in auto)

lemma scoped_row:
  assumes "db_ok d" and "scoped_get t i d = Inr a"
  shows "find_automation d i = Some a" and "a_id a = i"
  using db_ok_scoped(3) [OF assms] scoped_get_InrD(1) [OF assms(2)] by simp_all


lemma in_remove1: "x \<in> set (remove1 y xs) \<Longrightarrow> x \<in> set xs"
  using set_remove1_subset by (rule subsetD)

lemma claim_books:
  assumes ok: "edits_ok (now, d, ps)" and claim: "claim_build_tx t i data deadline now d = Inr (c, d')"
    and later: "now < deadline" and books: "books k n (now, d, ps)"
  shows "grows (now, d, ps) (now, d', (c, data) # ps) \<and> books k n (now, d', (c, data) # ps)"
  using claim
proof (rule claim_build_tx_InrD)
  fix a :: automation
  let ?a = "a\<lparr>a_build_state := BUILDING, a_build_lock_deadline := Some deadline, a_building_sha := None\<rparr>"
  assume a: "scoped_get t i d = Inr a" "a_build_state a \<noteq> BUILDING"
    and c: "c = \<lparr>bc_automation_id = a_id a, bc_script_path = a_script_path a,
                  bc_deadline = deadline, bc_previous_build_state = a_build_state a,
                  bc_previous_building_sha = a_building_sha a\<rparr>"
    and d': "d' = put_automation ?a d"
  note row = scoped_row [OF edits_okD(1) [OF ok] a(1)]
  note keys = edits_okD(2) [OF claim_edits_ok [OF ok claim later]]
  have alone: "fst p = c" if "p \<in> set ((c, data) # ps)" "bc_automation_id (fst p) = a_id a" "locked_by (fst p) ?a" for p
  proof -
    have "token p = token (c, data)" using that(2,3) by (simp add: token_def locked_by_def c)
    moreover have "token p \<in> token ` set ps" if "p \<in> set ps" using that by (rule imageI)
    ultimately have "p = (c, data)" using keys that(1) by auto
    then show ?thesis by simp
  qed
  have "books k n (now, d', (c, data) # ps)"
  proof (rule books_frame [OF books order_refl, where j = i and rs = "revisions d" and new = "[]"])
    show "account n (find_automation d' i) (trail i (revisions d) @ []) ((c, data) # ps)"
      if "account n (find_automation d i) (trail i (revisions d)) ps"
      using account_claim [OF that [unfolded row(1)] a(2) refl, of c "(c, data) # ps"] alone
      by (simp add: d' table_simps row) (simp add: c)
  qed (auto simp: d' table_simps row c)
  then show ?thesis by (simp add: grows_same d' table_simps)
qed

lemma release_books:
  assumes ok: "edits_ok (now, d, ps)" and p: "p \<in> set ps"
    and release: "release_build_claim_tx (fst p) now d = Inr (u, d')" and books: "books k n (now, d, ps)"
  shows "grows (now, d, ps) (now, d', remove1 p ps) \<and> books k n (now, d', remove1 p ps)"
proof -
  let ?i = "bc_automation_id (fst p)"
  have revs: "revisions d' = revisions d" using release by (auto simp: release_build_claim_tx_def table_simps)
  have standing: "holds d p \<or> lost now d p" and "claim_ok (fst p)" using edits_okD(3,4) [OF ok p] by simp_all
  then obtain a where a: "find_automation d ?i = Some a" and sha: "locked_by (fst p) a \<Longrightarrow> a_building_sha a = None"
    by (auto simp: holds_def lost_def)
  note id = atab.get_key [OF a]
  have "books k n (now, d', remove1 p ps)"
  proof (rule books_frame [OF books order_refl, where j = ?i and rs = "revisions d" and new = "[]"])
    show "account n (find_automation d' ?i) (trail ?i (revisions d) @ []) (remove1 p ps)"
      if acc: "account n (find_automation d ?i) (trail ?i (revisions d)) ps"
    proof (cases "locked_by (fst p) a")
      case True
      with account_release [OF acc [unfolded a] p _ True sha \<open>claim_ok (fst p)\<close>] id show ?thesis
        by (simp add: release_row [OF release] a)
    next
      case False
      have "account n (Some a) (trail ?i (revisions d)) (remove1 p ps)"
        by (rule account_weaken [OF acc [unfolded a] order_refl]) (auto dest: in_remove1)
      with False show ?thesis by (simp add: release_row [OF release] a)
    qed
  qed (auto simp: revs release_row [OF release] option.map_ident dest: in_remove1)
  then show ?thesis by (simp add: grows_same revs)
qed

lemma finish_books:
  assumes ok: "edits_ok (now, d, ps)" and p: "(c, data) \<in> set ps"
    and finish: "finish_edit_tx t (bc_automation_id c) data actor c sha now d = Inr (a', d')"
    and order: "requests_in_order k d'" and books: "books k n (now, d, ps)"
  shows "grows (now, d, ps) (now, d', remove1 (c, data) ps) \<and> books k n (now, d', remove1 (c, data) ps)"
  using finish
proof (rule finish_edit_tx_InrD)
  fix a
  let ?i = "bc_automation_id c"
  let ?r = "\<lparr>rv_automation_id = ?i, rv_action = EDIT, rv_git_sha = Some sha,
            rv_resulting_digest = None, rv_actor = actor, rv_created_at = now\<rparr>"
  assume a: "scoped_get t ?i d = Inr a" "a_build_state a = BUILDING"
    and a': "a' = a\<lparr>a_name := in_name data, a_namespace := in_namespace data,
                a_triggers := in_triggers data, a_secret_name := in_secret_name data,
                a_cooldown_seconds := in_cooldown_seconds data,
                a_cooldown_fields := in_cooldown_fields data,
                a_timeout_seconds := Some (or_default (in_timeout_seconds data) TIMEOUT_SECONDS_DEFAULT),
                a_grace_seconds := or_default (in_grace_seconds data) GRACE_SECONDS_DEFAULT,
                a_logstash_url := in_logstash_url data, a_building_sha := Some sha,
                a_updated_by := actor, a_updated_at := now\<rparr>"
    and d': "d' = add_revision ?r (put_automation a' d)"
  note row = scoped_row [OF edits_okD(1) [OF ok] a(1)]
  have revs: "revisions d' = revisions d @ [?r]" by (simp add: d' table_simps)
  have "books k n (now, d', remove1 (c, data) ps)"
  proof (rule books_frame [OF books order_refl, where j = ?i and rs = "revisions d" and new = "[?r]"])
    show "account n (find_automation d' ?i) (trail ?i (revisions d) @ [?r]) (remove1 (c, data) ps)"
      if "k = ?i" and acc: "account n (find_automation d ?i) (trail ?i (revisions d)) ps"
    proof -
      have "stamps ?i [?r] = [now]" by (simp add: stamps_def requests_def REQUESTING_ACTIONS_def)
      then have "\<forall>t \<in> set (stamps ?i (revisions d)). t < now"
        using order that(1) by (simp add: requests_in_order_def revs sorted_wrt_append)
      then have "\<forall>q \<in> set (requests (a_id a) (trail ?i (revisions d))). rv_created_at q < rv_created_at ?r"
        by (simp add: stamps_def row(2))
      from account_finish [OF acc [unfolded row(1)] _ _ _ _ _ _ this, of a' sha] show ?thesis
        by (simp add: d' table_simps row a' a(2))
    qed
  qed (auto simp: revs d' a' table_simps row dest: in_remove1)
  then show ?thesis unfolding grows_def using revs by (auto intro: exI [of _ "revisions d"])
qed

lemma reconcile_books:
  assumes step: "reconcile_step now d d'" and books: "books k n (now, d, ps)"
  shows "grows (now, d, ps) (now, d', ps)
    \<and> books k (if expired k (now, d, ps) (now, d', ps) then Suc n else n) (now, d', ps)"
  using step
proof cases
  case (reconcile_release i a deadline s)
  let ?a = "a\<lparr>a_build_state := s, a_building_sha := None, a_build_lock_deadline := None\<rparr>"
  note id = atab.get_key [OF reconcile_release(2)]
  have row: "find_automation d' i = Some ?a" by (simp add: reconcile_release(1,2) table_simps id)
  let ?n = "if expired k (now, d, ps) (now, d', ps) then Suc n else n"
  have "books k ?n (now, d', ps)"
  proof (rule books_frame [OF books, where j = i and rs = "revisions d" and new = "[]"])
    show "account ?n (find_automation d' i) (trail i (revisions d) @ []) ps"
      if "k = i" and acc: "account n (find_automation d i) (trail i (revisions d)) ps"
    proof -
      have "claimed a \<and> s = BUILD_FAILED \<Longrightarrow> n < ?n"
        using that(1) reconcile_release(2) row by (auto simp: expired_iff)
      from account_expire [OF acc [unfolded reconcile_release(2)] reconcile_release(3,6) this] show ?thesis
        by (simp add: row)
    qed
  qed (auto simp: reconcile_release(1) table_simps id)
  then show ?thesis by (simp add: grows_same reconcile_release(1) table_simps)
qed


lemma other_books:
  assumes db: "db_ok d" and step: "other_step d d'"
  shows "grows (now, d, ps) (now, d', ps) \<and> (books k n (now, d, ps) \<longrightarrow> books k n (now, d', ps))"
proof -
  note frame = books_frame [OF _ order_refl, where ps = ps and ps' = ps and now' = now]
  have grown: "grows (now, d, ps) (now, d', ps)" if "same_events rs (revisions d)" "revisions d' = rs @ new" for rs new
    using that unfolding grows_def by auto
  from step show ?thesis
  proof cases
    case (other_create env data i t actor sha deadline now' a)
    from other_create(2) show ?thesis
    proof (rule create_tx_InrD)
      fix d1
      let ?r = "\<lparr>rv_automation_id = i, rv_action = CREATE, rv_git_sha = Some sha,
                rv_resulting_digest = None, rv_actor = actor, rv_created_at = now'\<rparr>"
      assume a: "a = new_automation i t data actor sha deadline now'" and ins: "insert_automation a d = Inr d1"
        and d': "d' = add_revision ?r d1"
      have i: "a_id a = i" by (simp add: a new_automation_def)
      have none: "find_automation d i = None"
        using insert_automation_InrD(2) [OF ins] by (simp add: atab.get_None_iff i)
      have revs: "revisions d' = revisions d @ [?r]"
        using insert_automation_InrD(1) [OF ins] by (simp add: d' table_simps)
      have "books k n (now, d', ps)" if books: "books k n (now, d, ps)"
      proof (rule frame [OF books, where j = i and rs = "revisions d" and new = "[?r]"])
        show "account n (find_automation d' i) (trail i (revisions d) @ [?r]) ps"
          if "account n (find_automation d i) (trail i (revisions d)) ps"
        proof -
          have "trail i (revisions d) = []" using that by (simp add: none account_def)
          moreover have "account n (Some a) [?r] ps"
            by (rule account_create [OF i, where sha = sha]) (simp_all add: a new_automation_def)
          ultimately show ?thesis by (simp add: d' table_simps find_insert_automation [OF ins] i)
        qed
      qed (simp_all add: revs, simp add: d' table_simps find_insert_automation [OF ins] i)
      with grown [OF _ revs] show ?thesis by simp
    qed
  next
    case (other_toggle target action t i actor now' a')
    from other_toggle(2) show ?thesis
    proof (rule toggle_tx_InrD)
      fix a :: automation
      let ?r = "\<lparr>rv_automation_id = i, rv_action = action, rv_git_sha = None,
            rv_resulting_digest = a_active_digest a, rv_actor = actor, rv_created_at = now'\<rparr>"
      assume a: "scoped_get t i d = Inr a"
        and a': "a' = a\<lparr>a_matching_state := target, a_index_generation := a_index_generation a + 1,
                a_updated_by := actor, a_updated_at := now'\<rparr>"
        and d': "d' = add_revision ?r (put_automation a' d)"
      note row = scoped_row [OF db a]
      have revs: "revisions d' = revisions d @ [?r]" by (simp add: d' table_simps)
      have "books k n (now, d', ps)" if books: "books k n (now, d, ps)"
        by (rule frame [OF books, where j = i and rs = "revisions d" and new = "[?r]"])
          (use other_toggle(1) in \<open>auto simp: row a' d' table_simps intro!: account_same\<close>)
      with grown [OF _ revs] show ?thesis by simp
    qed
  next
    case (other_cut_over event created now' res)
    from other_cut_over(3) show ?thesis
    proof (rule cut_over_tx_SomeD)
      fix a :: automation
      let ?i = "e_automation_id event" and ?r = "build_revision event BUILD_SUCCEEDED (e_image event) now'"
      let ?rs = "update_where (\<lambda>r. rv_automation_id r = e_automation_id event
             \<and> rv_git_sha r = Some (e_commit_sha event) \<and> rv_action r \<in> set REQUESTING_ACTIONS)
          (\<lambda>r. r\<lparr>rv_resulting_digest := e_image event\<rparr>) (revisions d)"
      assume a: "load ?i d = Inr a" "admitted_at_commit d a (e_commit_sha event)"
        and d': "d' = cut_over_db d a event created now'"
      note row = db_ok_load [OF db a(1)]
      have revs: "revisions d' = ?rs @ [?r]" by (simp add: d' cut_over_db_def table_simps)
      have same: "same_events (trail j ?rs) (trail j (revisions d))" for j
        unfolding trail_update by (rule same_events_update)
      have "books k n (now, d', ps)" if books: "books k n (now, d, ps)"
      proof (rule frame [OF books, where j = ?i and rs = ?rs and new = "[?r]"])
        show "account n (find_automation d' ?i) (trail ?i ?rs @ [?r]) ps"
          if "account n (find_automation d ?i) (trail ?i (revisions d)) ps"
          using account_cut_over [OF that [unfolded row(3)] _ _ _ _ _ _ same [of ?i], of "e_commit_sha event"
              "cut_over_row a event created now'" ?r] a(2)
          by (simp add: d' cut_over_db_def table_simps row build_revision_def admitted_at_commit_def failure_raced_def
              latest_newest)
      qed (auto simp: revs same, simp_all add: build_revision_def d' cut_over_db_def table_simps row)
      with grown [OF same_events_update revs] show ?thesis by simp
    qed
  next
    case (other_failure event now' res)
    from other_failure(1) show ?thesis
    proof (rule record_failure_tx_SomeD)
      fix a :: automation
      let ?i = "e_automation_id event" and ?r = "build_revision event REV_BUILD_FAILED None now'"
      let ?a = "a\<lparr>a_build_state := BUILD_FAILED, a_building_sha := None, a_build_lock_deadline := None,
        a_updated_at := now'\<rparr>"
      assume a: "load ?i d = Inr a" "admission a (e_commit_sha event) = None"
        and d': "d' = add_revision ?r (put_automation ?a d)"
      note row = db_ok_load [OF db a(1)]
      have revs: "revisions d' = revisions d @ [?r]" by (simp add: d' table_simps)
      have "books k n (now, d', ps)" if books: "books k n (now, d, ps)"
      proof (rule frame [OF books, where j = ?i and rs = "revisions d" and new = "[?r]"])
        show "account n (find_automation d' ?i) (trail ?i (revisions d) @ [?r]) ps"
          if "account n (find_automation d ?i) (trail ?i (revisions d)) ps"
          using account_failure [OF that [unfolded row(3)], of "e_commit_sha event" ?a ?r] a(2)
          by (simp add: d' table_simps row build_revision_def admission_None_iff)
      qed (simp_all add: revs, simp_all add: build_revision_def d' table_simps row)
      with grown [OF _ revs] show ?thesis by simp
    qed
  next
    case (other_begin_delete t i actor now' adm)
    from other_begin_delete(1) show ?thesis
    proof (rule begin_delete_tx_SomeD)
      fix a a' :: automation
      let ?r = "\<lparr>rv_automation_id = i, rv_action = DELETE, rv_git_sha = None,
            rv_resulting_digest = a_active_digest a, rv_actor = actor, rv_created_at = now'\<rparr>"
      assume a: "scoped_get t i d = Inr a"
        and a': "a' = a\<lparr>a_matching_state := DELETING, a_delete_cascade_step := Some 1,
                a_index_generation := a_index_generation a + 1,
                a_updated_by := actor, a_updated_at := now'\<rparr>"
        and d': "d' = add_revision ?r (put_automation a' d)"
      note row = scoped_row [OF db a]
      have revs: "revisions d' = revisions d @ [?r]" by (simp add: d' table_simps)
      have "books k n (now, d', ps)" if books: "books k n (now, d, ps)"
        by (rule frame [OF books, where j = i and rs = "revisions d" and new = "[?r]"])
          (auto simp: row a' d' table_simps intro!: account_same)
      with grown [OF _ revs] show ?thesis by simp
    qed
  next
    case (other_checkpoint m ms i now' won)
    then have d': "d' = update_automations (at_checkpoint i m) (advance m ms now') d" by (simp add: checkpoint_tx_def)
    have revs: "revisions d' = revisions d" by (simp add: d' table_simps)
    have "account n (find_automation d' k) (trail k (revisions d)) ps" if books: "books k n (now, d, ps)"
    proof (cases "find_automation d k")
      case None
      with books show ?thesis by (simp add: books_def d' atab.get_upd advance_def)
    next
      case (Some a)
      with books account_same [of n a _ _ "advance m ms now' a" "[]"] show ?thesis
        by (simp add: books_def d' atab.get_upd advance_def)
    qed
    then show ?thesis by (simp add: grows_same revs books_def)
  next
    case (other_complete_run run_id s now' changed)
    then have "revisions d' = revisions d" "automations d' = automations d"
      by (auto simp: complete_run_tx_def table_simps)
    then show ?thesis by (simp add: grows_same books_def find_automation_def)
  qed
qed

lemma step_books:
  assumes "edit_step s s'" and "edits_ok s" and "books k n s" and "requests_in_order k (fst (snd s'))"
  shows "grows s s' \<and> books k (if expired k s s' then Suc n else n) s'"
proof -
  have weaken: "grows s s' \<and> books k n s' \<Longrightarrow> ?thesis"
    by (cases s') (auto intro: books_weaken)
  show ?thesis using assms weaken
  proof (induction rule: edit_step.induct)
    case (edit_tick now now' d ps)
    have "books k n (now', d, ps)" using edit_tick(3) by (rule books_weaken) simp_all
    then show ?case using edit_tick(5) by (simp add: grows_same)
  next
    case (edit_claim t i data deadline now d c d' ps)
    show ?case by (rule edit_claim(6)) (rule claim_books [OF edit_claim(3,1,2,4)])
  next
    case (edit_release c data ps now d u d')
    show ?case by (rule edit_release(6)) (rule release_books [OF edit_release(3,1) _ edit_release(4)], simp add: edit_release(2))
  next
    case (edit_finish c data ps env t actor sha now d a d')
    show ?case by (rule edit_finish(7)) (rule finish_books [OF edit_finish(4,1,3) _ edit_finish(5)], use edit_finish(6) in simp)
  next
    case (edit_abandon p ps now d)
    have "books k n (now, d, remove1 p ps)"
      using edit_abandon(3) by (rule books_weaken) (auto dest: in_remove1)
    then show ?case using edit_abandon(5) by (simp add: grows_same)
  next
    case (edit_reconcile now d d' ps)
    show ?case by (rule reconcile_books [OF edit_reconcile(1,3)])
  next
    case (edit_other d d' now ps)
    show ?case by (rule edit_other(5)) (use other_books [OF edits_okD(1) [OF edit_other(2)] edit_other(1), of now ps k n] edit_other(3) in blast)
  qed
qed


lemma step_grows:
  assumes "edit_step s s'" and "edits_ok s"
  shows "grows s s'"
  using assms
proof (induction rule: edit_step.induct)
  case (edit_finish c data ps env t actor sha now d a d')
  from edit_finish(3) show ?case
    by (rule finish_edit_tx_InrD) (auto simp: grows_def table_simps intro: exI [of _ "revisions d"])
next
  case (edit_claim t i data deadline now d c d' ps)
  from edit_claim(1) show ?case by (rule claim_build_tx_InrD) (simp add: grows_same table_simps)
next
  case (edit_release c data ps now d u d')
  then have "revisions d' = revisions d" by (auto simp: release_build_claim_tx_def table_simps)
  then show ?case by (rule grows_same)
next
  case (edit_reconcile now d d' ps)
  then have "revisions d' = revisions d" by (auto elim!: reconcile_step.cases simp: table_simps)
  then show ?case by (rule grows_same)
next
  case (edit_other d d' now ps)
  from other_books [OF edits_okD(1) [OF edit_other(2)] edit_other(1)] show ?case by blast
qed (simp_all add: grows_same)

lemma in_order_before:
  assumes "grows s s'" and "requests_in_order k (fst (snd s'))"
  shows "requests_in_order k (fst (snd s))"
  using assms(1) unfolding grows_def by (elim exE conjE) (rule in_order_prefix [OF assms(2)])

lemma path_ok: "build_path i s n s' \<Longrightarrow> edits_ok s \<Longrightarrow> edits_ok s'"
  by (induction rule: build_path.induct) (auto intro: edit_step_ok)

lemma path_books:
  assumes "build_path i s n s'" and "edits_ok s" and "books i 0 s" and "requests_in_order i (fst (snd s'))"
  shows "books i n s'"
  using assms
proof (induction rule: build_path.induct)
  case (path_step n s' s'')
  note ok = path_ok [OF path_step.hyps(1) path_step.prems(1)]
  have "books i n s'"
    using path_step in_order_before [OF step_grows [OF path_step.hyps(2) ok]] by blast
  with step_books [OF path_step.hyps(2) ok _ path_step.prems(3)] show ?case by blast
qed

section \<open>The property\<close>

text \<open>C14. How often a requested build takes effect: along any path of the machine of \<open>Claims\<close> (edits
  under way, all other transactions, and the reconciler that takes expired builds away) that starts
  with no automation, if the automation's requests carry increasing time stamps, no commit has more
  recorded failures than creates and edits that requested it, and no more recorded cutovers than
  requests plus the number \<open>n\<close> of edits of the automation whose expired claim the reconciler turned
  into a failed build, however often and in whatever order CI delivers its results. Without
  such an expiry a requested build takes effect at most once. While a row waits for a commit, that
  commit is the newest requested one and has a cutover and a failure to spare. The bound is
  reached: the witness is a commit with one request, one expiry and two cutovers.\<close>

theorem cutovers_match_requests:
  assumes "db_ok d" and "automations d = []" and "revisions d = []"
    and "build_path i (now, d, []) n (now', d', ps)" and "requests_in_order i d'"
  shows "successes i sha d' \<le> requested_builds i sha d' + n \<and> failures i sha d' \<le> requested_builds i sha d'
    \<and> (\<forall>a. find_automation d' i = Some a \<and> a_build_state a = BUILDING \<and> a_building_sha a = Some sha \<longrightarrow>
         latest_requested_sha i d' = Some sha
       \<and> successes i sha d' < requested_builds i sha d' + n \<and> failures i sha d' < requested_builds i sha d')"
proof -
  have "books i 0 (now, d, [])"
    using assms(2,3) by (simp add: books_def account_def find_automation_def trail_def)
  from path_books [OF assms(4) edits_ok_start [OF assms(1)] this] assms(5)
  have own: "account n (find_automation d' i) (trail i (revisions d')) ps" by (simp add: books_def)
  show ?thesis
  proof (cases "find_automation d' i")
    case None
    with own have "events acts i sha (trail i (revisions d')) = 0" for acts by (simp add: account_def events_def)
    with None show ?thesis by simp
  next
    case (Some a)
    with accountD [of n a "trail i (revisions d')" ps sha] own atab.get_key [OF Some]
    show ?thesis by (simp add: latest_newest open_for_def REQUESTING_ACTIONS_def)
  qed
qed


lemma sample_event_ok: "event_ok (sample_event outcome)"
  by (simp add: event_ok_def sample_image_digest is_commit_sha_def sample_sha_def is_hex_lower_def is_ascii_digit_def
      list_all_iff) (simp add: sample_event_def blank_iff is_space_def str_def CONTRACT_VERSION_MAX_LENGTH_def)

lemma path_quiet:
  "build_path i s n s' \<Longrightarrow> edit_step s' s'' \<Longrightarrow> \<not> expired i s' s'' \<Longrightarrow> build_path i s n s''"
  by (drule (1) path_step) simp

lemma path_expired:
  "build_path i s n s' \<Longrightarrow> edit_step s' s'' \<Longrightarrow> expired i s' s'' \<Longrightarrow> build_path i s (Suc n) s''"
  by (drule (1) path_step) simp

text \<open>One request and two successes of its commit, both admitted while it was being built: the first
  cuts over, an edit claims the automation and never ends, the reconciler fails the expired claim,
  and the second success takes that failure for one of its own build.\<close>

theorem cutovers_match_requests_witness:
  "\<exists>d'. build_path sample_id (0, empty_db, []) 1 (300, d', [(sample_claim\<lparr>bc_deadline := 300\<rparr>, sample_data)])
     \<and> requested_builds sample_id sample_sha d' = 1 \<and> successes sample_id sample_sha d' = 2
     \<and> successes sample_id sample_sha d' \<le> requested_builds sample_id sample_sha d' + 1"
proof -
  let ?a = "new_automation sample_id (str ''acme'') sample_data (str ''ann'') sample_sha 9 100"
  let ?e = "sample_event SUCCESS" and ?c = "sample_claim\<lparr>bc_deadline := 300\<rparr>"
  let ?r1 = "cut_over_row ?a ?e None 150"
  let ?r2 = "?r1\<lparr>a_build_state := BUILDING, a_build_lock_deadline := Some 300, a_building_sha := None\<rparr>"
  let ?r3 = "?r2\<lparr>a_build_state := BUILD_FAILED, a_building_sha := None, a_build_lock_deadline := None\<rparr>"
  let ?d1 = "cut_over_db created_db ?a ?e None 150"
  let ?d2 = "put_automation ?r2 ?d1"
  let ?d3 = "put_automation ?r3 ?d2"
  let ?d4 = "cut_over_db ?d3 ?r3 ?e None 310"
  have parts: "a_id ?a = sample_id" "a_build_state ?a = BUILDING" "a_building_sha ?a = Some sample_sha"
      "a_matching_state ?a = INACTIVE" "a_tenant_id ?a = str ''acme''" "a_namespace ?a = str ''wallet''"
      "a_capp_deployment_id ?a = None" "a_script_path ?a = script_path_of sample_id"
    by (simp_all add: new_automation_def sample_data_def)
  have row0: "find_automation created_db sample_id = Some ?a"
    by (simp add: created_db_def table_simps) (simp add: find_automation_def empty_db_def parts)
  have row1: "find_automation ?d1 sample_id = Some ?r1" by (simp add: cut_over_db_def table_simps row0 parts)
  have row2: "find_automation ?d2 sample_id = Some ?r2" by (simp add: table_simps row1 parts)
  have row3: "find_automation ?d3 sample_id = Some ?r3" by (simp add: table_simps row1 parts)
  have revs0: "revisions created_db = [sample_revision\<lparr>rv_created_at := 100\<rparr>]"
    by (simp add: created_db_def sample_revision_def empty_db_def table_simps)
  have revs1: "revisions ?d1 = [sample_revision\<lparr>rv_created_at := 100, rv_resulting_digest := Some sample_image\<rparr>,
      build_revision ?e BUILD_SUCCEEDED (Some sample_image) 150]"
    by (simp add: cut_over_db_def table_simps revs0 update_where_def sample_revision_def REQUESTING_ACTIONS_def)
  have keys: "map a_id (automations ?d1) = [sample_id]"
    by (simp add: cut_over_db_def table_simps created_db_def empty_db_def parts)
  have "other_step empty_db created_db" using sample_authoring_ok created_db_tx by (rule other_create)
  then have step0: "edit_step (0, empty_db, []) (0, created_db, [])" by (rule edit_other)
  have "cut_over_tx ?e None 150 created_db = Inr (Inr (build_event_of ?r1 sample_sha), Some ?d1)"
    using cut_over_tx_cases [of ?e created_db ?a None 150] row0 parts by (simp add: load_def admitted_at_commit_def)
  then have "other_step created_db ?d1" by (rule other_cut_over [rotated 2]) (use sample_event_ok in simp_all)
  then have step1: "edit_step (0, created_db, []) (0, ?d1, [])" by (rule edit_other)
  have get: "scoped_get (str ''acme'') sample_id ?d1 = Inr ?r1"
    using scoped_get_find [of ?d1 "str ''acme''" sample_id] keys row1 parts by simp
  have "claim_build_tx (str ''acme'') sample_id sample_data 300 0 ?d1 = Inr (?c, ?d2)"
    using get parts by (simp add: claim_build_tx_def check_wallet_unchanged_def sample_claim_def)
  then have step2: "edit_step (0, ?d1, []) (0, ?d2, [(?c, sample_data)])" by (rule edit_claim) simp
  have step3: "edit_step (0, ?d2, [(?c, sample_data)]) (300, ?d2, [(?c, sample_data)])" by (rule edit_tick) simp
  have "reconcile_step 300 ?d2 ?d3" by (rule reconcile_release [OF row2, where deadline = 300]) simp_all
  then have step4: "edit_step (300, ?d2, [(?c, sample_data)]) (300, ?d3, [(?c, sample_data)])" by (rule edit_reconcile)
  have latest: "latest_requested_sha sample_id ?d3 = Some sample_sha"
    by (simp add: latest_requested_sha_def table_simps revs1)
      (simp add: build_revision_def sample_revision_def REQUESTING_ACTIONS_def)
  have "cut_over_tx ?e None 310 ?d3 = Inr (Inr (build_event_of (cut_over_row ?r3 ?e None 310) sample_sha), Some ?d4)"
    using cut_over_tx_cases [of ?e ?d3 ?r3 None 310] row3 parts latest
    by (simp add: load_def admitted_at_commit_def failure_raced_def)
  then have "other_step ?d3 ?d4" by (rule other_cut_over [rotated 2]) (use sample_event_ok in simp_all)
  then have step5: "edit_step (300, ?d3, [(?c, sample_data)]) (300, ?d4, [(?c, sample_data)])" by (rule edit_other)
  have "build_path sample_id (0, empty_db, []) 0 (0, created_db, [])"
    by (rule path_quiet [OF path_start step0]) (simp add: expired_iff find_automation_def empty_db_def)
  then have "build_path sample_id (0, empty_db, []) 0 (0, ?d1, [])"
    by (rule path_quiet [OF _ step1]) (simp add: expired_iff row0 parts claimed_def)
  then have "build_path sample_id (0, empty_db, []) 0 (0, ?d2, [(?c, sample_data)])"
    by (rule path_quiet [OF _ step2]) (simp add: expired_iff)
  then have "build_path sample_id (0, empty_db, []) 0 (300, ?d2, [(?c, sample_data)])"
    by (rule path_quiet [OF _ step3]) (simp add: expired_iff row2)
  then have "build_path sample_id (0, empty_db, []) (Suc 0) (300, ?d3, [(?c, sample_data)])"
    by (rule path_expired [OF _ step4]) (use row2 row3 in \<open>simp add: expired_iff claimed_def\<close>)
  then have path: "build_path sample_id (0, empty_db, []) 1 (300, ?d4, [(?c, sample_data)])"
    unfolding One_nat_def by (rule path_quiet [OF _ step5]) (use row3 in \<open>simp add: expired_iff claimed_def\<close>)
  have revs4: "revisions ?d4 = [sample_revision\<lparr>rv_created_at := 100, rv_resulting_digest := Some sample_image\<rparr>,
      build_revision ?e BUILD_SUCCEEDED (Some sample_image) 150, build_revision ?e BUILD_SUCCEEDED (Some sample_image) 310]"
    unfolding cut_over_db_def add_revision_frame update_revisions_frame put_automation_frame
    by (simp add: revs0 update_where_def sample_revision_def build_revision_def REQUESTING_ACTIONS_def)
  have counts: "events acts sample_id sample_sha (revisions ?d4)
      = (if CREATE \<in> acts then 1 else 0) + (if BUILD_SUCCEEDED \<in> acts then 2 else 0)" for acts
    unfolding revs4 by (simp add: events_def sample_revision_def build_revision_def)
  have "requests_in_order sample_id ?d4"
    unfolding requests_in_order_def revs4
    by (simp add: stamps_def requests_def build_revision_def sample_revision_def REQUESTING_ACTIONS_def)
  then have "successes sample_id sample_sha ?d4 \<le> requested_builds sample_id sample_sha ?d4 + 1"
    using cutovers_match_requests [OF _ _ _ path] by (simp add: empty_db_def db_ok_def)
  with path show ?thesis
    by (intro exI [of _ ?d4] conjI) (simp_all only: counts, simp_all add: REQUESTING_ACTIONS_def)
qed

end
