(* ===== verification/History.thy ===== *)
theory History
  imports Claims
begin

text \<open>
  The audit trail against the rows. \<open>audited rs a a'\<close> relates a row before and after one
  transaction to the revisions \<open>rs\<close> that transaction appended: which of its changes must be
  on record, by whom, and how far a deletion may move at once.
\<close>

definition new_revisions :: "database \<Rightarrow> database \<Rightarrow> automation_revision list" where
  "new_revisions d d' = drop (length (revisions d)) (revisions d')"

fun action_for :: "matching_state \<Rightarrow> revision_action option" where
  "action_for ACTIVE = Some ENABLE"
| "action_for INACTIVE = Some DISABLE"
| "action_for DELETING = Some DELETE"
| "action_for DELETED = None"

text \<open>A change of the matching state is recorded with the action that made it and its actor,
  except for the last step of a deletion, whose record is the delete; a new image is recorded
  with the build that produced it; a new build is recorded with the request that asked for it;
  and the cascade moves one checkpoint at a time.\<close>

definition audited :: "automation_revision list \<Rightarrow> automation \<Rightarrow> automation \<Rightarrow> bool" where
  "audited rs a a' \<longleftrightarrow>
     (a_matching_state a' \<noteq> a_matching_state a \<longrightarrow>
        a_matching_state a = DELETING \<and> a_matching_state a' = DELETED
        \<or> (\<exists>r \<in> set rs. rv_automation_id r = a_id a \<and> Some (rv_action r) = action_for (a_matching_state a')
             \<and> rv_actor r = a_updated_by a'))
   \<and> (a_active_digest a' \<noteq> a_active_digest a \<longrightarrow>
        (\<exists>r \<in> set rs. rv_automation_id r = a_id a \<and> rv_action r = BUILD_SUCCEEDED
           \<and> rv_resulting_digest r = a_active_digest a' \<and> rv_actor r = BUILD_ACTOR))
   \<and> (a_building_sha a' \<noteq> a_building_sha a \<and> a_building_sha a' \<noteq> None \<longrightarrow>
        (\<exists>r \<in> set rs. rv_automation_id r = a_id a \<and> rv_action r = EDIT \<and> rv_git_sha r = a_building_sha a'))
   \<and> cascade_position a' \<le> cascade_position a + 1"

lemma audited_refl [simp]: "audited rs a a"
  by (simp add: audited_def)

lemma new_revisions_simps [simp]:
  "new_revisions d (put_automation a d) = []"
  "new_revisions d (update_automations p f d) = []"
  "new_revisions d (add_revision r (put_automation a d)) = [r]"
  "new_revisions d (add_revision r (update_revisions q g (put_automation a d))) = [r]"
  by (simp_all add: new_revisions_def table_simps)

lemma rows_rel_same: "automations d' = automations d \<Longrightarrow> (\<And>a. r a a) \<Longrightarrow> rows_rel r d d'"
  by (auto simp: rows_rel_def find_automation_def)

lemma toggle_audited:
  assumes "(target, action) \<in> {(ACTIVE, ENABLE), (INACTIVE, DISABLE)}" and "db_ok d"
    and "toggle_tx t i actor target action now d = Inr (a', d')"
  shows "rows_rel (audited (new_revisions d d')) d d'"
  using assms(3)
proof (rule toggle_tx_InrD)
  fix a
  assume a: "scoped_get t i d = Inr a"
    and d': "a' = a\<lparr>a_matching_state := target, a_index_generation := a_index_generation a + 1,
                a_updated_by := actor, a_updated_at := now\<rparr>"
      "d' = add_revision
           \<lparr>rv_automation_id = i, rv_action = action, rv_git_sha = None,
            rv_resulting_digest = a_active_digest a, rv_actor = actor, rv_created_at = now\<rparr>
           (put_automation a' d)"
  show ?thesis unfolding d'(2) rows_rel_revisions
    by (rule rows_rel_scoped [OF audited_refl assms(2) a])
      (use assms(1) scoped_get_InrD(1) [OF a] in \<open>auto simp: audited_def d'(1) cascade_position_def\<close>)
qed

lemma begin_delete_audited:
  assumes "db_ok d" and "begin_delete_tx t i actor now d = Inr (adm, Some d')"
  shows "rows_rel (audited (new_revisions d d')) d d'"
  using assms(2)
proof (rule begin_delete_tx_SomeD)
  fix a a'
  assume a: "scoped_get t i d = Inr a" "a_matching_state a \<notin> set DELETION_STATES"
    and d': "a' = a\<lparr>a_matching_state := DELETING, a_delete_cascade_step := Some 1,
                a_index_generation := a_index_generation a + 1,
                a_updated_by := actor, a_updated_at := now\<rparr>"
      "d' = add_revision
           \<lparr>rv_automation_id = i, rv_action = DELETE, rv_git_sha = None,
            rv_resulting_digest = a_active_digest a, rv_actor = actor, rv_created_at = now\<rparr>
           (put_automation a' d)"
  show ?thesis unfolding d'(2) rows_rel_revisions
    by (rule rows_rel_scoped [OF audited_refl assms(1) a(1)])
      (use scoped_get_InrD(1) [OF a(1)] in \<open>auto simp: audited_def d'(1) cascade_position_def\<close>)
qed

lemma finish_audited:
  assumes "db_ok d" and "finish_edit_tx t i data actor c sha now d = Inr (a', d')"
  shows "rows_rel (audited (new_revisions d d')) d d'"
  using assms(2)
proof (rule finish_edit_tx_InrD)
  fix a
  assume a: "scoped_get t i d = Inr a"
    and a': "a' = a\<lparr>a_name := in_name data, a_namespace := in_namespace data,
                a_triggers := in_triggers data, a_secret_name := in_secret_name data,
                a_cooldown_seconds := in_cooldown_seconds data,
                a_cooldown_fields := in_cooldown_fields data,
                a_timeout_seconds := Some (or_default (in_timeout_seconds data) TIMEOUT_SECONDS_DEFAULT),
                a_grace_seconds := or_default (in_grace_seconds data) GRACE_SECONDS_DEFAULT,
                a_logstash_url := in_logstash_url data, a_building_sha := Some sha,
                a_updated_by := actor, a_updated_at := now\<rparr>"
    and d': "d' = add_revision
           \<lparr>rv_automation_id = i, rv_action = EDIT, rv_git_sha = Some sha,
            rv_resulting_digest = None, rv_actor = actor, rv_created_at = now\<rparr>
           (put_automation a' d)"
  show ?thesis unfolding d' rows_rel_revisions
    by (rule rows_rel_scoped [OF audited_refl assms(1) a])
      (use scoped_get_InrD(1) [OF a] in \<open>auto simp: audited_def a' cascade_position_def\<close>)
qed

lemma claim_audited:
  assumes "db_ok d" and "claim_build_tx t i data deadline now d = Inr (c, d')"
  shows "rows_rel (audited (new_revisions d d')) d d'"
  using assms(2)
  by (rule claim_build_tx_InrD)
    (simp, erule rows_rel_scoped [OF audited_refl assms(1)], simp_all add: audited_def cascade_position_def)

lemma cut_over_audited:
  assumes "cut_over_tx event created now d = Inr (res, Some d')"
  shows "rows_rel (audited (new_revisions d d')) d d'"
  using assms
proof (rule cut_over_tx_SomeD)
  fix a
  assume a: "load (e_automation_id event) d = Inr a" and d': "d' = cut_over_db d a event created now"
  show ?thesis unfolding d' cut_over_db_def rows_rel_revisions
    by (rule rows_rel_load [OF audited_refl a])
      (use load_InrD [OF a] in \<open>auto simp: audited_def cascade_position_def build_revision_def\<close>)
qed

lemma failure_audited:
  assumes "record_failure_tx event now d = Inr (res, Some d')"
  shows "rows_rel (audited (new_revisions d d')) d d'"
  using assms
  by (rule record_failure_tx_SomeD)
    (simp, erule rows_rel_load [OF audited_refl], simp_all add: audited_def cascade_position_def)

lemma checkpoint_audited:
  assumes "(n, ms) \<in> {(1, None), (2, None), (3, None), (4, None), (5, Some DELETED)}"
    and "checkpoint_tx i n ms now d = Inr (won, d')"
  shows "rows_rel (audited (new_revisions d d')) d d'"
proof -
  from assms(2) have d': "d' = update_automations (at_checkpoint i n) (advance n ms now) d"
    by (simp add: checkpoint_tx_def)
  show ?thesis unfolding d'
    by (rule rows_rel_update)
      (use assms(1) in \<open>auto simp: audited_def cascade_position_def at_checkpoint_def advance_def split: if_splits\<close>)
qed

lemma release_audited:
  assumes "claim_ok c" and "release_build_claim_tx c now d = Inr (u, d')"
  shows "rows_rel (audited (new_revisions d d')) d d'"
proof -
  from assms(2) have d': "d' = update_automations
       (\<lambda>r. a_id r = bc_automation_id c \<and> a_build_state r = BUILDING
          \<and> a_build_lock_deadline r = Some (bc_deadline c))
       (\<lambda>r. r\<lparr>a_build_state := bc_previous_build_state c,
              a_building_sha := bc_previous_building_sha c, a_build_lock_deadline := None\<rparr>) d"
    by (simp add: release_build_claim_tx_def)
  show ?thesis unfolding d'
    by (rule rows_rel_update) (use assms(1) in \<open>auto simp: audited_def cascade_position_def claim_ok_def\<close>)
qed

lemma service_step_audited:
  assumes "service_step d d'" and "db_ok d"
  shows "rows_rel (audited (new_revisions d d')) d d'"
  using assms(1)
proof cases
  case step_create
  then show ?thesis by (blast intro: create_rows audited_refl)
next
  case step_toggle
  from toggle_audited [OF step_toggle(1) assms(2) step_toggle(2)] show ?thesis .
next
  case step_checkpoint
  from checkpoint_audited [OF this] show ?thesis .
next
  case step_complete_run
  then show ?thesis by (intro rows_rel_same) (auto simp: complete_run_tx_def table_simps)
qed (use assms(2) in \<open>blast intro: claim_audited release_audited finish_audited cut_over_audited
      failure_audited begin_delete_audited\<close>)+

text \<open>C25. No transition escapes the audit trail: after any single transaction of the service,
  every row is still there, and if its matching state changed, the transaction appended a
  revision of that automation with the matching action and actor (only the final
  deleting-to-deleted step is covered by the delete that began it); if its image changed, one
  that names the new digest, by the build actor; if a new build was requested, the edit with
  its commit. A deletion advances by at most one checkpoint.\<close>

theorem every_transition_is_audited:
  assumes "db_ok d" and "service_step d d'" and "find_automation d i = Some a"
  shows "\<exists>a'. find_automation d' i = Some a' \<and> audited (new_revisions d d') a a'"
  using service_step_audited [OF assms(2,1)] assms(3) by (rule rows_relD) blast

theorem every_transition_is_audited_witness:
  "\<exists>a' d'. service_step (sample_db (sample_row INACTIVE IDLE None None None)) d'
     \<and> find_automation d' sample_id = Some a' \<and> a_matching_state a' = ACTIVE
     \<and> audited (new_revisions (sample_db (sample_row INACTIVE IDLE None None None)) d')
         (sample_row INACTIVE IDLE None None None) a'"
proof -
  let ?d = "sample_db (sample_row INACTIVE IDLE None None None)"
  have "\<not> blank sample_image" by (rule digest_ref_not_blank [OF sample_image_digest])
  then obtain a' d' where t: "toggle_tx (str ''acme'') sample_id (str ''bob'') ACTIVE ENABLE 100 ?d = Inr (a', d')"
      "find_automation d' sample_id = Some a'" "a_matching_state a' = ACTIVE"
    by (auto simp: toggle_tx_def scoped_get_def find_automation_def table_simps Let_def put_automation_def
        update_where_def)
  then have step: "service_step ?d d'" by (intro step_toggle [where target = ACTIVE and action = ENABLE]) auto
  from every_transition_is_audited [OF sample_db_ok this, of sample_id "sample_row INACTIVE IDLE None None None"]
    t step show ?thesis by (auto simp: find_automation_def)
qed

end
