(* ===== verification/Isolation.thy ===== *)
theory Isolation
  imports Service
begin

text \<open>
  Tenants. \<open>isolated t\<close> relates two databases when only tenant \<open>t\<close>'s automations have changed;
  it is what a request of a user of \<open>t\<close> guarantees, relying on no more than the same from the
  requests around it. \<open>low t\<close> relates two worlds a user of \<open>t\<close> cannot tell apart; a request of
  theirs gets the same answer in both.
\<close>

section \<open>What a tenant's requests may write\<close>

abbreviation keyed :: "database \<Rightarrow> bool" where
  "keyed d \<equiv> distinct (map a_id (automations d))"

definition own :: "pystr \<Rightarrow> uuid \<Rightarrow> database \<Rightarrow> bool" where
  "own t i d \<longleftrightarrow> (\<exists>a. find_automation d i = Some a \<and> a_tenant_id a = t)"

definition history_of :: "uuid \<Rightarrow> database \<Rightarrow> automation_revision list" where
  "history_of i d = filter (\<lambda>r. rv_automation_id r = i) (revisions d)"

definition isolated :: "pystr \<Rightarrow> database \<Rightarrow> database \<Rightarrow> bool" where
  "isolated t d d' \<longleftrightarrow> (keyed d \<longrightarrow> keyed d'
     \<and> (\<forall>i a. find_automation d i = Some a \<longrightarrow> a_tenant_id a \<noteq> t \<longrightarrow>
          find_automation d' i = Some a \<and> history_of i d' = history_of i d)
     \<and> (\<forall>i. own t i d \<longrightarrow> own t i d')
     \<and> (\<forall>i. find_automation d i = None \<longrightarrow> find_automation d' i = None \<or> own t i d'))"

lemma isolated_refl: "isolated t d d"
  by (simp add: isolated_def)

lemma isolated_trans: "isolated t d d' \<Longrightarrow> isolated t d' d'' \<Longrightarrow> isolated t d d''"
  unfolding isolated_def by (auto; metis)

lemma history_of_simps [simp]:
  "history_of i (put_automation a d) = history_of i d"
  "history_of i (update_automations p f d) = history_of i d"
  "rv_automation_id r \<noteq> i \<Longrightarrow> history_of i (add_revision r d) = history_of i d"
  by (simp_all add: history_of_def table_simps)

lemma isolated_put:
  assumes "own t (a_id a') d" and "a_tenant_id a' = t"
  shows "isolated t d (put_automation a' d)"
  using assms by (auto simp: isolated_def own_def table_simps)

lemma isolated_put_audit:
  assumes "own t (a_id a') d" and "a_tenant_id a' = t" and "rv_automation_id r = a_id a'"
  shows "isolated t d (add_revision r (put_automation a' d))"
  using assms by (auto simp: isolated_def own_def table_simps)

lemma isolated_update:
  assumes "own t i d" and "\<And>a. p a \<Longrightarrow> a_id a = i" and "\<And>a. a_id (f a) = a_id a"
    and "\<And>a. a_tenant_id (f a) = a_tenant_id a"
  shows "isolated t d (update_automations p f d)"
proof -
  have find: "find_automation (update_automations p f d) j = map_option (\<lambda>r. if p r then f r else r) (find_automation d j)"
    for j using atab.get_upd [OF assms(3)] .
  have own: "own t j (update_automations p f d) \<longleftrightarrow> own t j d" for j
    using assms(4) by (cases "find_automation d j") (auto simp: own_def find)
  have other: "\<not> p a" if "find_automation d j = Some a" and "a_tenant_id a \<noteq> t" for j a
    using that assms(1,2) atab.get_key [OF that(1)] by (auto simp: own_def)
  have "map a_id (automations (update_automations p f d)) = map a_id (automations d)"
    by (rule atab.keys_upd [OF assms(3)])
  with other show ?thesis by (simp add: isolated_def own find)
qed

lemma scoped_own:
  assumes "keyed d" and "scoped_get t i d = Inr a"
  shows "own t i d" and "a_id a = i" and "a_tenant_id a = t"
  using assms scoped_get_InrD [OF assms(2)] atab.get_of_row [OF assms(1), of a] by (auto simp: own_def)

lemma own_put [simp]: "own t i d \<Longrightarrow> a_tenant_id a = t \<Longrightarrow> own t i (put_automation a d)"
  by (auto simp: own_def table_simps)

lemma create_isolated:
  assumes "create_tx i t data actor sha deadline now d = Inr (a, d')"
  shows "isolated t d d'"
  using assms
proof (rule create_tx_InrD)
  fix d1
  assume a: "a = new_automation i t data actor sha deadline now" and ins: "insert_automation a d = Inr d1"
    and d': "d' = add_revision \<lparr>rv_automation_id = i, rv_action = CREATE, rv_git_sha = Some sha,
                rv_resulting_digest = None, rv_actor = actor, rv_created_at = now\<rparr> d1"
  have new: "find_automation d (a_id a) = None" "a_id a = i" "a_tenant_id a = t"
    using insert_automation_InrD(2) [OF ins] by (simp_all add: atab.get_None_iff a new_automation_def)
  have d1: "revisions d1 = revisions d" "automations d1 = automations d @ [a]"
    using insert_automation_InrD(1) [OF ins] by simp_all
  have "history_of j d' = history_of j d" if "j \<noteq> i" for j
    using that by (simp add: history_of_def d' d1 table_simps)
  moreover have "keyed d \<Longrightarrow> keyed d'"
    using new(1) by (auto simp: d' d1 table_simps find_automation_def find_None_iff)
  ultimately show ?thesis
    using new by (auto simp: isolated_def own_def d' table_simps find_insert_automation [OF ins])
qed

lemma claim_isolated:
  assumes "keyed d" and "claim_build_tx t i data deadline now d = Inr (c, d')"
  shows "isolated t d d' \<and> own t (bc_automation_id c) d'"
  using assms(2)
proof (rule claim_build_tx_InrD)
  fix a
  assume a: "scoped_get t i d = Inr a"
    and c: "c = \<lparr>bc_automation_id = a_id a, bc_script_path = a_script_path a,
                  bc_deadline = deadline, bc_previous_build_state = a_build_state a,
                  bc_previous_building_sha = a_building_sha a\<rparr>"
    and d': "d' = put_automation (a\<lparr>a_build_state := BUILDING, a_build_lock_deadline := Some deadline,
                                a_building_sha := None\<rparr>) d"
  note own = scoped_own [OF assms(1) a]
  then show ?thesis by (simp add: c d' isolated_put)
qed

lemma scoped_audit_isolated:
  assumes "keyed d" and "scoped_get t i d = Inr a" and "a_id a' = a_id a" and "a_tenant_id a' = a_tenant_id a"
    and "rv_automation_id r = i" and "d' = add_revision r (put_automation a' d)"
  shows "isolated t d d'"
  unfolding assms(6) by (rule isolated_put_audit) (use scoped_own [OF assms(1,2)] assms(3-5) in auto)

lemma finish_isolated:
  assumes "keyed d" and "finish_edit_tx t i data actor c sha now d = Inr (a', d')"
  shows "isolated t d d'"
  using assms(2)
  by (rule finish_edit_tx_InrD) (erule scoped_audit_isolated [OF assms(1)], simp_all)

lemma toggle_isolated:
  assumes "keyed d" and "toggle_tx t i actor target action now d = Inr (a', d')"
  shows "isolated t d d'"
  using assms(2)
  by (rule toggle_tx_InrD) (erule scoped_audit_isolated [OF assms(1)], simp_all)

lemma begin_delete_isolated:
  assumes "keyed d" and "begin_delete_tx t i actor now d = Inr (adm, Some d')"
  shows "isolated t d d'"
  using assms(2)
  by (rule begin_delete_tx_SomeD) (erule scoped_audit_isolated [OF assms(1)], simp_all)

lemma begin_delete_own:
  assumes "keyed d" and "begin_delete_tx t i actor now d = Inr (adm, d')"
  shows "own t i d \<and> a_id (da_automation adm) = i"
proof -
  from assms(2) obtain a where a: "scoped_get t i d = Inr a"
    by (auto simp: begin_delete_tx_def split: sum.splits)
  from assms(2) a have "a_id (da_automation adm) = a_id a"
    by (auto simp: begin_delete_tx_def Let_def split: if_splits)
  with scoped_own [OF assms(1) a] show ?thesis by simp
qed

section \<open>The requests of a tenant\<close>

interpretation iso: serving "isolated t" keyed for t
proof unfold_locales
  show "isolated t d d' \<Longrightarrow> isolated t d' d'' \<Longrightarrow> isolated t d d''" for d d' d'' by (rule isolated_trans)
qed (auto simp: isolated_refl stable_def isolated_def)

text \<open>In an automation of the tenant, the cascade's checkpoints are writes of the tenant.\<close>

interpretation iso_own: cascade_rely "isolated t" "\<lambda>d. keyed d \<and> own t i d" "\<lambda>j. j = i" for t i
proof unfold_locales
  show "stable (isolated t) (\<lambda>d. keyed d \<and> own t i d)" by (auto simp: stable_def isolated_def)
  show "isolated t d d'" if "j = i" "keyed d \<and> own t i d"
      "checkpoint_tx j n ms now d = Inr (won, d')" for j d n ms now won d'
    using that by (auto simp: checkpoint_tx_def at_checkpoint_def advance_def intro!: isolated_update)
qed

lemma serves_own_then:
  assumes "io_spec (isolated t) keyed m (\<lambda>a d. keyed d \<and> own t (f a) d)"
    and "\<And>a. serves (isolated t) (\<lambda>d. keyed d \<and> own t (f a) d) (k a) (\<lambda>_. True)"
  shows "serves (isolated t) keyed (io_bind m k) (\<lambda>_. True)"
  unfolding serves_def
  by (rule iso.spec_bind [OF assms(1)], rule io_spec_weaken [OF assms(2) [unfolded serves_def]]) simp_all

lemma release_serves:
  "serves (isolated t) (\<lambda>d. keyed d \<and> own t (bc_automation_id c) d) (release_build_claim c) (\<lambda>_. True)"
  unfolding release_build_claim_def
  by (intro iso_own.serves_rules iso_own.serves_session)
    (auto simp: release_build_claim_tx_def intro!: isolated_update)

lemma claim_serves:
  "io_spec (isolated t) keyed (claim_build ts t i data) (\<lambda>c d. keyed d \<and> own t (bc_automation_id c) d)"
  unfolding claim_build_def
proof (rule iso.spec_bind [where Q = "\<lambda>_. keyed"])
  show "io_spec (isolated t) keyed io_now (\<lambda>_. keyed)" by (rule iso.spec_now)
  show "io_spec (isolated t) keyed (get_session True (claim_build_tx t i data (build_lock_deadline ts c)))
      (\<lambda>c d. keyed d \<and> own t (bc_automation_id c) d)" for c
    by (rule iso.spec_session [OF iso.P_stable], rule tx_specI)
      (use claim_isolated in \<open>blast intro: iso.P_keep\<close>)
qed

lemma update_serves: "serves (isolated t) keyed (update_automation env ts git t i data actor) (\<lambda>_. True)"
  unfolding update_automation_def
proof (rule iso.serves_then)
  show "serves (isolated t) keyed (io_lift (validated env data)) (\<lambda>_. True)" by (rule iso.serves_lift) simp
  show "serves (isolated t) keyed (io_bind (claim_build ts t i data) (\<lambda>claim.
     io_bind
       (io_catch
          (io_call (GitCommit (bc_script_path claim))
             (g_commit_script git (bc_script_path claim) (in_script data)
                (str ''edit '' @ in_name data @ str '' ('' @ uuid_str i @ str '')'')))
          (\<lambda>e. io_bind (release_build_claim claim) (\<lambda>_. io_raise e))) (\<lambda>git_sha.
     get_session True (finish_edit_tx t i data actor claim git_sha)))) (\<lambda>_. True)"
    by (rule serves_own_then [OF claim_serves],
        intro iso_own.serves_then iso_own.serves_rules release_serves iso_own.serves_session)
      (blast intro: finish_isolated)
qed

lemma create_serves: "serves (isolated t) keyed (create_automation env ts git i t data actor) (\<lambda>_. True)"
  unfolding create_automation_def
  by (intro iso.serves_then iso.serves_lift iso.serves_rules iso.serves_session) (auto intro: create_isolated)

lemma toggle_serves: "serves (isolated t) keyed (toggle t i actor target action) (\<lambda>_. True)"
  unfolding toggle_def
  by (intro iso.serves_then iso.serves_rules iso.serves_session) (auto intro: toggle_isolated)

lemma read_serves:
  "serves (isolated t) keyed (list_automations t' ns ms bs) (\<lambda>_. True)"
  "serves (isolated t) keyed (get_automation git t' i) (\<lambda>_. True)"
  unfolding list_automations_def get_automation_def
  by (intro iso.serves_then iso.serves_rules iso.serves_read; simp)+

lemma begin_delete_serves:
  "io_spec (isolated t) keyed (begin_delete t i actor)
     (\<lambda>adm d. keyed d \<and> own t (a_id (da_automation adm)) d)"
  unfolding begin_delete_def
proof (rule iso.spec_bind)
  show "io_spec (isolated t) keyed (get_session_opt True (begin_delete_tx t i actor))
      (\<lambda>adm d. keyed d \<and> own t (a_id (da_automation adm)) d)"
  proof (rule iso.spec_session_opt [OF iso.P_stable])
    fix now d adm d'
    assume d: "keyed d" and tx: "begin_delete_tx t i actor now d = Inr (adm, d')"
    note own = begin_delete_own [OF d tx]
    show "case d' of None \<Rightarrow> keyed d \<and> own t (a_id (da_automation adm)) d
        | Some d'' \<Rightarrow> isolated t d d'' \<and> keyed d'' \<and> own t (a_id (da_automation adm)) d''"
    proof (cases d')
      case (Some d'')
      with begin_delete_isolated [OF d] tx have "isolated t d d''" by blast
      with Some d own show ?thesis by (auto simp: isolated_def)
    qed (use d own in simp)
  qed
  show "io_spec (isolated t) (\<lambda>d. keyed d \<and> own t (a_id (da_automation r)) d)
      (if \<not> da_started r then io_return r else io_bind (io_log PublishReload) (\<lambda>_. io_return r))
      (\<lambda>adm d. keyed d \<and> own t (a_id (da_automation adm)) d)" for r
    by (intro iso.spec_if iso.spec_return iso.spec_bind [OF iso.spec_log])
qed

text \<open>The tenant a request speaks for; a webhook speaks for none.\<close>

fun request_tenant :: "request \<Rightarrow> pystr option" where
  "request_tenant (ReqList e ns ms bs) = Some (en_tenant_id e)"
| "request_tenant (ReqCreate e data fresh) = Some (en_tenant_id e)"
| "request_tenant (ReqGet e i) = Some (en_tenant_id e)"
| "request_tenant (ReqUpdate e i data) = Some (en_tenant_id e)"
| "request_tenant (ReqEnable e i) = Some (en_tenant_id e)"
| "request_tenant (ReqDisable e i) = Some (en_tenant_id e)"
| "request_tenant (ReqDelete e i) = Some (en_tenant_id e)"
| "request_tenant (ReqWebhook i sha st img v) = None"

lemma delete_route_serves:
  "serves (isolated (en_tenant_id e)) keyed (delete_automation_route auth deps e i) (\<lambda>_. True)"
  unfolding delete_automation_route_def Let_def
  by (rule iso.serves_then [OF iso.serves_lift], simp, rule serves_own_then [OF begin_delete_serves],
      intro iso_own.serves_then iso_own.serves_if iso_own.serves_background iso_own.serves_return) simp_all

lemma get_route_serves:
  "serves (isolated t) keyed (get_automation_route git e i) (\<lambda>_. True)"
proof -
  have "serves (isolated t) keyed (case p of (a, script) \<Rightarrow> io_return (response_of 200 (DetailBody (detail a script)))) (\<lambda>_. True)"
    for p by (cases p) (simp add: iso.serves_return)
  then show ?thesis unfolding get_automation_route_def by (intro iso.serves_then read_serves)
qed

lemma user_route_serves:
  assumes "request_tenant req = Some t"
  shows "serves (isolated t) keyed (route s req) (\<lambda>_. True)"
  using assms
  by (cases req)
    (auto simp: list_automations_route_def create_automation_route_def update_automation_route_def
      enable_automation_route_def disable_automation_route_def enable_automation_def disable_automation_def
      intro!: iso.serves_then iso.serves_return iso.serves_lift read_serves create_serves update_serves
        toggle_serves delete_route_serves get_route_serves)

lemma user_request_serves:
  assumes "request_tenant req = Some t"
  shows "serves (isolated t) keyed (serve s req) (\<lambda>_. True)"
  unfolding serve_def handled_def
  by (intro iso.serves_catch user_route_serves [OF assms] iso.serves_return TrueI)

text \<open>C11. Tenants are isolated from each other's writes: a request of a user of one tenant leaves
  every automation of every other tenant as it was, with its audit trail, and creates rows for
  its own tenant only, whatever the request is, including an edit that fails half-way and the
  cascade that a delete starts, and whatever other requests of the same tenant run around it.\<close>

theorem tenant_writes_are_isolated:
  assumes "request_tenant req = Some t" and "env_rely (isolated t) w"
    and "distinct (map a_id (automations (w_db w)))" and "serve s req w = (r, w')"
  shows "(\<forall>i a. find_automation (w_db w) i = Some a \<and> a_tenant_id a \<noteq> t \<longrightarrow>
            find_automation (w_db w') i = Some a \<and> history_of i (w_db w') = history_of i (w_db w))
    \<and> (\<forall>i a. find_automation (w_db w) i = None \<and> find_automation (w_db w') i = Some a \<longrightarrow> a_tenant_id a = t)"
proof -
  have iso: "isolated t (w_db w) (w_db w')"
    by (rule servesD(1) [OF user_request_serves [OF assms(1)] assms(2-4)])
  have "a_tenant_id a = t" if "find_automation (w_db w) i = None" and "find_automation (w_db w') i = Some a" for i a
  proof -
    have "find_automation (w_db w') i = None \<or> own t i (w_db w')"
      using iso assms(3) that(1) by (simp add: isolated_def)
    with that(2) show ?thesis by (simp add: own_def)
  qed
  with iso assms(3) show ?thesis unfolding isolated_def by blast
qed

theorem tenant_writes_are_isolated_witness:
  "find_automation (w_db (snd (serve sample_service (ReqDelete (sample_user (str ''evil'')) sample_id)
     (sample_world [] 0 (sample_row ACTIVE IDLE None None None))))) sample_id
   = Some (sample_row ACTIVE IDLE None None None)"
proof -
  let ?w = "sample_world [] (0::nat) (sample_row ACTIVE IDLE None None None)"
    and ?req = "ReqDelete (sample_user (str ''evil'')) sample_id"
  obtain r w' where run: "serve sample_service ?req ?w = (r, w')" by fastforce
  have row: "find_automation (w_db ?w) sample_id = Some (sample_row ACTIVE IDLE None None None)"
      "a_tenant_id (sample_row ACTIVE IDLE None None None) \<noteq> str ''evil''"
    by (simp_all add: find_automation_def)
  have "request_tenant ?req = Some (str ''evil'')" "env_rely (isolated (str ''evil'')) ?w"
    "distinct (map a_id (automations (w_db ?w)))"
    by (simp_all add: sample_user_def)
  from tenant_writes_are_isolated [OF this run, THEN conjunct1, rule_format, OF conjI [OF row]]
  have "find_automation (w_db w') sample_id = Some (sample_row ACTIVE IDLE None None None)" by (rule conjunct1)
  then show ?thesis by (simp only: run snd_conv)
qed

section \<open>What a tenant's requests may learn\<close>

definition tenant_rows :: "pystr \<Rightarrow> database \<Rightarrow> automation list" where
  "tenant_rows t d = filter (\<lambda>a. a_tenant_id a = t) (automations d)"

text \<open>Two databases that hold the same automations of the tenant, in the same order.\<close>

definition same_for :: "pystr \<Rightarrow> database \<Rightarrow> database \<Rightarrow> bool" where
  "same_for t d d' \<longleftrightarrow> keyed d \<and> keyed d' \<and> tenant_rows t d = tenant_rows t d'"

text \<open>Two worlds that differ in the database only, and there only in what is not the tenant's,
  and stay so whatever the other requests do.\<close>

definition low :: "pystr \<Rightarrow> 'x world \<Rightarrow> 'x world \<Rightarrow> bool" where
  "low t w v \<longleftrightarrow> same_for t (w_db w) (w_db v) \<and> w_clock w = w_clock v \<and> w_env w = w_env v
     \<and> w_ext w = w_ext v \<and> w_trace w = w_trace v
     \<and> (\<forall>e \<in> set (w_env w). \<forall>d d'. same_for t d d' \<longrightarrow> same_for t (se_interfere e d) (se_interfere e d'))"

definition blind :: "pystr \<Rightarrow> ('x, 'a) io \<Rightarrow> bool" where
  "blind t m \<longleftrightarrow> (\<forall>w v. low t w v \<longrightarrow> fst (m w) = fst (m v) \<and> low t (snd (m w)) (snd (m v)))"

lemma blindD:
  assumes "blind t m" and "low t w v" and "m w = (r, w')" and "m v = (r', v')"
  shows "r' = r" and "low t w' v'"
  using assms unfolding blind_def by (metis fst_conv, metis snd_conv)

lemma blindI:
  assumes "\<And>w v r w' r' v'. low t w v \<Longrightarrow> m w = (r, w') \<Longrightarrow> m v = (r', v') \<Longrightarrow> r = r' \<and> low t w' v'"
  shows "blind t m"
  unfolding blind_def using assms by (meson surjective_pairing)

lemma blind_pure: "blind t (io_return a)" "blind t (io_raise e)" "blind t (io_lift r)"
  by (simp_all add: blind_def io_defs)

lemma blind_now: "blind t io_now"
  by (simp add: blind_def io_defs low_def)

lemma blind_log: "blind t (io_log ef)"
  by (simp add: blind_def io_defs low_def)

lemma blind_call: "blind t (io_call c f)"
  by (auto simp: blind_def io_defs low_def split: prod.splits)

lemma blind_bind:
  assumes "blind t m" and "\<And>a. blind t (k a)"
  shows "blind t (io_bind m k)"
proof (rule blindI)
  fix w v r w' r' v'
  assume low: "low t w v" and run: "io_bind m k w = (r, w')" "io_bind m k v = (r', v')"
  obtain q w1 q' v1 where m: "m w = (q, w1)" "m v = (q', v1)" by fastforce
  note eq = blindD [OF assms(1) low m]
  show "r = r' \<and> low t w' v'"
  proof (cases q)
    case (Inl e)
    with m eq run show ?thesis by (auto simp: io_bind_def)
  next
    case (Inr a)
    with m eq run have "k a w1 = (r, w')" "k a v1 = (r', v')" by (auto simp: io_bind_def)
    from blindD [OF assms(2) eq(2) this] show ?thesis by simp
  qed
qed

lemma blind_catch:
  assumes "blind t m" and "\<And>e. blind t (h e)"
  shows "blind t (io_catch m h)"
proof (rule blindI)
  fix w v r w' r' v'
  assume low: "low t w v" and run: "io_catch m h w = (r, w')" "io_catch m h v = (r', v')"
  obtain q w1 q' v1 where m: "m w = (q, w1)" "m v = (q', v1)" by fastforce
  note eq = blindD [OF assms(1) low m]
  show "r = r' \<and> low t w' v'"
  proof (cases q)
    case (Inr a)
    with m eq run show ?thesis by (auto simp: io_catch_def)
  next
    case (Inl e)
    with m eq run have "h e w1 = (r, w')" "h e v1 = (r', v')" by (auto simp: io_catch_def)
    from blindD [OF assms(2) eq(2) this] show ?thesis by simp
  qed
qed

definition tx_blind :: "pystr \<Rightarrow> 'a tx \<Rightarrow> bool" where
  "tx_blind t tx \<longleftrightarrow> (\<forall>now d d'. same_for t d d' \<longrightarrow>
     rel_sum (=) (rel_prod (=) (same_for t)) (tx now d) (tx now d'))"

lemma begin_session_low:
  assumes "low t w v" and "begin_session w = (oc, w1)" and "begin_session v = (oc', v1)"
  shows "oc' = oc \<and> low t w1 v1"
  using assms by (auto simp: begin_session_def low_def split: list.splits)

lemma low_commit:
  "low t w v \<Longrightarrow> same_for t d d' \<Longrightarrow>
     low t (w\<lparr>w_db := d, w_trace := w_trace w @ [ef]\<rparr>) (v\<lparr>w_db := d', w_trace := w_trace v @ [ef]\<rparr>)"
  by (simp add: low_def)

lemma lowD: "low t w v \<Longrightarrow> same_for t (w_db w) (w_db v)" "low t w v \<Longrightarrow> w_clock v = w_clock w"
  by (simp_all add: low_def)

lemma blind_session:
  assumes "tx_blind t tx"
  shows "blind t (get_session lock tx)"
proof (rule blindI)
  fix w v r w' r' v'
  assume low: "low t w v" and run: "get_session lock tx w = (r, w')" "get_session lock tx v = (r', v')"
  obtain oc w1 oc' v1 where b: "begin_session w = (oc, w1)" "begin_session v = (oc', v1)" by fastforce
  note eq = begin_session_low [OF low b]
  have "rel_sum (=) (rel_prod (=) (same_for t)) (tx (w_clock w1) (w_db w1)) (tx (w_clock w1) (w_db v1))"
    using assms eq lowD(1) unfolding tx_blind_def by blast
  then show "r = r' \<and> low t w' v'"
    using run b eq lowD(2) [of t w1 v1]
    by (cases "tx (w_clock w1) (w_db w1)"; cases "tx (w_clock w1) (w_db v1)")
      (auto simp: get_session_def low_commit split: session_outcome.splits)
qed

lemma blind_session_opt:
  assumes "\<And>now d d'. same_for t d d' \<Longrightarrow>
     rel_sum (=) (rel_prod (=) (rel_option (same_for t))) (tx now d) (tx now d')"
  shows "blind t (get_session_opt lock tx)"
proof (rule blindI)
  fix w v r w' r' v'
  assume low: "low t w v" and run: "get_session_opt lock tx w = (r, w')" "get_session_opt lock tx v = (r', v')"
  obtain oc w1 oc' v1 where b: "begin_session w = (oc, w1)" "begin_session v = (oc', v1)" by fastforce
  note eq = begin_session_low [OF low b]
  have "rel_sum (=) (rel_prod (=) (rel_option (same_for t)))
      (tx (w_clock w1) (w_db w1)) (tx (w_clock w1) (w_db v1))"
    using assms eq lowD(1) by blast
  then show "r = r' \<and> low t w' v'"
    using run b eq lowD(2) [of t w1 v1]
    by (cases "tx (w_clock w1) (w_db w1)"; cases "tx (w_clock w1) (w_db v1)")
      (auto simp: get_session_opt_def low_commit split: session_outcome.splits option.splits)
qed

lemma blind_read:
  assumes "\<And>d d'. same_for t d d' \<Longrightarrow> q d = q d'"
  shows "blind t (read_session lock q)"
proof (rule blindI)
  fix w v r w' r' v'
  assume low: "low t w v" and run: "read_session lock q w = (r, w')" "read_session lock q v = (r', v')"
  obtain oc w1 oc' v1 where b: "begin_session w = (oc, w1)" "begin_session v = (oc', v1)" by fastforce
  note eq = begin_session_low [OF low b]
  with assms lowD(1) have "q (w_db w1) = q (w_db v1)" by blast
  with run b eq show "r = r' \<and> low t w' v'" by (auto simp: read_session_def split: session_outcome.splits)
qed

lemmas blind_rules = blind_pure blind_now blind_log blind_call blind_bind blind_catch

section \<open>The transactions see only the tenant's rows\<close>

lemma find_filter: "find p (filter q xs) = find (\<lambda>x. q x \<and> p x) xs"
  by (induction xs) auto

lemma scoped_get_rows:
  "scoped_get t i d =
     (case find (\<lambda>a. a_id a = i) (tenant_rows t d) of None \<Rightarrow> Inl AutomationNotFoundError | Some a \<Rightarrow> Inr a)"
  by (simp add: scoped_get_def tenant_rows_def find_filter conj_commute)

lemma scoped_get_same: "same_for t d d' \<Longrightarrow> scoped_get t i d' = scoped_get t i d"
  by (simp add: scoped_get_rows same_for_def)

lemma list_query_same: "same_for t d d' \<Longrightarrow> list_query t ns ms bs d = list_query t ns ms bs d'"
proof -
  have "filter (\<lambda>a. a_tenant_id a = t \<and> q a) (automations d) = filter q (tenant_rows t d)" for q d
    by (simp add: tenant_rows_def conj_commute)
  then show "same_for t d d' \<Longrightarrow> ?thesis" by (simp add: list_query_def same_for_def)
qed

lemma same_for_revisions [simp]:
  "same_for t (add_revision r d) (add_revision r' d') \<longleftrightarrow> same_for t d d'"
  by (simp add: same_for_def tenant_rows_def table_simps)

lemma filter_map_keep: "(\<And>x. x \<in> set xs \<Longrightarrow> q (g x) = q x) \<Longrightarrow> filter q (map g xs) = map g (filter q xs)"
  by (induction xs) auto

lemma tenant_rows_put:
  assumes "keyed d" and "own t (a_id a') d" and "a_tenant_id a' = t"
  shows "tenant_rows t (put_automation a' d) = update_where (\<lambda>r. a_id r = a_id a') (\<lambda>_. a') (tenant_rows t d)"
proof -
  have "a_tenant_id r = t" if "r \<in> set (automations d)" "a_id r = a_id a'" for r
    using assms(2) that atab.get_of_row [OF assms(1) that(1)] by (auto simp: own_def)
  with assms(3) show ?thesis
    by (auto simp: tenant_rows_def put_automation_def table_simps update_where_def intro!: filter_map_keep
        split: if_splits)
qed

lemma same_for_put:
  assumes "same_for t d d'" and "scoped_get t i d = Inr a" and "a_id a' = a_id a" and "a_tenant_id a' = a_tenant_id a"
  shows "same_for t (put_automation a' d) (put_automation a' d')"
proof -
  have k: "keyed d" "keyed d'" using assms(1) by (simp_all add: same_for_def)
  have "scoped_get t i d' = Inr a" using assms(1,2) by (simp add: scoped_get_same)
  with scoped_own [OF k(1) assms(2)] scoped_own [OF k(2)] assms(3,4) k show ?thesis
    using assms(1) by (simp add: same_for_def tenant_rows_put table_simps)
qed

lemma same_for_update:
  assumes "same_for t d d'" and "\<And>a. a_id (f a) = a_id a" and "\<And>a. a_tenant_id (f a) = a_tenant_id a"
  shows "same_for t (update_automations p f d) (update_automations p f d')"
proof -
  have "tenant_rows t (update_automations p f e) = update_where p f (tenant_rows t e)" for e
    using assms(3) by (auto simp: tenant_rows_def table_simps update_where_def intro!: filter_map_keep)
  with assms(1) atab.keys_upd [of f p, OF assms(2)] show ?thesis by (simp add: same_for_def)
qed

lemma claim_blind: "tx_blind t (claim_build_tx t i data deadline)"
  unfolding tx_blind_def
proof (intro allI impI)
  fix now d d'
  assume same: "same_for t d d'"
  show "rel_sum (=) (rel_prod (=) (same_for t)) (claim_build_tx t i data deadline now d)
      (claim_build_tx t i data deadline now d')"
    using same_for_put [OF same]
    by (cases "scoped_get t i d")
      (auto simp: claim_build_tx_def scoped_get_same [OF same] split: sum.splits)
qed

lemma release_blind: "tx_blind t (release_build_claim_tx c)"
  unfolding tx_blind_def by (auto simp: release_build_claim_tx_def intro!: same_for_update)

lemma finish_blind: "tx_blind t (finish_edit_tx t i data actor c sha)"
  unfolding tx_blind_def
proof (intro allI impI)
  fix now d d'
  assume same: "same_for t d d'"
  show "rel_sum (=) (rel_prod (=) (same_for t)) (finish_edit_tx t i data actor c sha now d)
      (finish_edit_tx t i data actor c sha now d')"
    using same_for_put [OF same]
    by (cases "scoped_get t i d")
      (auto simp: finish_edit_tx_def Let_def scoped_get_same [OF same])
qed

lemma toggle_blind: "tx_blind t (toggle_tx t i actor target action)"
  unfolding tx_blind_def
proof (intro allI impI)
  fix now d d'
  assume same: "same_for t d d'"
  show "rel_sum (=) (rel_prod (=) (same_for t)) (toggle_tx t i actor target action now d)
      (toggle_tx t i actor target action now d')"
    using same_for_put [OF same]
    by (cases "scoped_get t i d")
      (auto simp: toggle_tx_def Let_def scoped_get_same [OF same])
qed

lemma begin_delete_blind:
  assumes "same_for t d d'"
  shows "rel_sum (=) (rel_prod (=) (rel_option (same_for t))) (begin_delete_tx t i actor now d)
      (begin_delete_tx t i actor now d')"
  using same_for_put [OF assms]
  by (cases "scoped_get t i d")
    (auto simp: begin_delete_tx_def Let_def scoped_get_same [OF assms])

section \<open>The answers\<close>

lemma update_blind: "blind t (update_automation env ts git t i data actor)"
  unfolding update_automation_def claim_build_def release_build_claim_def
  by (intro blind_rules blind_session claim_blind release_blind finish_blind)

lemma begin_delete_blind_io: "blind t (begin_delete t i actor)"
  unfolding begin_delete_def
proof (rule blind_bind)
  show "blind t (get_session_opt True (begin_delete_tx t i actor))"
    by (rule blind_session_opt) (rule begin_delete_blind)
  show "blind t (if \<not> da_started r then io_return r else io_bind (io_log PublishReload) (\<lambda>_. io_return r))" for r
    by (cases "da_started r") (simp_all add: blind_rules)
qed

lemma background_returns: "\<exists>w'. run_cascade_in_background deps i w = (Inr (), w')"
  by (auto simp: run_cascade_in_background_def io_catch_def io_return_def split: prod.splits sum.splits)

lemma background_answer:
  "fst (io_bind (run_cascade_in_background deps j) (\<lambda>_. io_return resp) w) = Inr resp"
  "fst (io_bind (io_return ()) (\<lambda>_. io_return resp) w) = Inr resp"
  using background_returns [of deps j w] by (auto simp: io_bind_def io_return_def)

text \<open>The answer to a delete is fixed before its cascade runs.\<close>

lemma delete_route_answer:
  assumes "low (en_tenant_id e) w v"
  shows "fst (delete_automation_route auth deps e i w) = fst (delete_automation_route auth deps e i v)"
proof (cases "require_lifecycle_auth auth e")
  case (Inl err)
  then show ?thesis by (simp add: delete_automation_route_def io_bind_def io_lift_def)
next
  case (Inr u)
  obtain q w1 q' v1 where m: "begin_delete (en_tenant_id e) i (en_email e) w = (q, w1)"
      "begin_delete (en_tenant_id e) i (en_email e) v = (q', v1)" by fastforce
  have "q' = q" by (rule blindD(1) [OF begin_delete_blind_io assms m])
  then show ?thesis using Inr m
    by (cases q) (simp_all add: background_answer delete_automation_route_def io_bind_def [of "io_lift _"] io_lift_def
        io_bind_def [of "begin_delete _ _ _"] Let_def)
qed

lemma handled_answer:
  assumes "fst (m w) = fst (m v)"
  shows "fst (handled m w) = fst (handled m v)"
  using assms by (auto simp: handled_def io_catch_def io_return_def split: prod.splits sum.splits)

lemma blind_answer: "blind t m \<Longrightarrow> low t w v \<Longrightarrow> fst (m w) = fst (m v)"
  by (simp add: blind_def)

lemma read_blind: "blind t (list_automations t ns ms bs)" "blind t (get_automation git t i)"
  unfolding list_automations_def get_automation_def
  by (intro blind_rules blind_read; simp add: list_query_same scoped_get_same)+

lemma toggle_blind_io: "blind t (toggle t i actor target action)"
  unfolding toggle_def by (intro blind_rules blind_session toggle_blind)

lemma user_route_answer:
  assumes "request_tenant req = Some t" and "\<And>e data fresh. req \<noteq> ReqCreate e data fresh" and "low t w v"
  shows "fst (route s req w) = fst (route s req v)"
proof -
  have get: "blind u (get_automation_route git e i)" if "en_tenant_id e = u" for u git e i
  proof -
    have "blind u (case p of (a, script) \<Rightarrow> io_return (response_of 200 (DetailBody (detail a script))))" for p
      by (cases p) (simp add: blind_rules)
    with that show ?thesis unfolding get_automation_route_def by (intro blind_bind) (auto intro: read_blind)
  qed
  have "blind t (route s req)" if "\<And>e i. req \<noteq> ReqDelete e i"
    using assms(1,2) that
    by (cases req)
      (auto simp: list_automations_route_def update_automation_route_def enable_automation_route_def
        disable_automation_route_def enable_automation_def disable_automation_def
        intro!: blind_rules read_blind update_blind toggle_blind_io get)
  moreover have "fst (route s req w) = fst (route s req v)" if "req = ReqDelete e i" for e i
    using assms(1,3) that delete_route_answer by auto
  ultimately show ?thesis using assms(3) blind_answer by blast
qed

text \<open>C12. Tenants learn nothing of each other: the answer to a request about existing automations
  depends on the automations of the user's own tenant only. In two worlds that hold the same
  rows of that tenant and differ in any rows of the others, in any audit trails and in any runs,
  the response is the same; in particular another tenant's automation cannot be told from one
  that does not exist.\<close>

theorem tenant_answers_are_blind:
  assumes "request_tenant req = Some t" and "\<And>e data fresh. req \<noteq> ReqCreate e data fresh" and "low t w v"
  shows "fst (serve s req w) = fst (serve s req v)"
  unfolding serve_def by (rule handled_answer) (rule user_route_answer [OF assms])

theorem tenant_answers_are_blind_witness:
  "fst (serve sample_service (ReqGet (sample_user (str ''evil'')) sample_id)
      (sample_world [] 0 (sample_row ACTIVE IDLE None None None)))
   = fst (serve sample_service (ReqGet (sample_user (str ''evil'')) sample_id)
      ((sample_world [] 0 (sample_row ACTIVE IDLE None None None))
        \<lparr>w_db := \<lparr>automations = [], revisions = [], runs = [], tenants = []\<rparr>\<rparr>))"
  by (rule tenant_answers_are_blind [where t = "str ''evil''"])
    (simp_all add: sample_user_def low_def same_for_def tenant_rows_def)

end
