(* ===== verification/Pytext.thy ===== *)
theory Pytext
  imports Pylib
begin

text \<open>
  Text conversions of Python 3.12 the service uses on headers, settings and request paths:
  \<open>int(s)\<close>, \<open>float(s)\<close>, \<open>urllib.parse.quote\<close> and \<open>base64.b64encode\<close>. A \<open>ValueError\<close> is
  \<open>None\<close>. A float is NaN, an infinity or an integer times a power of two, rounded from its
  decimal literal as IEEE binary64 rounds (to nearest, ties to even). The decimal value of a code
  point beyond ASCII is a parameter, like the other Unicode tables.
\<close>

record text_tables = unicode_tables +
  u_upper :: "pystr \<Rightarrow> pystr"
  u_decimal :: "nat \<Rightarrow> nat option"

section \<open>Numbers from text\<close>

text \<open>\<open>_PyUnicode_TransformDecimalAndSpaceToASCII\<close>: an ASCII string is left as it is; otherwise
  whitespace becomes a space, a decimal digit its ASCII form, and anything else is no number.\<close>

definition ascii_char :: "(nat \<Rightarrow> nat option) \<Rightarrow> nat \<Rightarrow> nat option" where
  "ascii_char decimal c =
     (if c < 127 then Some c else if is_space c then Some 32
      else map_option (\<lambda>d. 48 + d) (decimal c))"

fun map_all :: "('a \<Rightarrow> 'b option) \<Rightarrow> 'a list \<Rightarrow> 'b list option" where
  "map_all f [] = Some []"
| "map_all f (x # xs) =
     (case f x of None \<Rightarrow> None | Some y \<Rightarrow> map_option (\<lambda>ys. y # ys) (map_all f xs))"

definition to_ascii :: "(nat \<Rightarrow> nat option) \<Rightarrow> pystr \<Rightarrow> pystr option" where
  "to_ascii decimal s = (if list_all (\<lambda>c. c < 128) s then Some s else map_all (ascii_char decimal) s)"

text \<open>C's \<open>isspace\<close>, which the number parsers strip.\<close>

definition c_space :: "nat \<Rightarrow> bool" where
  "c_space c \<longleftrightarrow> (9 \<le> c \<and> c \<le> 13) \<or> c = 32"

definition c_strip :: "pystr \<Rightarrow> pystr" where
  "c_strip s = rev (dropWhile c_space (rev (dropWhile c_space s)))"

definition take_sign :: "pystr \<Rightarrow> bool \<times> pystr" where
  "take_sign s =
     (case s of [] \<Rightarrow> (False, [])
      | c # cs \<Rightarrow> if c = 45 then (True, cs) else if c = 43 then (False, cs) else (False, s))"

text \<open>Underscores may stand between two digits only; the second argument tells whether the
  previous character was a digit.\<close>

fun drop_underscores :: "bool \<Rightarrow> pystr \<Rightarrow> pystr option" where
  "drop_underscores digit [] = Some []"
| "drop_underscores digit (c # cs) =
     (if c = 95
      then (if digit \<and> cs \<noteq> [] \<and> is_ascii_digit (hd cs) then drop_underscores False cs else None)
      else map_option (\<lambda>r. c # r) (drop_underscores (is_ascii_digit c) cs))"

definition MAX_STR_DIGITS :: nat where "MAX_STR_DIGITS = 4300"

definition digits_value :: "pystr \<Rightarrow> nat option" where
  "digits_value s =
     (case drop_underscores False s of
        None \<Rightarrow> None
      | Some ds \<Rightarrow> if ds = [] \<or> \<not> list_all is_ascii_digit ds \<or> MAX_STR_DIGITS < length ds then None
                  else Some (int_of_digits 10 ds))"

definition py_int :: "(nat \<Rightarrow> nat option) \<Rightarrow> pystr \<Rightarrow> int option" where
  "py_int decimal s =
     Option.bind (to_ascii decimal s) (\<lambda>a.
       case take_sign (c_strip a) of (negative, ds) \<Rightarrow>
         map_option (\<lambda>n. if negative then - int n else int n) (digits_value ds))"

datatype pyfloat = PyNaN | PyInf bool | PyFloat int int

text \<open>\<open>PyFloat m e\<close> is the number \<open>m * 2 ^ e\<close>.\<close>

definition isfinite :: "pyfloat \<Rightarrow> bool" where
  "isfinite x = (case x of PyFloat _ _ \<Rightarrow> True | _ \<Rightarrow> False)"

definition py_float_le_zero :: "pyfloat \<Rightarrow> bool" where
  "py_float_le_zero x = (case x of PyNaN \<Rightarrow> False | PyInf negative \<Rightarrow> negative | PyFloat m _ \<Rightarrow> m \<le> 0)"

fun bit_length :: "nat \<Rightarrow> nat" where
  "bit_length n = (if n = 0 then 0 else Suc (bit_length (n div 2)))"

declare bit_length.simps [simp del]

definition round_half_even :: "nat \<Rightarrow> nat \<Rightarrow> nat" where
  "round_half_even n d =
     (let q = n div d; r = n mod d
      in if 2 * r < d \<or> (2 * r = d \<and> even q) then q else q + 1)"

text \<open>\<open>scaled n d e\<close>: the fraction \<open>n / (d * 2 ^ e)\<close>.\<close>

definition scaled :: "nat \<Rightarrow> nat \<Rightarrow> int \<Rightarrow> nat \<times> nat" where
  "scaled n d e = (if 0 \<le> e then (n, d * 2 ^ nat e) else (n * 2 ^ nat (- e), d))"

definition binary_exponent :: "nat \<Rightarrow> nat \<Rightarrow> int" where
  "binary_exponent n d =
     (let k = int (bit_length n) - int (bit_length d)
      in case scaled n d k of (a, b) \<Rightarrow> max (-1074) ((if b \<le> a then k else k - 1) - 52))"

text \<open>The double nearest to \<open>n / d\<close>, with its sign.\<close>

definition round_double :: "bool \<Rightarrow> nat \<Rightarrow> nat \<Rightarrow> pyfloat" where
  "round_double negative n d =
     (if n = 0 then PyFloat 0 0
      else let e = binary_exponent n d;
               m = (case scaled n d e of (a, b) \<Rightarrow> round_half_even a b)
           in if 971 < e \<or> (e = 971 \<and> m = 2 ^ 53) then PyInf negative
              else PyFloat (if negative then - int m else int m) e)"

definition decimal_value :: "bool \<Rightarrow> pystr \<Rightarrow> pystr \<Rightarrow> int \<Rightarrow> pyfloat" where
  "decimal_value negative ip fp ex =
     (let n = int_of_digits 10 (ip @ fp); k = ex - int (length fp)
      in if 0 \<le> k then round_double negative (n * 10 ^ nat k) 1
         else round_double negative n (10 ^ nat (- k)))"

definition parse_exponent :: "pystr \<Rightarrow> int option" where
  "parse_exponent s =
     (case s of [] \<Rightarrow> Some 0
      | c # cs \<Rightarrow>
          if c \<noteq> 101 \<and> c \<noteq> 69 then None
          else case take_sign cs of (negative, ds) \<Rightarrow>
            if ds = [] \<or> \<not> list_all is_ascii_digit ds then None
            else Some (if negative then - int (int_of_digits 10 ds) else int (int_of_digits 10 ds)))"

definition parse_decimal :: "bool \<Rightarrow> pystr \<Rightarrow> pyfloat option" where
  "parse_decimal negative s =
     (let ip = takeWhile is_ascii_digit s; r = dropWhile is_ascii_digit s;
          point = (r \<noteq> [] \<and> hd r = 46);
          fp = (if point then takeWhile is_ascii_digit (tl r) else []);
          ex = (if point then dropWhile is_ascii_digit (tl r) else r)
      in if ip = [] \<and> fp = [] then None
         else map_option (decimal_value negative ip fp) (parse_exponent ex))"

definition py_float :: "(nat \<Rightarrow> nat option) \<Rightarrow> pystr \<Rightarrow> pyfloat option" where
  "py_float decimal s =
     Option.bind (to_ascii decimal s) (\<lambda>a.
     Option.bind (drop_underscores False (c_strip a)) (\<lambda>t.
       case take_sign t of (negative, u) \<Rightarrow>
         if ascii_lower u \<in> {str ''inf'', str ''infinity''} then Some (PyInf negative)
         else if ascii_lower u = str ''nan'' then Some PyNaN
         else parse_decimal negative u))"

subsection \<open>Rendering and reading back\<close>

lemma list_all_dec: "list_all is_ascii_digit (dec n)"
proof (induction n rule: dec.induct)
  case (1 n)
  show ?case
  proof (cases "n < 10")
    case True
    then show ?thesis by (simp add: is_ascii_digit_def)
  next
    case False
    with 1 show ?thesis by (subst dec.simps) (simp add: is_ascii_digit_def [of "48 + _"])
  qed
qed

lemma int_of_digits_snoc:
  "int_of_digits b (s @ [c]) = int_of_digits b s * b + digit_value c"
  by (simp add: int_of_digits_def)

lemma int_of_digits_dec [simp]: "int_of_digits 10 (dec n) = n"
proof (induction n rule: dec.induct)
  case (1 n)
  show ?case
  proof (cases "n < 10")
    case True
    then show ?thesis by (simp add: int_of_digits_def digit_value_def is_ascii_digit_def)
  next
    case False
    then have "dec n = dec (n div 10) @ [48 + n mod 10]" by (subst dec.simps) simp
    with 1 False show ?thesis by (simp add: int_of_digits_snoc digit_value_def is_ascii_digit_def)
  qed
qed

lemma drop_underscores_none: "95 \<notin> set s \<Longrightarrow> drop_underscores b s = Some s"
  by (induction s arbitrary: b) auto

lemma digit_facts: "is_ascii_digit c \<Longrightarrow> c \<noteq> 95 \<and> c \<noteq> 45 \<and> c \<noteq> 43 \<and> \<not> c_space c \<and> c < 128"
  by (auto simp: is_ascii_digit_def c_space_def)

lemma take_sign_digits: "list_all is_ascii_digit s \<Longrightarrow> take_sign s = (False, s)"
  by (cases s) (auto simp: take_sign_def dest: digit_facts)

lemma c_strip_id: "list_all (\<lambda>c. \<not> c_space c) s \<Longrightarrow> c_strip s = s"
proof -
  have id: "dropWhile c_space t = t" if "list_all (\<lambda>c. \<not> c_space c) t" for t
    using that by (cases t) auto
  assume "list_all (\<lambda>c. \<not> c_space c) s"
  then show ?thesis by (simp add: c_strip_def id list_all_rev)
qed

text \<open>Plain digits are read as the number they spell, up to the interpreter's digit limit.\<close>

lemma py_int_digits:
  assumes "s \<noteq> []" and digits: "list_all is_ascii_digit s"
  shows "py_int decimal s = (if length s \<le> MAX_STR_DIGITS then Some (int (int_of_digits 10 s)) else None)"
proof -
  have "list_all (\<lambda>c. c < 128) s" and "list_all (\<lambda>c. \<not> c_space c) s" and "95 \<notin> set s"
    using digits by (auto simp: list_all_iff dest: digit_facts)
  with assms show ?thesis
    by (simp add: py_int_def to_ascii_def c_strip_id take_sign_digits digits_value_def drop_underscores_none)
qed

lemma py_int_dec: "length (dec n) \<le> MAX_STR_DIGITS \<Longrightarrow> py_int decimal (dec n) = Some (int n)"
  by (simp add: py_int_digits list_all_dec)

lemma py_int_Nil [simp]: "py_int decimal [] = None"
  by (simp add: py_int_def to_ascii_def c_strip_def take_sign_def digits_value_def)

text \<open>Rounding is to nearest: the result is within half a unit of the quotient.\<close>

lemma round_half_even_nearest:
  assumes "0 < d"
  shows "2 * (round_half_even n d * d) \<le> 2 * n + d \<and> 2 * n \<le> 2 * (round_half_even n d * d) + d"
proof -
  have n: "n = n div d * d + n mod d" by simp
  have r: "n mod d < d" using assms by simp
  define q where "q = n div d * d"
  define s where "s = n mod d"
  have "round_half_even n d * d = (if 2 * s < d \<or> (2 * s = d \<and> even (n div d)) then q else q + d)"
    by (simp add: round_half_even_def Let_def q_def s_def algebra_simps)
  moreover have "n = q + s" "s < d" using n r by (simp_all add: q_def s_def)
  ultimately show ?thesis by auto
qed

section \<open>Percent-encoding\<close>

definition hex_upper :: "nat \<Rightarrow> nat" where
  "hex_upper d = (if d < 10 then 48 + d else 55 + d)"

definition is_unreserved :: "nat \<Rightarrow> bool" where
  "is_unreserved c \<longleftrightarrow> is_ascii_lower c \<or> is_ascii_upper c \<or> is_ascii_digit c \<or> c \<in> set [95, 46, 45, 126]"

definition quote_byte :: "nat \<Rightarrow> pystr" where
  "quote_byte b = (if is_unreserved b \<or> b = 47 then [b] else [37, hex_upper (b div 16), hex_upper (b mod 16)])"

text \<open>\<open>quote(s, safe="/")\<close>; \<open>None\<close> is the \<open>UnicodeEncodeError\<close> of a lone surrogate.\<close>

definition quote_path :: "pystr \<Rightarrow> pystr option" where
  "quote_path s = map_option (\<lambda>bs. concat (map quote_byte bs)) (utf8_encode s)"

text \<open>Percent-decoding as a server applies it.\<close>

fun unquote_bytes :: "pystr \<Rightarrow> nat list" where
  "unquote_bytes [] = []"
| "unquote_bytes (c # cs) =
     (if c = 37 then
        (case cs of
           h # l # r \<Rightarrow> if is_hex h \<and> is_hex l then (digit_value h * 16 + digit_value l) # unquote_bytes r
                       else c # unquote_bytes cs
         | _ \<Rightarrow> c # unquote_bytes cs)
      else c # unquote_bytes cs)"

lemma hex_upper_facts: "d < 16 \<Longrightarrow> is_hex (hex_upper d) \<and> digit_value (hex_upper d) = d"
  by (auto simp: hex_upper_def char_class_defs digit_value_def)

lemma unquote_quote_byte:
  assumes "b < 256"
  shows "unquote_bytes (quote_byte b @ r) = b # unquote_bytes r"
proof (cases "is_unreserved b \<or> b = 47")
  case True
  then have "b \<noteq> 37" by (auto simp: is_unreserved_def char_class_defs)
  with True show ?thesis by (auto simp: quote_byte_def)
next
  case False
  have "b div 16 < 16" "b mod 16 < 16" using assms by auto
  with False show ?thesis by (simp add: quote_byte_def hex_upper_facts)
qed

lemma unquote_quote_bytes:
  "list_all (\<lambda>b. b < 256) bs \<Longrightarrow> unquote_bytes (concat (map quote_byte bs)) = bs"
  by (induction bs) (simp_all add: unquote_quote_byte)

lemma utf8_ascii: "list_all (\<lambda>c. c < 128) s \<Longrightarrow> utf8_encode s = Some s"
proof (induction s)
  case (Cons c s)
  then show ?case by (auto simp: utf8_encode_def utf8_bytes_def is_surrogate_def split: if_splits)
qed (simp add: utf8_encode_def)

lemma quote_path_ascii:
  "list_all (\<lambda>c. c < 128) s \<Longrightarrow> quote_path s = Some (concat (map quote_byte s))"
  by (simp add: quote_path_def utf8_ascii)

section \<open>Base64\<close>

definition b64_char :: "nat \<Rightarrow> nat" where
  "b64_char d = (if d < 26 then 65 + d else if d < 52 then 71 + d else if d < 62 then d - 4
     else if d = 62 then 43 else 47)"

definition b64_value :: "nat \<Rightarrow> nat" where
  "b64_value c = (if is_ascii_upper c then c - 65 else if is_ascii_lower c then c - 71
     else if is_ascii_digit c then c + 4 else if c = 43 then 62 else 63)"

fun b64encode :: "nat list \<Rightarrow> pystr" where
  "b64encode [] = []"
| "b64encode [a] = [b64_char (a div 4), b64_char (a mod 4 * 16), 61, 61]"
| "b64encode [a, b] = [b64_char (a div 4), b64_char (a mod 4 * 16 + b div 16), b64_char (b mod 16 * 4), 61]"
| "b64encode (a # b # c # r) =
     b64_char (a div 4) # b64_char (a mod 4 * 16 + b div 16) # b64_char (b mod 16 * 4 + c div 64)
       # b64_char (c mod 64) # b64encode r"

fun b64decode :: "pystr \<Rightarrow> nat list" where
  "b64decode (p # q # r # s # t) =
     (let a = b64_value p * 4 + b64_value q div 16;
          b = b64_value q mod 16 * 16 + b64_value r div 4;
          c = b64_value r mod 4 * 64 + b64_value s
      in if r = 61 then [a] else if s = 61 then [a, b] else a # b # c # b64decode t)"
| "b64decode _ = []"

lemma b64_value_char: "d < 64 \<Longrightarrow> b64_value (b64_char d) = d \<and> b64_char d \<noteq> 61"
  by (auto simp: b64_value_def b64_char_def char_class_defs)

lemma packed:
  fixes x y k :: nat
  assumes "y < k"
  shows "(x * k + y) div k = x" and "(x * k + y) mod k = y"
  using assms by simp_all

lemma sextets:
  fixes a b c :: nat
  assumes "a < 256" "b < 256" "c < 256"
  shows "a div 4 < 64" "a mod 4 * 16 < 64" "a mod 4 * 16 + b div 16 < 64" "b mod 16 * 4 < 64"
    "b mod 16 * 4 + c div 64 < 64" "c mod 64 < 64" "b div 16 < 16" "c div 64 < 4"
  using assms by auto

lemma octets:
  fixes a b c :: nat
  assumes "a < 256" "b < 256" "c < 256"
  shows "a div 4 * 4 + (a mod 4 * 16 + b div 16) div 16 = a"
    "(a mod 4 * 16 + b div 16) mod 16 * 16 + (b mod 16 * 4 + c div 64) div 4 = b"
    "(b mod 16 * 4 + c div 64) mod 4 * 64 + c mod 64 = c"
  using packed [OF sextets(7) [OF assms], of "a mod 4"] packed [OF sextets(8) [OF assms], of "b mod 16"]
  by simp_all

lemma b64_round_trip: "list_all (\<lambda>b. b < 256) bs \<Longrightarrow> b64decode (b64encode bs) = bs"
proof (induction bs rule: b64encode.induct)
  case (4 a b c r)
  then have "a < 256" "b < 256" "c < 256" by simp_all
  note arith = sextets [OF this] octets [OF this]
  note v = arith(1,3,5,6) [THEN b64_value_char]
  with arith 4 show ?case by simp
next
  case (3 a b)
  then have "a < 256" "b < 256" "(0 :: nat) < 256" by simp_all
  note arith = sextets [OF this] octets [OF this]
  note v = arith(1,3,4) [THEN b64_value_char]
  with arith 3 show ?case by simp
next
  case (2 a)
  then have "a < 256" "(0 :: nat) < 256" "(0 :: nat) < 256" by simp_all
  note arith = sextets [OF this] octets [OF this]
  note v = arith(1,2) [THEN b64_value_char]
  with arith 2 show ?case by simp
qed simp

lemma b64_char_class: "list_all (\<lambda>c. c \<in> set [43, 47, 61] \<or> is_ascii_lower c \<or> is_ascii_upper c \<or> is_ascii_digit c)
    (b64encode bs)"
  if "list_all (\<lambda>b. b < 256) bs"
proof -
  have ch: "b64_char d \<in> set [43, 47, 61] \<or> is_ascii_lower (b64_char d) \<or> is_ascii_upper (b64_char d)
      \<or> is_ascii_digit (b64_char d)" if "d < 64" for d
    using that by (auto simp: b64_char_def char_class_defs)
  from that show ?thesis
  proof (induction bs rule: b64encode.induct)
    case (4 a b c r)
    then have "a < 256" "b < 256" "c < 256" by simp_all
    from sextets [OF this] 4 ch show ?case by simp
  next
    case (3 a b)
    then have "a < 256" "b < 256" "(0 :: nat) < 256" by simp_all
    from sextets [OF this] ch show ?case by simp
  next
    case (2 a)
    have "a div 4 < 64" "a mod 4 * 16 < 64" using 2 by auto
    with ch show ?case by simp
  qed simp
qed

end
