(* ===== verification/Json.thy ===== *)
theory Json
  imports Schema Pytext
begin

text \<open>
  \<open>json.loads\<close> on bytes and \<open>json.dumps\<close> with compact separators, as Python 3.12's \<open>json\<close>
  module defines them: encoding detection, strict strings with surrogate pairs joined, a
  dictionary keeps the last value of a repeated key, an integer literal beyond the digit limit is
  a \<open>ValueError\<close>, and nesting deeper than the interpreter's stack (\<open>depth\<close>) a \<open>RecursionError\<close>.

  The parser recurses on fuel. \<open>parse_value_fuel\<close> shows that twice the length of the text is
  always enough, so \<open>json_loads\<close> is total. The round trip is \<open>loads_dumps\<close>.
\<close>

section \<open>Bytes to text\<close>

definition is_cont :: "nat \<Rightarrow> bool" where
  "is_cont b \<longleftrightarrow> 128 \<le> b \<and> b < 192"

text \<open>UTF-8 with \<open>surrogatepass\<close>: the three-byte form of a surrogate is accepted.\<close>

fun utf8_decode :: "nat list \<Rightarrow> pystr option" where
  "utf8_decode [] = Some []"
| "utf8_decode (a # r) =
     (if a < 128 then map_option (\<lambda>t. a # t) (utf8_decode r)
      else if 194 \<le> a \<and> a < 224 then
        (case r of
           b # r1 \<Rightarrow> if is_cont b then map_option (\<lambda>t. ((a - 192) * 64 + (b - 128)) # t) (utf8_decode r1) else None
         | [] \<Rightarrow> None)
      else if 224 \<le> a \<and> a < 240 then
        (case r of
           b # c # r1 \<Rightarrow>
             if is_cont b \<and> is_cont c \<and> (a = 224 \<longrightarrow> 160 \<le> b)
             then map_option (\<lambda>t. ((a - 224) * 4096 + (b - 128) * 64 + (c - 128)) # t) (utf8_decode r1) else None
         | _ \<Rightarrow> None)
      else if 240 \<le> a \<and> a < 245 then
        (case r of
           b # c # d # r1 \<Rightarrow>
             if is_cont b \<and> is_cont c \<and> is_cont d \<and> (a = 240 \<longrightarrow> 144 \<le> b) \<and> (a = 244 \<longrightarrow> b < 144)
             then map_option (\<lambda>t. ((a - 240) * 262144 + (b - 128) * 4096 + (c - 128) * 64 + (d - 128)) # t)
                    (utf8_decode r1) else None
         | _ \<Rightarrow> None)
      else None)"

definition high_surrogate :: "nat \<Rightarrow> bool" where
  "high_surrogate c \<longleftrightarrow> 55296 \<le> c \<and> c < 56320"

definition low_surrogate :: "nat \<Rightarrow> bool" where
  "low_surrogate c \<longleftrightarrow> 56320 \<le> c \<and> c < 57344"

definition join_surrogates :: "nat \<Rightarrow> nat \<Rightarrow> nat" where
  "join_surrogates h l = 65536 + (h - 55296) * 1024 + (l - 56320)"

fun utf16_units :: "bool \<Rightarrow> nat list \<Rightarrow> nat list option" where
  "utf16_units big [] = Some []"
| "utf16_units big [a] = None"
| "utf16_units big (a # b # r) =
     map_option (\<lambda>t. (if big then a * 256 + b else b * 256 + a) # t) (utf16_units big r)"

fun join_units :: "nat list \<Rightarrow> pystr" where
  "join_units (h # l # r) =
     (if high_surrogate h \<and> low_surrogate l then join_surrogates h l # join_units r
      else h # join_units (l # r))"
| "join_units us = us"

fun utf32_decode :: "bool \<Rightarrow> nat list \<Rightarrow> pystr option" where
  "utf32_decode big [] = Some []"
| "utf32_decode big (a # b # c # d # r) =
     (let u = (if big then ((a * 256 + b) * 256 + c) * 256 + d else ((d * 256 + c) * 256 + b) * 256 + a)
      in if 1114112 \<le> u then None else map_option (\<lambda>t. u # t) (utf32_decode big r))"
| "utf32_decode big _ = None"

definition utf16_decode :: "bool \<Rightarrow> nat list \<Rightarrow> pystr option" where
  "utf16_decode big bs = map_option join_units (utf16_units big bs)"

text \<open>\<open>b.decode(detect_encoding(b), "surrogatepass")\<close>: byte order marks first, then the pattern of
  zero bytes in the first four.\<close>

definition decode_json_bytes :: "nat list \<Rightarrow> pystr option" where
  "decode_json_bytes b =
     (if take 4 b = [0, 0, 254, 255] then utf32_decode True (drop 4 b)
      else if take 4 b = [255, 254, 0, 0] then utf32_decode False (drop 4 b)
      else if take 2 b = [254, 255] then utf16_decode True (drop 2 b)
      else if take 2 b = [255, 254] then utf16_decode False (drop 2 b)
      else if take 3 b = [239, 187, 191] then utf8_decode (drop 3 b)
      else if 4 \<le> length b \<and> b ! 0 = 0 then (if b ! 1 \<noteq> 0 then utf16_decode True b else utf32_decode True b)
      else if 4 \<le> length b \<and> b ! 1 = 0 then
        (if b ! 2 \<noteq> 0 \<or> b ! 3 \<noteq> 0 then utf16_decode False b else utf32_decode False b)
      else if length b = 2 \<and> b ! 0 = 0 then utf16_decode True b
      else if length b = 2 \<and> b ! 1 = 0 then utf16_decode False b
      else utf8_decode b)"

section \<open>Tokens\<close>

definition json_space :: "nat \<Rightarrow> bool" where
  "json_space c \<longleftrightarrow> c \<in> set [32, 9, 10, 13]"

abbreviation skip :: "pystr \<Rightarrow> pystr" where
  "skip s \<equiv> dropWhile json_space s"

definition hex_quad :: "pystr \<Rightarrow> nat option" where
  "hex_quad s = (if 4 \<le> length s \<and> list_all is_hex (take 4 s) then Some (int_of_digits 16 (take 4 s)) else None)"

definition simple_escape :: "nat \<Rightarrow> nat option" where
  "simple_escape e = map_of [(34, 34), (92, 92), (47, 47), (98, 8), (102, 12), (110, 10), (114, 13), (116, 9)] e"

text \<open>A string after its opening quote: its value and what follows the closing quote.\<close>

definition cons_fst :: "nat \<Rightarrow> (pystr \<times> pystr) option \<Rightarrow> (pystr \<times> pystr) option" where
  "cons_fst c = map_option (\<lambda>(t, r). (c # t, r))"

fun scan_string :: "pystr \<Rightarrow> (pystr \<times> pystr) option" where
  "scan_string [] = None"
| "scan_string (c # cs) =
     (if c = 34 then Some ([], cs)
      else if c = 92 then
        (case cs of
           [] \<Rightarrow> None
         | e # r \<Rightarrow>
             if e = 117 then
               (case hex_quad r of
                  None \<Rightarrow> None
                | Some u \<Rightarrow>
                    if high_surrogate u \<and> take 2 (drop 4 r) = [92, 117] then
                      (case hex_quad (drop 6 r) of
                         None \<Rightarrow> None
                       | Some v \<Rightarrow>
                           if low_surrogate v then cons_fst (join_surrogates u v) (scan_string (drop 10 r))
                           else cons_fst u (scan_string (drop 4 r)))
                    else cons_fst u (scan_string (drop 4 r)))
             else (case simple_escape e of None \<Rightarrow> None | Some x \<Rightarrow> cons_fst x (scan_string r)))
      else if c < 32 then None
      else cons_fst c (scan_string cs))"

text \<open>\<open>-?(0|[1-9][0-9]*)(\.[0-9]+)?([eE][+-]?[0-9]+)?\<close>: the literal's integer part, the rest of the
  literal and what follows.\<close>

definition scan_fraction :: "pystr \<Rightarrow> pystr \<times> pystr" where
  "scan_fraction s =
     (if 2 \<le> length s \<and> s ! 0 = 46 \<and> is_ascii_digit (s ! 1)
      then (46 # takeWhile is_ascii_digit (tl s), dropWhile is_ascii_digit (tl s)) else ([], s))"

definition scan_exponent :: "pystr \<Rightarrow> pystr \<times> pystr" where
  "scan_exponent s =
     (case s of
        [] \<Rightarrow> ([], s)
      | c # cs \<Rightarrow>
          (let sgn = take 1 (takeWhile (\<lambda>x. x \<in> set [43, 45]) cs);
               ds = takeWhile is_ascii_digit (drop (length sgn) cs)
           in if c \<in> set [101, 69] \<and> ds \<noteq> [] then (c # sgn @ ds, drop (length sgn + length ds) cs)
              else ([], s)))"

definition scan_digits :: "pystr \<Rightarrow> (pystr \<times> pystr) option" where
  "scan_digits s =
     (case s of
        [] \<Rightarrow> None
      | c # cs \<Rightarrow> if c = 48 then Some ([48], cs)
                  else if is_ascii_digit c then Some (takeWhile is_ascii_digit s, dropWhile is_ascii_digit s)
                  else None)"

datatype 'a parse = Parsed 'a pystr | NotJson | TooDeep | OutOfFuel

definition minus_if :: "bool \<Rightarrow> pystr" where
  "minus_if negative = (if negative then [45] else [])"

definition scan_number :: "pystr \<Rightarrow> json parse" where
  "scan_number s =
     (let negative = (take 1 s = [45]) in
      case scan_digits (drop (length (minus_if negative)) s) of
        None \<Rightarrow> NotJson
      | Some (ip, r) \<Rightarrow>
          (case scan_fraction r of (fp, r1) \<Rightarrow>
             (case scan_exponent r1 of (ex, r2) \<Rightarrow>
                if fp @ ex \<noteq> [] then Parsed (JFloat (minus_if negative @ ip @ fp @ ex)) r2
                else if MAX_STR_DIGITS < length ip then NotJson
                else Parsed (JInt (if negative then - int (int_of_digits 10 ip) else int (int_of_digits 10 ip))) r2)))"

definition starts :: "pystr \<Rightarrow> pystr \<Rightarrow> bool" where
  "starts p s \<longleftrightarrow> take (length p) s = p"

definition scan_word :: "pystr \<Rightarrow> json parse" where
  "scan_word s =
     (if starts (str ''null'') s then Parsed JNull (drop 4 s)
      else if starts (str ''true'') s then Parsed (JBool True) (drop 4 s)
      else if starts (str ''false'') s then Parsed (JBool False) (drop 5 s)
      else if starts (str ''NaN'') s then Parsed (JFloat (str ''NaN'')) (drop 3 s)
      else if starts (str ''Infinity'') s then Parsed (JFloat (str ''Infinity'')) (drop 8 s)
      else if starts (str ''-Infinity'') s then Parsed (JFloat (str ''-Infinity'')) (drop 9 s)
      else scan_number s)"

section \<open>The parser\<close>

text \<open>Assignment into a Python dictionary: an old key keeps its place and takes the new value.\<close>

definition dict_put :: "'k \<Rightarrow> 'v \<Rightarrow> ('k \<times> 'v) list \<Rightarrow> ('k \<times> 'v) list" where
  "dict_put k v d = (if k \<in> set (map fst d) then map (\<lambda>(x, y). if x = k then (x, v) else (x, y)) d else d @ [(k, v)])"

text \<open>\<open>parse_items\<close> expects an element, \<open>parse_members\<close> a key; both are past any whitespace.\<close>

function (sequential) parse_value :: "nat \<Rightarrow> nat \<Rightarrow> pystr \<Rightarrow> json parse"
  and parse_items :: "nat \<Rightarrow> nat \<Rightarrow> json list \<Rightarrow> pystr \<Rightarrow> json parse"
  and parse_members :: "nat \<Rightarrow> nat \<Rightarrow> (pystr \<times> json) list \<Rightarrow> pystr \<Rightarrow> json parse" where
  "parse_value 0 depth s = OutOfFuel"
| "parse_value (Suc n) depth s =
     (case s of
        [] \<Rightarrow> NotJson
      | c # cs \<Rightarrow>
          if c = 34 then (case scan_string cs of None \<Rightarrow> NotJson | Some (t, r) \<Rightarrow> Parsed (JStr t) r)
          else if c = 123 then
            (if depth = 0 then TooDeep
             else if take 1 (skip cs) = [125] then Parsed (JObj []) (drop 1 (skip cs))
             else parse_members n (depth - 1) [] (skip cs))
          else if c = 91 then
            (if depth = 0 then TooDeep
             else if take 1 (skip cs) = [93] then Parsed (JList []) (drop 1 (skip cs))
             else parse_items n (depth - 1) [] (skip cs))
          else scan_word s)"
| "parse_items 0 depth acc s = OutOfFuel"
| "parse_items (Suc n) depth acc s =
     (case parse_value n depth s of
        Parsed v r \<Rightarrow>
          (case skip r of
             [] \<Rightarrow> NotJson
           | c # cs \<Rightarrow> if c = 93 then Parsed (JList (acc @ [v])) cs
                       else if c = 44 then parse_items n depth (acc @ [v]) (skip cs)
                       else NotJson)
      | e \<Rightarrow> e)"
| "parse_members 0 depth acc s = OutOfFuel"
| "parse_members (Suc n) depth acc s =
     (if take 1 s \<noteq> [34] then NotJson
      else case scan_string (drop 1 s) of
        None \<Rightarrow> NotJson
      | Some (k, r) \<Rightarrow>
          (case skip r of
             [] \<Rightarrow> NotJson
           | c # cs \<Rightarrow>
               if c \<noteq> 58 then NotJson
               else (case parse_value n depth (skip cs) of
                       Parsed v r' \<Rightarrow>
                         (case skip r' of
                            [] \<Rightarrow> NotJson
                          | c' # cs' \<Rightarrow>
                              if c' = 125 then Parsed (JObj (dict_put k v acc)) cs'
                              else if c' = 44 then parse_members n depth (dict_put k v acc) (skip cs')
                              else NotJson)
                     | e \<Rightarrow> e)))"
  by pat_completeness auto
termination
  by (relation "measure (\<lambda>p. case p of Inl (n, _) \<Rightarrow> n | Inr (Inl (n, _)) \<Rightarrow> n | Inr (Inr (n, _)) \<Rightarrow> n)") auto

definition RecursionError :: exn where
  "RecursionError = PyException (str ''RecursionError'')"

definition parse_fuel :: "pystr \<Rightarrow> nat" where
  "parse_fuel s = 2 * length s + 1"

text \<open>\<open>JSONDecoder.decode\<close>.\<close>

definition json_decode :: "nat \<Rightarrow> pystr \<Rightarrow> exn + json" where
  "json_decode depth s =
     (case parse_value (parse_fuel s) depth (skip s) of
        Parsed v r \<Rightarrow> if skip r = [] then Inr v else Inl PyValueError
      | NotJson \<Rightarrow> Inl PyValueError
      | TooDeep \<Rightarrow> Inl RecursionError
      | OutOfFuel \<Rightarrow> Inl (PyException (str ''fuel'')))"

definition json_loads :: "nat \<Rightarrow> nat list \<Rightarrow> exn + json" where
  "json_loads depth b =
     (case decode_json_bytes b of None \<Rightarrow> Inl PyValueError | Some s \<Rightarrow> json_decode depth s)"

section \<open>The parser consumes its input and never runs out of fuel\<close>

lemma cons_fst_Some: "cons_fst c x = Some (t, r) \<longleftrightarrow> (\<exists>t'. t = c # t' \<and> x = Some (t', r))"
  by (auto simp: cons_fst_def)

lemma scan_string_shorter: "scan_string s = Some (t, r) \<Longrightarrow> length r < length s"
proof (induction s arbitrary: t r rule: length_induct)
  case (1 s)
  have IH: "scan_string s' = Some (t', r) \<Longrightarrow> length s' < length s \<Longrightarrow> length r < length s" for s' t'
    using "1.IH" less_trans by blast
  show ?case
  proof (cases s)
    case (Cons c cs)
    with "1.prems" show ?thesis
      by (auto simp: cons_fst_Some split: if_splits list.splits option.splits dest!: IH)
  qed (use "1.prems" in simp)
qed

lemma scan_digits_shorter: "scan_digits s = Some (ip, r) \<Longrightarrow> length r < length s"
  by (auto simp: scan_digits_def split: list.splits if_splits
      intro: le_imp_less_Suc [OF length_dropWhile_le])

lemma scan_fraction_le: "scan_fraction s = (fp, r) \<Longrightarrow> length r \<le> length s"
  using length_dropWhile_le [of is_ascii_digit "tl s"]
  by (auto simp: scan_fraction_def split: if_splits)

lemma scan_exponent_le: "scan_exponent s = (ex, r) \<Longrightarrow> length r \<le> length s"
  by (auto simp: scan_exponent_def Let_def split: list.splits if_splits)

lemma scan_number_shorter: "scan_number s = Parsed v r \<Longrightarrow> length r < length s"
  by (auto simp: scan_number_def Let_def split: option.splits prod.splits if_splits
      dest!: scan_digits_shorter scan_fraction_le scan_exponent_le)

lemma scan_word_shorter: "scan_word s = Parsed v r \<Longrightarrow> length r < length s"
  by (cases "s = []")
    (auto simp: scan_word_def starts_def str_def split: if_splits dest: scan_number_shorter)

lemma scan_number_cases: "scan_number s \<noteq> OutOfFuel \<and> scan_number s \<noteq> TooDeep"
  by (simp add: scan_number_def Let_def split: option.splits prod.splits)

lemma scan_word_cases: "scan_word s \<noteq> OutOfFuel \<and> scan_word s \<noteq> TooDeep"
  by (simp add: scan_word_def scan_number_cases)

lemma skip_le: "length (skip s) \<le> length s"
  by (rule length_dropWhile_le)

lemma skip_Cons_less: "skip r = c # cs \<Longrightarrow> length cs < length r"
  using skip_le [of r] by simp

lemma parse_shorter:
  shows parse_value_shorter: "parse_value n depth s = Parsed v r \<Longrightarrow> length r < length s"
    and parse_items_shorter: "parse_items n depth xs s = Parsed v r \<Longrightarrow> length r < length s"
    and parse_members_shorter: "parse_members n depth ms s = Parsed v r \<Longrightarrow> length r < length s"
proof (induction n arbitrary: depth s v r xs ms)
  case (Suc n)
  {
    case 1
    then obtain c cs where s: "s = c # cs" by (cases s) auto
    have "length (drop 1 (skip cs)) < length s" and "length (skip cs) < length s"
      using skip_le [of cs] s by auto
    moreover have "parse_items n (depth - 1) [] (skip cs) = Parsed v r \<Longrightarrow> length r < length (skip cs)"
      and "parse_members n (depth - 1) [] (skip cs) = Parsed v r \<Longrightarrow> length r < length (skip cs)"
      by (rule Suc.IH(2), assumption) (rule Suc.IH(3))
    ultimately show ?case using 1 s
      by (auto split: if_splits option.splits dest!: scan_string_shorter scan_word_shorter)
  next
    case 2
    then obtain u t where t: "parse_value n depth s = Parsed u t" by (auto split: parse.splits)
    with 2 obtain c cs where c: "skip t = c # cs" by (auto split: list.splits)
    from skip_Cons_less [OF c] skip_le [of cs] Suc.IH(1) [OF t] 2 t c show ?case
      by (auto split: if_splits dest: Suc.IH(2))
  next
    case 3
    then obtain k t where t: "take 1 s = [34]" "scan_string (drop 1 s) = Some (k, t)"
      by (auto split: option.splits if_splits)
    with 3 obtain cs where c: "skip t = 58 # cs" by (auto split: list.splits if_splits)
    with 3 t obtain u t' where u: "parse_value n depth (skip cs) = Parsed u t'"
      by (auto split: parse.splits)
    with 3 t c obtain c' cs' where c': "skip t' = c' # cs'" by (auto split: list.splits)
    from scan_string_shorter [OF t(2)] skip_le [of cs] skip_Cons_less [OF c] Suc.IH(1) [OF u]
      skip_Cons_less [OF c'] skip_le [of cs']
    have "length cs' < length s" and "length (skip cs') < length s" by auto
    with 3 t c u c' show ?case by (auto split: if_splits dest: Suc.IH(3))
  }
qed simp_all

lemma parse_fuel_enough:
  shows parse_value_fuel: "2 * length s + 1 \<le> n \<Longrightarrow> parse_value n depth s \<noteq> OutOfFuel"
    and parse_items_fuel: "2 * length s + 2 \<le> n \<Longrightarrow> parse_items n depth xs s \<noteq> OutOfFuel"
    and parse_members_fuel: "2 * length s + 2 \<le> n \<Longrightarrow> parse_members n depth ms s \<noteq> OutOfFuel"
proof (induction n arbitrary: depth s xs ms)
  case (Suc n)
  {
    case 1
    show ?case
    proof (cases s)
      case (Cons c cs)
      with 1 skip_le [of cs] have "2 * length (skip cs) + 2 \<le> n" by simp
      with Cons show ?thesis by (simp add: Suc.IH(2,3) scan_word_cases split: option.splits)
    qed simp
  next
    case 2
    then have "parse_value n depth s \<noteq> OutOfFuel" by (intro Suc.IH(1)) simp
    moreover have "parse_items n depth ys (skip cs) \<noteq> OutOfFuel"
      if "parse_value n depth s = Parsed u t" and "skip t = c # cs" for u t c cs ys
      using parse_value_shorter [OF that(1)] skip_Cons_less [OF that(2)] skip_le [of cs] 2
      by (intro Suc.IH(2)) simp
    ultimately show ?case by (auto split: parse.splits list.splits)
  next
    case 3
    have v: "parse_value n depth (skip cs) \<noteq> OutOfFuel"
      and m: "\<And>u t' c' cs' ds. parse_value n depth (skip cs) = Parsed u t' \<Longrightarrow> skip t' = c' # cs' \<Longrightarrow>
        parse_members n depth ds (skip cs') \<noteq> OutOfFuel"
      if "scan_string (drop 1 s) = Some (k, t)" and "skip t = c # cs" for k t c cs
    proof -
      from scan_string_shorter [OF that(1)] skip_Cons_less [OF that(2)] skip_le [of cs]
      have len: "length (skip cs) < length s" by simp
      with 3 show "parse_value n depth (skip cs) \<noteq> OutOfFuel" by (intro Suc.IH(1)) simp
      fix u t' c' cs' ds
      assume "parse_value n depth (skip cs) = Parsed u t'" and "skip t' = c' # cs'"
      from parse_value_shorter [OF this(1)] skip_Cons_less [OF this(2)] skip_le [of cs'] len 3
      show "parse_members n depth ds (skip cs') \<noteq> OutOfFuel" by (intro Suc.IH(3)) simp
    qed
    from v m show ?case by (auto split: parse.splits list.splits option.splits)
  }
qed simp_all

text \<open>\<open>json.loads\<close> is total: a value, a \<open>ValueError\<close> or, for deep nesting only, a
  \<open>RecursionError\<close>.\<close>

lemma json_loads_outcome:
  "(\<exists>v. json_loads depth b = Inr v) \<or> json_loads depth b = Inl PyValueError
     \<or> json_loads depth b = Inl RecursionError"
proof -
  have "parse_value (parse_fuel s) depth (skip s) \<noteq> OutOfFuel" for s
    using skip_le [of s] by (intro parse_value_fuel) (simp add: parse_fuel_def)
  then show ?thesis
    by (auto simp: json_loads_def json_decode_def split: option.splits parse.splits)
qed

declare parse_value.simps [simp del] parse_items.simps [simp del] parse_members.simps [simp del]

section \<open>Text from a dictionary of strings\<close>

text \<open>\<open>json.dumps(d, separators=(",", ":"))\<close> for a dictionary whose values are strings or \<open>None\<close>.\<close>

definition escape_char :: "nat \<Rightarrow> pystr" where
  "escape_char c =
     (if c = 34 then [92, 34] else if c = 92 then [92, 92]
      else if 32 \<le> c \<and> c \<le> 126 then [c]
      else if c = 8 then [92, 98] else if c = 12 then [92, 102] else if c = 10 then [92, 110]
      else if c = 13 then [92, 114] else if c = 9 then [92, 116]
      else if c < 65536 then [92, 117] @ hex4 c
      else [92, 117] @ hex4 (55296 + (c - 65536) div 1024) @ [92, 117] @ hex4 (56320 + (c - 65536) mod 1024))"

definition dumps_str :: "pystr \<Rightarrow> pystr" where
  "dumps_str s = [34] @ concat (map escape_char s) @ [34]"

definition dumps_scalar :: "pystr option \<Rightarrow> pystr" where
  "dumps_scalar v = (case v of None \<Rightarrow> str ''null'' | Some s \<Rightarrow> dumps_str s)"

fun dumps_members :: "(pystr \<times> pystr option) list \<Rightarrow> pystr" where
  "dumps_members [] = []"
| "dumps_members ((k, v) # ms) =
     dumps_str k @ [58] @ dumps_scalar v @ (if ms = [] then [] else 44 # dumps_members ms)"

definition dumps :: "(pystr \<times> pystr option) list \<Rightarrow> pystr" where
  "dumps d = [123] @ dumps_members d @ [125]"

definition json_scalar :: "pystr option \<Rightarrow> json" where
  "json_scalar v = (case v of None \<Rightarrow> JNull | Some s \<Rightarrow> JStr s)"

text \<open>Text that UTF-8 can carry: code points without surrogates.\<close>

definition proper_text :: "pystr \<Rightarrow> bool" where
  "proper_text s \<longleftrightarrow> list_all (\<lambda>c. c < 1114112 \<and> \<not> is_surrogate c) s"

lemma hex_char_facts: "d < 16 \<Longrightarrow> is_hex (hex_char d) \<and> digit_value (hex_char d) = d"
  by (auto simp: hex_char_def char_class_defs digit_value_def)

lemma length_hex4 [simp]: "length (hex4 n) = 4"
  by (simp add: hex4_def hex_digits_def)

lemma hex_quad_hex4: "n < 65536 \<Longrightarrow> hex_quad (hex4 n @ r) = Some n"
proof -
  assume n: "n < 65536"
  have "foldl (\<lambda>m c. m * 16 + digit_value c) 0 (map hex_char ds) = foldl (\<lambda>m d. m * 16 + d) 0 ds"
    if "\<forall>d \<in> set ds. d < 16" for ds
    using that by (induction ds rule: rev_induct) (simp_all add: hex_char_facts)
  then have "int_of_digits 16 (hex4 n) = n"
    using n by (simp add: int_of_digits_def hex4_def hex_digits_bound hex_digits_value)
  moreover have "list_all is_hex (hex4 n)"
    by (auto simp: list_all_iff hex4_def dest!: hex_digits_bound hex_char_facts)
  ultimately show ?thesis by (simp add: hex_quad_def)
qed

lemma drop_hex4: "drop 4 (hex4 n @ r) = r" "drop 6 (hex4 n @ a # b # r) = r"
  "drop 10 (hex4 n @ a # b # hex4 m @ r) = r"
  by simp_all

lemma scan_escaped:
  assumes "c < 1114112" and "\<not> is_surrogate c"
  shows "scan_string (escape_char c @ r) = cons_fst c (scan_string r)"
proof (cases "c < 65536")
  case True
  with assms(2) have "\<not> high_surrogate c" by (auto simp: high_surrogate_def is_surrogate_def)
  with True show ?thesis
    by (auto simp: escape_char_def simple_escape_def hex_quad_hex4 drop_hex4)
next
  case False
  let ?h = "55296 + (c - 65536) div 1024" and ?l = "56320 + (c - 65536) mod 1024"
  have "c - 65536 < 1048576" using assms(1) False by simp
  then have h: "?h < 56320" by simp
  have l: "?l < 57344" by simp
  have "high_surrogate ?h" "low_surrogate ?l" "hex_quad (hex4 ?h @ t) = Some ?h" "hex_quad (hex4 ?l @ t) = Some ?l" for t
    using h l by (simp_all add: high_surrogate_def low_surrogate_def hex_quad_hex4)
  moreover have "join_surrogates ?h ?l = c"
    using False by (simp add: join_surrogates_def)
  moreover have "escape_char c = [92, 117] @ hex4 ?h @ [92, 117] @ hex4 ?l"
    using False by (simp add: escape_char_def)
  ultimately show ?thesis by simp
qed

lemma scan_dumps_str:
  "proper_text s \<Longrightarrow> scan_string (concat (map escape_char s) @ 34 # r) = Some (s, r)"
  by (induction s) (simp_all add: proper_text_def scan_escaped cons_fst_def)

lemma skip_at [simp]: "\<not> json_space c \<Longrightarrow> skip (c # s) = c # s"
  by simp

lemma json_space_simps [simp]:
  "\<not> json_space 34" "\<not> json_space 44" "\<not> json_space 58" "\<not> json_space 110" "\<not> json_space 123" "\<not> json_space 125"
  by (simp_all add: json_space_def)

lemma parse_dumps_scalar:
  assumes "\<forall>s. v = Some s \<longrightarrow> proper_text s"
  shows "parse_value (Suc n) depth (dumps_scalar v @ r) = Parsed (json_scalar v) r"
    and "skip (dumps_scalar v @ r) = dumps_scalar v @ r"
  using assms
  by (auto simp: dumps_scalar_def dumps_str_def json_scalar_def scan_dumps_str str_def scan_word_def
      starts_def parse_value.simps split: option.splits)

lemma parse_dumps_member:
  assumes "proper_text k" and "\<forall>s. v = Some s \<longrightarrow> proper_text s" and "\<not> json_space c"
  shows "parse_members (Suc (Suc n)) depth acc (dumps_str k @ [58] @ dumps_scalar v @ c # t)
    = (if c = 125 then Parsed (JObj (dict_put k (json_scalar v) acc)) t
       else if c = 44 then parse_members (Suc n) depth (dict_put k (json_scalar v) acc) (skip t)
       else NotJson)"
  using assms by (subst parse_members.simps) (simp add: dumps_str_def scan_dumps_str parse_dumps_scalar)

lemma parse_dumps_members:
  assumes "ms \<noteq> []" and "length ms < n" and "distinct (map fst acc @ map fst ms)"
    and "\<forall>(k, v) \<in> set ms. proper_text k \<and> (\<forall>s. v = Some s \<longrightarrow> proper_text s)"
  shows "parse_members n depth acc (dumps_members ms @ 125 # r)
    = Parsed (JObj (acc @ map (\<lambda>(k, v). (k, json_scalar v)) ms)) r"
  using assms
proof (induction ms arbitrary: n acc)
  case (Cons m ms)
  obtain k v where m: "m = (k, v)" by (cases m)
  from Cons.prems(2) obtain n' where n: "n = Suc (Suc n')" "length ms < Suc n'"
    by (cases n; cases "n - 1") auto
  from Cons.prems(4) m have k: "proper_text k" and v: "\<forall>s. v = Some s \<longrightarrow> proper_text s" by auto
  have put: "dict_put k (json_scalar v) acc = acc @ [(k, json_scalar v)]"
    using Cons.prems(3) m by (auto simp: dict_put_def)
  show ?case
  proof (cases ms)
    case Nil
    with m n put parse_dumps_member [OF k v, of 125 n' depth acc r] show ?thesis by simp
  next
    case (Cons m' ms')
    with Cons.IH [of "Suc n'" "acc @ [(k, json_scalar v)]"] Cons.prems m n
    have IH: "parse_members (Suc n') depth (acc @ [(k, json_scalar v)]) (dumps_members ms @ 125 # r)
        = Parsed (JObj (acc @ map (\<lambda>(k, v). (k, json_scalar v)) (m # ms))) r"
      by auto
    have "skip (dumps_members ms @ 125 # r) = dumps_members ms @ 125 # r"
      using Cons by (cases m') (simp add: dumps_str_def)
    with Cons IH m n put parse_dumps_member [OF k v, of 44 n' depth acc "dumps_members ms @ 125 # r"]
    show ?thesis by simp
  qed
qed simp

lemma dumps_ascii: "proper_text s \<Longrightarrow> list_all (\<lambda>c. 0 < c \<and> c < 128) (concat (map escape_char s))"
proof -
  have hex: "list_all (\<lambda>c. 0 < c \<and> c < 128) (hex4 n)" for n
    by (auto simp: hex4_def list_all_iff hex_char_def dest!: hex_digits_bound)
  have "list_all (\<lambda>c. 0 < c \<and> c < 128) (escape_char c)" for c
    using hex by (simp add: escape_char_def)
  then show ?thesis by (induction s) auto
qed

lemma dumps_members_ascii:
  "\<forall>(k, v) \<in> set ms. proper_text k \<and> (\<forall>s. v = Some s \<longrightarrow> proper_text s) \<Longrightarrow>
     list_all (\<lambda>c. 0 < c \<and> c < 128) (dumps_members ms)"
proof (induction ms rule: dumps_members.induct)
  case (2 k v ms)
  then show ?case
    by (auto simp: dumps_str_def dumps_scalar_def dumps_ascii str_def split: option.splits)
qed simp

lemma utf8_decode_ascii: "list_all (\<lambda>c. 0 < c \<and> c < 128) s \<Longrightarrow> utf8_decode s = Some s"
  by (induction s) auto

lemma decode_ascii: "list_all (\<lambda>c. 0 < c \<and> c < 128) s \<Longrightarrow> decode_json_bytes s = Some s"
proof -
  assume s: "list_all (\<lambda>c. 0 < c \<and> c < 128) s"
  then have nth: "i < length s \<Longrightarrow> 0 < s ! i \<and> s ! i < 128" for i by (simp add: list_all_length)
  have "take k s \<noteq> x # xs" if "x = 0 \<or> 128 \<le> x" for k x xs
    using s that by (cases s; cases k) auto
  moreover have "s ! 0 \<noteq> 0 \<and> s ! 1 \<noteq> 0" if "4 \<le> length s \<or> length s = 2"
  proof -
    from that have "0 < length s" and "1 < length s" by auto
    then show ?thesis using nth [of 0] nth [of 1] by blast
  qed
  ultimately show ?thesis using s
    by (auto simp: decode_json_bytes_def utf8_decode_ascii simp del: One_nat_def)
qed

text \<open>A dictionary of proper text, dumped and loaded, is the dictionary.\<close>

lemma loads_dumps:
  assumes "d \<noteq> []" and "distinct (map fst d)" and "0 < depth"
    and proper: "\<forall>(k, v) \<in> set d. proper_text k \<and> (\<forall>s. v = Some s \<longrightarrow> proper_text s)"
  shows "json_loads depth (dumps d) = Inr (JObj (map (\<lambda>(k, v). (k, json_scalar v)) d))"
proof -
  have "list_all (\<lambda>c. 0 < c \<and> c < 128) (dumps d)"
    using dumps_members_ascii [OF proper] by (simp add: dumps_def)
  then have dec: "decode_json_bytes (dumps d) = Some (dumps d)" by (rule decode_ascii)
  have first: "\<exists>t. dumps_members d = 34 # t"
    using assms(1) by (cases d) (auto simp: dumps_str_def)
  have "length d \<le> length (dumps_members d)"
    by (induction d rule: dumps_members.induct) (auto simp: dumps_str_def)
  then have fuel: "length d < 2 * length (dumps d)" by (simp add: dumps_def)
  have "parse_members (2 * length (dumps d)) (depth - 1) [] (dumps_members d @ [125])
      = Parsed (JObj (map (\<lambda>(k, v). (k, json_scalar v)) d)) []"
    using parse_dumps_members [of d "2 * length (dumps d)" "[]" "depth - 1" "[]"] assms fuel by simp
  with first assms(3)
  have "parse_value (parse_fuel (dumps d)) depth (dumps d)
      = Parsed (JObj (map (\<lambda>(k, v). (k, json_scalar v)) d)) []"
    by (auto simp: parse_fuel_def parse_value.simps dumps_def)
  moreover have "skip (dumps d) = dumps d" by (simp add: dumps_def)
  ultimately show ?thesis by (simp add: json_loads_def dec json_decode_def)
qed

end
