(* ===== verification/Registry.thy ===== *)
theory Registry
  imports Clients Json "HOL-Library.List_Lexorder"
begin

text \<open>
  \<open>src/bl/registry_client.py\<close>: the Artifactory client the delete cascade removes images with, and
  the process-wide client of \<open>src/bl/cascade_adapters.py\<close>. One HTTP exchange (an \<open>'x exchange\<close>) is
  a parameter: a function of the request on the state of the outside world. urllib's opener over it
  is modelled with its handling of statuses and redirects, since the client overrides the latter;
  like an injected opener it is an \<open>'x transport\<close>, which answers with a response, an HTTP error
  status, a transport error, or an exception of any other kind. \<open>depth\<close> is the nesting
  \<open>json.loads\<close> supports.
\<close>

section \<open>Requests\<close>

datatype http_method = GET | HTTP_DELETE

record http_request =
  q_method :: http_method
  q_url :: pystr
  q_authorization :: pystr
  q_timeout :: pyfloat

datatype http_failure = HTTPError nat | TransportError | OtherFailure exn

text \<open>\<open>response.read(n)\<close> is a function of the limit; it may fail like the request itself.\<close>

record http_response =
  h_status :: nat
  h_read :: "nat \<Rightarrow> http_failure + nat list"

type_synonym 'x transport = "http_request \<Rightarrow> 'x \<Rightarrow> (http_failure + http_response) \<times> 'x"

section \<open>The opener\<close>

text \<open>What a server answers: the response, and what urllib's redirect handler makes of its
  \<open>Location\<close> header: nothing when there is none, a failure when it refuses the URL, or the absolute
  URL.\<close>

record http_answer =
  an_response :: http_response
  an_location :: "(http_failure + pystr) option"

type_synonym 'x exchange = "http_request \<Rightarrow> 'x \<Rightarrow> (http_failure + http_answer) \<times> 'x"

type_synonym redirect_policy = "http_request \<Rightarrow> nat \<Rightarrow> pystr \<Rightarrow> http_request option"

text \<open>The opener of \<open>urllib.request\<close> with a given \<open>redirect_request\<close>: a 2xx response is returned, a
  redirect is followed when the policy makes a request of it (urllib visits at most ten URLs, each at
  most four times, so forty redirects are never exceeded), everything else is an \<open>HTTPError\<close>.\<close>

definition REDIRECT_STATUSES :: "nat list" where "REDIRECT_STATUSES = [301, 302, 303, 307, 308]"

fun open_url ::
  "nat \<Rightarrow> pystr list \<Rightarrow> redirect_policy \<Rightarrow> 'x exchange \<Rightarrow> 'x transport" where
  "open_url n visited policy exchange q x =
     (case exchange q x of
        (Inl f, x') \<Rightarrow> (Inl f, x')
      | (Inr a, x') \<Rightarrow>
          let status = h_status (an_response a) in
          if 200 \<le> status \<and> status < 300 then (Inr (an_response a), x')
          else if status \<notin> set REDIRECT_STATUSES then (Inl (HTTPError status), x')
          else case an_location a of
            None \<Rightarrow> (Inl (HTTPError status), x')
          | Some (Inl f) \<Rightarrow> (Inl f, x')
          | Some (Inr url) \<Rightarrow>
              (case policy q status url of
                 None \<Rightarrow> (Inl (HTTPError status), x')
               | Some q' \<Rightarrow>
                   if n = 0 \<or> 4 \<le> count_list visited url \<or> 10 \<le> length (remdups visited)
                   then (Inl (HTTPError status), x')
                   else open_url (n - 1) (url # visited) policy exchange q' x'))"

declare open_url.simps [simp del]

text \<open>\<open>_NoRedirect\<close>: no request is made of a redirect.\<close>

definition redirect_request :: redirect_policy where
  "redirect_request req code newurl = None"

definition request_opener :: "'x transport option \<Rightarrow> 'x exchange \<Rightarrow> 'x transport" where
  "request_opener opener exchange =
     (case opener of Some t \<Rightarrow> t | None \<Rightarrow> open_url 40 [] redirect_request exchange)"

section \<open>The client\<close>

definition segment_char :: "nat \<Rightarrow> bool" where
  "segment_char c \<longleftrightarrow> is_ascii_upper c \<or> is_ascii_lower c \<or> is_ascii_digit c \<or> c \<in> set [95, 46, 58, 43, 45]"

definition valid_segment :: "pystr \<Rightarrow> bool" where
  "valid_segment value \<longleftrightarrow>
     value \<noteq> str ''.'' \<and> value \<noteq> str ''..'' \<and> value \<noteq> [] \<and> list_all segment_char value"

record artifactory =
  ar_base_url :: pystr
  ar_repository :: pystr
  ar_prefix :: pystr
  ar_authorization :: pystr
  ar_timeout :: pyfloat

definition valid_base_url :: "unicode_tables \<Rightarrow> pystr \<Rightarrow> bool" where
  "valid_base_url u base_url =
     (case urlsplit u base_url of
        None \<Rightarrow> False
      | Some url \<Rightarrow>
          url_scheme url = str ''https'' \<and> text_of (url_hostname u url) \<noteq> []
          \<and> text_of (url_username url) = [] \<and> text_of (url_password url) = []
          \<and> url_query url = [] \<and> url_fragment url = [] \<and> \<not> list_ex is_space base_url)"

definition authorization_of :: "pystr \<Rightarrow> pystr \<Rightarrow> pystr \<Rightarrow> exn + pystr" where
  "authorization_of token username password =
     (if token \<noteq> [] \<and> username = [] \<and> password = [] then Inr (str ''Bearer '' @ token)
      else if username \<noteq> [] \<and> password \<noteq> [] \<and> token = [] then
        (case utf8_encode (username @ [58] @ password) of
           None \<Rightarrow> Inl PyUnicodeEncodeError
         | Some raw \<Rightarrow> Inr (str ''Basic '' @ b64encode raw))
      else Inl PyValueError)"

definition new_artifactory ::
  "unicode_tables \<Rightarrow> pystr \<Rightarrow> pystr \<Rightarrow> pystr \<Rightarrow> pystr \<Rightarrow> pystr \<Rightarrow> pystr \<Rightarrow> pyfloat \<Rightarrow> exn + artifactory" where
  "new_artifactory u base_url repository image_prefix token username password timeout_seconds =
     (if \<not> valid_base_url u base_url then Inl PyValueError
      else if \<not> valid_segment repository \<or> \<not> list_all valid_segment (split_at 47 image_prefix)
      then Inl PyValueError
      else if \<not> isfinite timeout_seconds \<or> py_float_le_zero timeout_seconds then Inl PyValueError
      else case authorization_of token username password of
        Inl e \<Rightarrow> Inl e
      | Inr authorization \<Rightarrow>
          if 13 \<in> set authorization \<or> 10 \<in> set authorization then Inl PyValueError
          else Inr \<lparr>ar_base_url = rstrip_char 47 base_url, ar_repository = repository,
                    ar_prefix = image_prefix, ar_authorization = authorization,
                    ar_timeout = timeout_seconds\<rparr>)"

definition MAX_LISTING_BYTES :: nat where "MAX_LISTING_BYTES = 4 * 1024 * 1024"

text \<open>The \<open>except\<close> clauses of \<open>_request\<close>: a 404 is absence, every other transport failure a
  sanitized \<open>RegistryError\<close>.\<close>

definition request_failure :: "http_failure \<Rightarrow> exn + nat list option" where
  "request_failure f =
     (case f of
        HTTPError status \<Rightarrow> if status = 404 then Inr None else Inl RegistryError
      | TransportError \<Rightarrow> Inl RegistryError
      | OtherFailure e \<Rightarrow> Inl e)"

definition response_body :: "http_method \<Rightarrow> http_response \<Rightarrow> exn + nat list option" where
  "response_body method response =
     (if h_status response \<noteq> (if method = GET then 200 else 204) then Inl RegistryError
      else if method = HTTP_DELETE then Inr (Some [])
      else case h_read response (MAX_LISTING_BYTES + 1) of
        Inl f \<Rightarrow> request_failure f
      | Inr body \<Rightarrow> if MAX_LISTING_BYTES < length body then Inl RegistryError else Inr (Some body))"

definition answer :: "http_method \<Rightarrow> http_failure + http_response \<Rightarrow> exn + nat list option" where
  "answer method a =
     (case a of Inl f \<Rightarrow> request_failure f | Inr response \<Rightarrow> response_body method response)"

definition send_request ::
  "'x transport \<Rightarrow> artifactory \<Rightarrow> http_method \<Rightarrow> pystr \<Rightarrow> ('x, nat list option) client" where
  "send_request open_request r method path x =
     (case open_request \<lparr>q_method = method, q_url = ar_base_url r @ str ''/'' @ path,
             q_authorization = ar_authorization r, q_timeout = ar_timeout r\<rparr> x of
        (a, x') \<Rightarrow> (answer method a, x'))"

definition image_path :: "artifactory \<Rightarrow> uuid \<Rightarrow> pystr" where
  "image_path r automation_id = ar_prefix r @ str ''/'' @ uuid_str automation_id"

text \<open>\<open>value.get(key)\<close> of a decoded dictionary; anything else has no entry.\<close>

definition json_get :: "json \<Rightarrow> pystr \<Rightarrow> json option" where
  "json_get v key = (case v of JObj d \<Rightarrow> map_of d key | _ \<Rightarrow> None)"

definition child_entry :: "json \<Rightarrow> pystr option" where
  "child_entry child =
     (case json_get child (str ''uri'') of
        Some (JStr uri) \<Rightarrow> if take 1 uri = [47] \<and> valid_segment (drop 1 uri) then Some (drop 1 uri) else None
      | _ \<Rightarrow> None)"

definition listing_entries :: "artifactory \<Rightarrow> uuid \<Rightarrow> json \<Rightarrow> exn + pystr list" where
  "listing_entries r automation_id payload =
     (if json_get payload (str ''repo'') \<noteq> Some (JStr (ar_repository r))
        \<or> json_get payload (str ''path'') \<noteq> Some (JStr (str ''/'' @ image_path r automation_id))
      then Inl RegistryError
      else case json_get payload (str ''children'') of
        Some (JList children) \<Rightarrow>
          (case map_all child_entry children of
             None \<Rightarrow> Inl RegistryError
           | Some entries \<Rightarrow> Inr (sort (remdups entries)))
      | _ \<Rightarrow> Inl RegistryError)"

definition listing_of :: "nat \<Rightarrow> artifactory \<Rightarrow> uuid \<Rightarrow> nat list option \<Rightarrow> exn + pystr list" where
  "listing_of depth r automation_id body =
     (case body of
        None \<Rightarrow> Inr []
      | Some b \<Rightarrow>
          (case json_loads depth b of
             Inl e \<Rightarrow> Inl (if e = PyValueError then RegistryError else e)
           | Inr payload \<Rightarrow> listing_entries r automation_id payload))"

definition list_image_entries ::
  "nat \<Rightarrow> 'x transport \<Rightarrow> artifactory \<Rightarrow> uuid \<Rightarrow> ('x, pystr list) client" where
  "list_image_entries depth open_request r automation_id x =
     (case quote_path (ar_repository r @ str ''/'' @ image_path r automation_id) of
        None \<Rightarrow> (Inl PyUnicodeEncodeError, x)
      | Some path \<Rightarrow>
          (case send_request open_request r GET (str ''api/storage/'' @ path) x of
             (Inl e, x') \<Rightarrow> (Inl e, x')
           | (Inr body, x') \<Rightarrow> (listing_of depth r automation_id body, x')))"

definition delete_image ::
  "'x transport \<Rightarrow> artifactory \<Rightarrow> uuid \<Rightarrow> pystr \<Rightarrow> ('x, unit) client" where
  "delete_image open_request r automation_id entry x =
     (if \<not> valid_segment entry then (Inl RegistryError, x)
      else case quote_path (ar_repository r @ str ''/'' @ image_path r automation_id @ str ''/'' @ entry) of
        None \<Rightarrow> (Inl PyUnicodeEncodeError, x)
      | Some path \<Rightarrow>
          (case send_request open_request r HTTP_DELETE path x of
             (Inl e, x') \<Rightarrow> (Inl e, x')
           | (Inr _, x') \<Rightarrow> (Inr (), x')))"

definition ArtifactoryRegistryClient ::
  "nat \<Rightarrow> 'x transport \<Rightarrow> artifactory \<Rightarrow> 'x registry_client" where
  "ArtifactoryRegistryClient depth open_request r =
     \<lparr>rc_list_image_entries = list_image_entries depth open_request r,
      rc_delete_image = delete_image open_request r\<rparr>"

section \<open>Segments and paths\<close>

lemma segment_char_facts: "segment_char c \<Longrightarrow> c \<noteq> 47 \<and> c \<noteq> 37 \<and> c < 128"
  by (auto simp: segment_char_def char_class_defs)

lemma valid_segment_no_slash: "valid_segment s \<Longrightarrow> 47 \<notin> set s \<and> list_all (\<lambda>c. c < 128) s"
  by (auto simp: valid_segment_def list_all_iff dest: segment_char_facts)

lemma split_at_append: "split_at c (a @ c # b) = split_at c a @ split_at c b"
  by (induction a) (auto split: list.splits)

lemma split_at_chars: "x \<in> set s \<Longrightarrow> x = c \<or> (\<exists>p \<in> set (split_at c s). x \<in> set p)"
  by (induction s) (auto split: list.splits)

definition artifactory_ok :: "artifactory \<Rightarrow> bool" where
  "artifactory_ok r \<longleftrightarrow> valid_segment (ar_repository r) \<and> list_all valid_segment (split_at 47 (ar_prefix r))
     \<and> ar_timeout r \<noteq> PyNaN \<and> \<not> list_ex is_space (ar_base_url r) \<and> (ar_base_url r \<noteq> [] \<longrightarrow> last (ar_base_url r) \<noteq> 47)"

definition image_segments :: "artifactory \<Rightarrow> uuid \<Rightarrow> pystr list" where
  "image_segments r i = ar_repository r # split_at 47 (ar_prefix r) @ [uuid_str i]"

definition path_char :: "nat \<Rightarrow> bool" where
  "path_char c \<longleftrightarrow> is_unreserved c \<or> c = 47 \<or> c = 37"

lemma uuid_str_segment: "valid_segment (uuid_str i)"
proof -
  have "segment_char c" if "c \<in> set (uuid_str i)" for c
    using uuid_str_chars [OF that] by (auto simp: segment_char_def char_class_defs)
  moreover have "8 \<le> length (uuid_str i)" by (simp add: uuid_str_def Let_def length_uuid_hex)
  ultimately show ?thesis by (auto simp: valid_segment_def list_all_iff str_def)
qed

lemma image_path_facts:
  fixes i :: uuid
  assumes "artifactory_ok r"
  defines "p \<equiv> ar_repository r @ str ''/'' @ image_path r i"
  shows "split_at 47 p = image_segments r i" and "list_all (\<lambda>c. c < 128) p"
proof -
  have p: "p = ar_repository r @ 47 # ar_prefix r @ 47 # uuid_str i"
    by (simp add: p_def image_path_def str_def)
  have repo: "valid_segment (ar_repository r)" and pre: "\<forall>s \<in> set (split_at 47 (ar_prefix r)). valid_segment s"
    using assms(1) by (auto simp: artifactory_ok_def list_all_iff)
  show "split_at 47 p = image_segments r i"
    using repo uuid_str_segment [of i] by (simp add: p image_segments_def split_at_append split_at_none
        valid_segment_no_slash)
  have "c < 128" if "c \<in> set (ar_prefix r)" for c
    using split_at_chars [OF that, of 47] pre valid_segment_no_slash by (auto simp: list_all_iff)
  then show "list_all (\<lambda>c. c < 128) p"
    using valid_segment_no_slash [OF repo] valid_segment_no_slash [OF uuid_str_segment [of i]]
    by (auto simp: p list_all_iff)
qed

text \<open>Quoting an ASCII path: the result decodes to the path and stays inside the path part of a
  URL.\<close>

lemma quoted_path:
  assumes "list_all (\<lambda>c. c < 128) p"
  obtains q where "quote_path p = Some q" and "unquote_bytes q = p" and "list_all path_char q"
proof
  show "quote_path p = Some (concat (map quote_byte p))" using assms by (rule quote_path_ascii)
  have "list_all (\<lambda>c. c < 256) p" using assms by (rule list.pred_mono_strong) simp
  then show "unquote_bytes (concat (map quote_byte p)) = p" by (rule unquote_quote_bytes)
  have "path_char (hex_upper d)" if "d < 16" for d
    using that by (auto simp: path_char_def is_unreserved_def hex_upper_def char_class_defs)
  then have "list_all path_char (quote_byte c)" if "c < 128" for c
    using that by (simp add: quote_byte_def path_char_def [of c] path_char_def [of 37])
  with assms show "list_all path_char (concat (map quote_byte p))"
    by (induction p) auto
qed

lemma new_artifactory_ok:
  assumes "new_artifactory u base repo prefix token user pass timeout = Inr r"
  shows "artifactory_ok r" and "ar_repository r = repo" and "ar_prefix r = prefix"
    and "isfinite (ar_timeout r) \<and> \<not> py_float_le_zero (ar_timeout r)"
    and "13 \<notin> set (ar_authorization r) \<and> 10 \<notin> set (ar_authorization r)"
proof -
  have base: "\<not> list_ex is_space base" and r: "r = \<lparr>ar_base_url = rstrip_char 47 base, ar_repository = repo,
      ar_prefix = prefix, ar_authorization = ar_authorization r, ar_timeout = timeout\<rparr>"
    and ok: "valid_segment repo" "list_all valid_segment (split_at 47 prefix)" "isfinite timeout"
      "\<not> py_float_le_zero timeout" "13 \<notin> set (ar_authorization r)" "10 \<notin> set (ar_authorization r)"
    using assms by (auto simp: new_artifactory_def valid_base_url_def split: option.splits if_splits sum.splits)
  obtain k where "base = rstrip_char 47 base @ replicate k 47" using rstrip_char_prefix by blast
  then have "set (rstrip_char 47 base) \<subseteq> set base" by (metis Un_upper1 set_append)
  with base have "\<not> list_ex is_space (rstrip_char 47 base)" by (auto simp: list_ex_iff)
  with ok show "artifactory_ok r"
    by (subst r, simp add: artifactory_ok_def last_rstrip_char) (auto simp: isfinite_def)
  show "ar_repository r = repo" "ar_prefix r = prefix"
    "isfinite (ar_timeout r) \<and> \<not> py_float_le_zero (ar_timeout r)"
    "13 \<notin> set (ar_authorization r) \<and> 10 \<notin> set (ar_authorization r)"
    using ok by (subst r, simp)+
qed

end
