(* ===== verification/Registry_Correct.thy ===== *)
theory Registry_Correct
  imports Registry Cascade_Correct
begin

text \<open>
  What the Artifactory client guarantees to the cascade: every request stays below the image path
  of the automation it is asked about, every listing is a sorted list of distinct segments it
  will itself accept for deletion, and over a server that keeps the documented storage API it is
  the registry that \<open>services_up\<close> asks for.
\<close>

section \<open>Where a request goes\<close>

text \<open>The server's view: below the base URL, the percent-decoded segments of the path. No
  character of the quoted path ends the path part of the URL.\<close>

definition addresses :: "artifactory \<Rightarrow> pystr \<Rightarrow> pystr list \<Rightarrow> http_request \<Rightarrow> bool" where
  "addresses r api segments q \<longleftrightarrow> q_authorization q = ar_authorization r \<and> q_timeout q = ar_timeout r
     \<and> (\<exists>path. q_url q = ar_base_url r @ str ''/'' @ api @ path \<and> list_all path_char path
          \<and> split_at 47 (unquote_bytes path) = segments)"

definition confined :: "artifactory \<Rightarrow> uuid \<Rightarrow> http_request \<Rightarrow> bool" where
  "confined r i q \<longleftrightarrow>
     (q_method q = GET \<and> addresses r (str ''api/storage/'') (image_segments r i) q)
   \<or> (q_method q = HTTP_DELETE \<and> (\<exists>entry. valid_segment entry \<and> addresses r [] (image_segments r i @ [entry]) q))"

text \<open>An exchange or a transport that remembers what it was asked.\<close>

definition recording ::
  "(http_request \<Rightarrow> 'x \<Rightarrow> 'a \<times> 'x) \<Rightarrow> http_request \<Rightarrow> http_request list \<times> 'x \<Rightarrow> 'a \<times> http_request list \<times> 'x" where
  "recording t q = (\<lambda>(log, x). case t q x of (a, x') \<Rightarrow> (a, (log @ [q], x')))"

text \<open>Without redirects the opener makes one exchange per request.\<close>

lemma request_opener_recording: "request_opener None (recording e) = recording (request_opener None e)"
  by (intro ext)
    (auto simp: request_opener_def open_url.simps recording_def redirect_request_def Let_def
      split: prod.splits sum.splits option.splits)

definition asked_only :: "(http_request \<Rightarrow> bool) \<Rightarrow> http_request list \<times> 'x \<Rightarrow> http_request list \<times> 'x \<Rightarrow> bool" where
  "asked_only P x x' \<longleftrightarrow> (\<exists>qs. fst x' = fst x @ qs \<and> list_all P qs)"

lemma asked_only_refl [simp]: "asked_only P x x"
  by (simp add: asked_only_def)

lemma asked_only_trans: "asked_only P x y \<Longrightarrow> asked_only P y z \<Longrightarrow> asked_only P x z"
proof -
  assume "asked_only P x y" and "asked_only P y z"
  then obtain a b where "fst y = fst x @ a" "list_all P a" "fst z = fst y @ b" "list_all P b"
    unfolding asked_only_def by blast
  then show ?thesis unfolding asked_only_def by (intro exI [of _ "a @ b"]) simp
qed

text \<open>The two requests the client makes, and what it makes of the answers.\<close>

definition query_of :: "artifactory \<Rightarrow> http_method \<Rightarrow> pystr \<Rightarrow> pystr \<Rightarrow> http_request" where
  "query_of r method api path =
     \<lparr>q_method = method, q_url = ar_base_url r @ str ''/'' @ api @ concat (map quote_byte path),
      q_authorization = ar_authorization r, q_timeout = ar_timeout r\<rparr>"

definition listing_query :: "artifactory \<Rightarrow> uuid \<Rightarrow> http_request" where
  "listing_query r i = query_of r GET (str ''api/storage/'') (ar_repository r @ str ''/'' @ image_path r i)"

definition delete_query :: "artifactory \<Rightarrow> uuid \<Rightarrow> pystr \<Rightarrow> http_request" where
  "delete_query r i entry =
     query_of r HTTP_DELETE [] (ar_repository r @ str ''/'' @ image_path r i @ str ''/'' @ entry)"

lemma entry_path_facts:
  assumes "artifactory_ok r" and "valid_segment entry"
  shows "split_at 47 (ar_repository r @ str ''/'' @ image_path r i @ str ''/'' @ entry) = image_segments r i @ [entry]"
    and "list_all (\<lambda>c. c < 128) (ar_repository r @ str ''/'' @ image_path r i @ str ''/'' @ entry)"
proof -
  let ?root = "ar_repository r @ str ''/'' @ image_path r i"
  have path: "ar_repository r @ str ''/'' @ image_path r i @ str ''/'' @ entry = ?root @ 47 # entry"
    by (simp add: str_def)
  note seg = valid_segment_no_slash [OF assms(2)]
  show "split_at 47 (ar_repository r @ str ''/'' @ image_path r i @ str ''/'' @ entry) = image_segments r i @ [entry]"
    unfolding path split_at_append image_path_facts(1) [OF assms(1)] using seg by (simp add: split_at_none)
  show "list_all (\<lambda>c. c < 128) (ar_repository r @ str ''/'' @ image_path r i @ str ''/'' @ entry)"
    unfolding path using image_path_facts(2) [OF assms(1), of i] seg by (simp only: list_all_append) simp
qed

lemma query_of_addresses:
  assumes "list_all (\<lambda>c. c < 128) path"
  shows "addresses r api (split_at 47 path) (query_of r method api path)"
  using quoted_path [OF assms] quote_path_ascii [OF assms]
  unfolding addresses_def query_of_def by (metis http_request.select_convs option.inject)

lemma listing_query_addresses:
  assumes "artifactory_ok r"
  shows "addresses r (str ''api/storage/'') (image_segments r i) (listing_query r i)"
  using query_of_addresses [OF image_path_facts(2) [OF assms, of i], of r _ GET]
  by (simp add: listing_query_def image_path_facts(1) [OF assms])

lemma delete_query_addresses:
  assumes "artifactory_ok r" and "valid_segment entry"
  shows "addresses r [] (image_segments r i @ [entry]) (delete_query r i entry)"
  using query_of_addresses [OF entry_path_facts(2) [OF assms, of i], of r _ HTTP_DELETE]
  by (simp add: delete_query_def entry_path_facts(1) [OF assms])

lemma list_image_entries_run:
  assumes "artifactory_ok r"
  shows "list_image_entries depth t r i x = map_prod
    (\<lambda>a. case answer GET a of Inl e \<Rightarrow> Inl e | Inr body \<Rightarrow> listing_of depth r i body) id (t (listing_query r i) x)"
  using quote_path_ascii [OF image_path_facts(2) [OF assms, of i]]
  by (simp add: list_image_entries_def send_request_def listing_query_def query_of_def split: prod.splits sum.splits)

lemma delete_image_run:
  assumes "artifactory_ok r" and "valid_segment entry"
  shows "delete_image t r i entry x = map_prod
    (\<lambda>a. case answer HTTP_DELETE a of Inl e \<Rightarrow> Inl e | Inr _ \<Rightarrow> Inr ()) id (t (delete_query r i entry) x)"
  using quote_path_ascii [OF entry_path_facts(2) [OF assms, of i]] assms(2)
  by (simp add: delete_image_def send_request_def delete_query_def query_of_def split: prod.splits sum.splits)

lemma recording_asks: "map_prod f id (recording t q x) = (a, x') \<Longrightarrow> P q \<Longrightarrow> asked_only P x x'"
  by (cases x) (auto simp: recording_def asked_only_def split: prod.splits)

lemma listing_asks:
  assumes "artifactory_ok r" and "list_image_entries depth (recording t) r i x = (a, x')"
  shows "asked_only (confined r i) x x'"
  using assms(2) [unfolded list_image_entries_run [OF assms(1)]]
  by (rule recording_asks)
    (use listing_query_addresses [OF assms(1)] in \<open>simp add: confined_def listing_query_def query_of_def\<close>)

lemma delete_asks:
  assumes "artifactory_ok r" and "delete_image (recording t) r i entry x = (a, x')"
  shows "asked_only (confined r i) x x'"
proof (cases "valid_segment entry")
  case False
  with assms(2) show ?thesis by (simp add: delete_image_def)
next
  case True
  then have "confined r i (delete_query r i entry)"
    using delete_query_addresses [OF assms(1)] by (auto simp: confined_def delete_query_def query_of_def)
  then show ?thesis using assms(2) [unfolded delete_image_run [OF assms(1) True]] by (rule recording_asks [rotated])
qed

section \<open>The cleanup step\<close>

text \<open>\<open>moves Q m\<close>: whatever the computation does to the external state is related by \<open>Q\<close>.\<close>

definition moves :: "('x \<Rightarrow> 'x \<Rightarrow> bool) \<Rightarrow> ('x, 'a) io \<Rightarrow> bool" where
  "moves Q m \<longleftrightarrow> (\<forall>w r w'. m w = (r, w') \<longrightarrow> Q (w_ext w) (w_ext w'))"

lemma moves_call: "(\<And>x a x'. f x = (a, x') \<Longrightarrow> Q x x') \<Longrightarrow> moves Q (io_call c f)"
  by (auto simp: moves_def io_defs split: prod.splits)

lemma moves_bind:
  assumes "transp Q" and "moves Q m" and "\<And>a. moves Q (k a)"
  shows "moves Q (io_bind m k)"
  using assms unfolding moves_def io_bind_def
  by (auto split: prod.splits sum.splits) (meson transpD)

lemma moves_catch:
  assumes "transp Q" and "moves Q m" and "\<And>e. moves Q (h e)"
  shows "moves Q (io_catch m h)"
  using assms unfolding moves_def io_catch_def
  by (auto split: prod.splits sum.splits) (meson transpD)

lemma moves_pure: "reflp Q \<Longrightarrow> moves Q (io_return a)" "reflp Q \<Longrightarrow> moves Q (io_raise e)"
  by (auto simp: moves_def io_defs reflpD)

lemma begin_session_ext: "begin_session w = (oc, w1) \<Longrightarrow> w_ext w1 = w_ext w"
  by (auto simp: begin_session_def split: list.splits)

lemma moves_session: "reflp Q \<Longrightarrow> moves Q (get_session lock t)"
  by (auto simp: moves_def get_session_def reflpD dest!: begin_session_ext
      split: prod.splits session_outcome.splits sum.splits)

text \<open>The cleanup step asks the registry client only, and only about its automation.\<close>

lemma step_delete_images_moves:
  assumes refl: "reflp Q" and trans: "transp Q"
    and list: "\<And>x a x'. rc_list_image_entries (cd_registry deps) (a_id au) x = (a, x') \<Longrightarrow> Q x x'"
    and delete: "\<And>e x a x'. rc_delete_image (cd_registry deps) (a_id au) e x = (a, x') \<Longrightarrow> Q x x'"
  shows "moves Q (step_delete_images deps au)"
proof -
  note rules = moves_pure [OF refl] moves_session [OF refl] moves_bind [OF trans]
    moves_catch [OF trans] moves_call
  have l: "moves Q (list_entries deps (a_id au))"
    unfolding list_entries_def by (intro rules list)
  have d: "moves Q (delete_entries deps (a_id au) es)" for es
    by (induction es) (simp_all add: external_def, intro rules, (intro rules delete)+)
  have s: "moves Q (save (a_id au) STEP_IMAGES_DELETED None)"
    unfolding save_def checkpoint_def by (intro rules)
  show ?thesis unfolding step_delete_images_def using l d s by (auto intro!: rules)
qed

section \<open>What a listing returns\<close>

lemma map_all_Some: "map_all f xs = Some ys \<longleftrightarrow> list_all2 (\<lambda>x y. f x = Some y) xs ys"
  by (induction xs arbitrary: ys) (auto simp: list_all2_Cons1 split: option.splits)

lemma child_entry_valid: "child_entry c = Some e \<Longrightarrow> valid_segment e"
  by (auto simp: child_entry_def split: option.splits json.splits if_splits)

lemma listing_entries_shape:
  assumes "listing_entries r i payload = Inr es"
  shows "sorted es \<and> distinct es \<and> list_all valid_segment es"
proof -
  from assms obtain children entries where "map_all child_entry children = Some entries"
    and "es = sort (remdups entries)"
    by (auto simp: listing_entries_def split: if_splits option.splits json.splits)
  moreover from this(1) have "\<forall>e \<in> set entries. valid_segment e"
    by (auto simp: map_all_Some list_all2_conv_all_nth in_set_conv_nth) (metis child_entry_valid)
  ultimately show ?thesis by (auto simp: list_all_iff)
qed

lemma listing_of_shape:
  "listing_of depth r i body = Inr es \<Longrightarrow> sorted es \<and> distinct es \<and> list_all valid_segment es"
  by (auto simp: listing_of_def split: option.splits sum.splits dest: listing_entries_shape)

lemma list_image_entries_shape:
  "list_image_entries depth t r i x = (Inr es, x') \<Longrightarrow> sorted es \<and> distinct es \<and> list_all valid_segment es"
  by (auto simp: list_image_entries_def split: option.splits prod.splits sum.splits dest: listing_of_shape)

lemma external_trace:
  assumes "external k code c f w = (a, w1)"
  shows "w_trace w1 = w_trace w @ [Called c]"
proof -
  obtain r x' where f: "f (w_ext w) = (r, x')" by (rule prod.exhaust)
  show ?thesis
    using assms by (cases r) (auto simp: external_def io_catch_def io_bind_def io_call_run [of f w, OF f] io_run)
qed

text \<open>The registry interface of the cascade: a listing is sorted, without repetition, and made of
  entries the client accepts for deletion; any other entry is refused before it is sent.\<close>

locale image_registry =
  fixes list_images :: "uuid \<Rightarrow> ('x, pystr list) client"
    and delete :: "uuid \<Rightarrow> pystr \<Rightarrow> ('x, unit) client"
    and accepts :: "pystr \<Rightarrow> bool"
  assumes listed: "list_images i x = (Inr es, x') \<Longrightarrow> sorted es \<and> distinct es \<and> list_all accepts es"
    and refused: "\<not> accepts e \<Longrightarrow> \<exists>err. delete i e x = (Inl err, x)"
begin

lemma delete_entries_calls:
  assumes "rc_delete_image (cd_registry deps) = delete" and "delete_entries deps i es w = (r, w')"
  shows "\<exists>n. w_trace w' = w_trace w @ map (\<lambda>e. Called (RegistryDelete i e)) (take n es)"
  using assms(2)
proof (induction es arbitrary: w)
  case Nil
  then show ?case by (auto simp: io_simps)
next
  case (Cons e es)
  obtain a w1 where a: "external STEP_IMAGES_DELETED (str ''registry_delete_failed'') (RegistryDelete i e)
      (rc_delete_image (cd_registry deps) i e) w = (a, w1)" by (rule prod.exhaust)
  then have t: "w_trace w1 = w_trace w @ [Called (RegistryDelete i e)]"
    by (rule external_trace)
  show ?case
  proof (cases a)
    case (Inl err)
    with a Cons.prems t show ?thesis by (intro exI [of _ 1]) (auto simp: io_bind_def)
  next
    case (Inr u)
    with a Cons.prems have "delete_entries deps i es w1 = (r, w')" by (simp add: io_bind_def)
    from Cons.IH [OF this] t obtain n where "w_trace w' = w_trace w @ [Called (RegistryDelete i e)]
        @ map (\<lambda>e. Called (RegistryDelete i e)) (take n es)" by auto
    then show ?thesis by (intro exI [of _ "Suc n"]) simp
  qed
qed

text \<open>One cleanup attempt deletes each image at most once, in order, and only images the
  listing named.\<close>

lemma cleanup_deletes_once:
  assumes reg: "cd_registry deps = \<lparr>rc_list_image_entries = list_images, rc_delete_image = delete\<rparr>"
    and run: "io_bind (list_entries deps i) (delete_entries deps i) w = (r, w')"
  shows "\<exists>es. w_trace w' = w_trace w @ Called (RegistryList i) # map (\<lambda>e. Called (RegistryDelete i e)) es
    \<and> sorted es \<and> distinct es \<and> list_all accepts es"
proof -
  obtain a x1 where a: "list_images i (w_ext w) = (a, x1)" by (rule prod.exhaust)
  let ?w1 = "w\<lparr>w_ext := x1, w_trace := w_trace w @ [Called (RegistryList i)]\<rparr>"
  show ?thesis
  proof (cases a)
    case (Inl e)
    with a reg run show ?thesis
      by (intro exI [of _ "[]"]) (auto simp: io_bind_def list_entries_def io_catch_def io_simps)
  next
    case (Inr es)
    with a reg have l: "list_entries deps i w = (Inr es, ?w1)"
      by (simp add: list_entries_def io_catch_def io_simps)
    with run have "delete_entries deps i es ?w1 = (r, w')" by (simp add: io_bind_def)
    from delete_entries_calls [OF _ this] reg obtain n where
      "w_trace w' = w_trace w @ Called (RegistryList i) # map (\<lambda>e. Called (RegistryDelete i e)) (take n es)"
      by auto
    moreover have "sorted (take n es) \<and> distinct (take n es) \<and> list_all accepts (take n es)"
      using listed [OF a [unfolded Inr]] by (auto simp: sorted_wrt_take list_all_iff dest: in_set_takeD)
    ultimately show ?thesis by blast
  qed
qed

end

interpretation artifactory: image_registry "list_image_entries depth t r" "delete_image t r" valid_segment
  for depth and t :: "'x transport" and r
  by unfold_locales (auto simp: delete_image_def dest: list_image_entries_shape)

interpretation unconfigured: image_registry
  "rc_list_image_entries UnconfiguredRegistryClient" "rc_delete_image UnconfiguredRegistryClient" "\<lambda>_. False"
  by unfold_locales (auto simp: UnconfiguredRegistryClient_def raising_def)

section \<open>A server that keeps the storage API\<close>

text \<open>\<open>folder_info\<close>: the body is a folder-info document of the image path whose children are the names,
  in any order. \<open>serves_storage\<close>: folder info of an image path is such a document, or a 404 when
  the path holds nothing; deleting a child removes it, or is a 404 when it is not there; nothing
  else touches the inventory.\<close>

definition folder_info :: "nat \<Rightarrow> artifactory \<Rightarrow> uuid \<Rightarrow> pystr list \<Rightarrow> http_failure + nat list \<Rightarrow> bool" where
  "folder_info depth r i names read \<longleftrightarrow> (\<exists>body payload children ns.
     read = Inr body \<and> length body \<le> MAX_LISTING_BYTES \<and> json_loads depth body = Inr payload
     \<and> json_get payload (str ''repo'') = Some (JStr (ar_repository r))
     \<and> json_get payload (str ''path'') = Some (JStr (str ''/'' @ image_path r i))
     \<and> json_get payload (str ''children'') = Some (JList children)
     \<and> list_all2 (\<lambda>c n. json_get c (str ''uri'') = Some (JStr (str ''/'' @ n))) children ns
     \<and> set ns = set names)"

definition serves_storage ::
  "nat \<Rightarrow> 'x transport \<Rightarrow> artifactory \<Rightarrow> ('x \<Rightarrow> uuid \<Rightarrow> pystr list) \<Rightarrow> bool" where
  "serves_storage depth t r invent \<longleftrightarrow>
     (\<forall>i x. sorted (invent x i) \<and> distinct (invent x i) \<and> list_all valid_segment (invent x i))
   \<and> (\<forall>i q x. q_method q = GET \<and> addresses r (str ''api/storage/'') (image_segments r i) q \<longrightarrow>
        (\<exists>x'. invent x' = invent x
          \<and> (t q x = (Inl (HTTPError 404), x') \<and> invent x i = []
           \<or> (\<exists>resp. t q x = (Inr resp, x') \<and> h_status resp = 200
                \<and> folder_info depth r i (invent x i) (h_read resp (MAX_LISTING_BYTES + 1))))))
   \<and> (\<forall>i e q x. q_method q = HTTP_DELETE \<and> valid_segment e \<and> addresses r [] (image_segments r i @ [e]) q \<longrightarrow>
        (\<exists>x'. invent x' i = removeAll e (invent x i)
          \<and> (t q x = (Inl (HTTPError 404), x') \<or> (\<exists>resp. t q x = (Inr resp, x') \<and> h_status resp = 204))))"

lemma child_entries_listed:
  "list_all2 (\<lambda>c n. json_get c (str ''uri'') = Some (JStr (str ''/'' @ n))) children ns \<Longrightarrow>
     \<forall>n \<in> set ns. valid_segment n \<Longrightarrow> map_all child_entry children = Some ns"
  by (induction children ns rule: list_all2_induct) (auto simp: child_entry_def str_def)

lemma listing_of_listed:
  assumes "folder_info depth r i names read" and "sorted names" and "distinct names" and "list_all valid_segment names"
  shows "\<exists>body. read = Inr body \<and> length body \<le> MAX_LISTING_BYTES \<and> listing_of depth r i (Some body) = Inr names"
proof -
  from assms(1) obtain body payload children ns where
    body: "read = Inr body" "length body \<le> MAX_LISTING_BYTES" "json_loads depth body = Inr payload"
    and fields: "json_get payload (str ''repo'') = Some (JStr (ar_repository r))"
      "json_get payload (str ''path'') = Some (JStr (str ''/'' @ image_path r i))"
      "json_get payload (str ''children'') = Some (JList children)"
    and ns: "list_all2 (\<lambda>c n. json_get c (str ''uri'') = Some (JStr (str ''/'' @ n))) children ns" "set ns = set names"
    unfolding folder_info_def by blast
  have "map_all child_entry children = Some ns"
    using ns assms(4) by (intro child_entries_listed) (simp_all add: list_all_iff)
  moreover have "sort (remdups ns) = names"
    using ns(2) assms(2,3) by (metis distinct_remdups set_remdups sorted_list_of_set.idem_if_sorted_distinct
        sorted_list_of_set_sort_remdups)
  ultimately show ?thesis
    using body fields by (intro exI [of _ body]) (simp add: listing_of_def listing_entries_def)
qed

lemma artifactory_lists:
  assumes ok: "artifactory_ok r" and srv: "serves_storage depth t r invent"
  shows "\<exists>x'. list_image_entries depth t r i x = (Inr (invent x i), x') \<and> invent x' = invent x"
proof -
  have q: "q_method (listing_query r i) = GET" by (simp add: listing_query_def query_of_def)
  from srv q listing_query_addresses [OF ok] obtain x' where x': "invent x' = invent x"
    and t: "t (listing_query r i) x = (Inl (HTTPError 404), x') \<and> invent x i = []
     \<or> (\<exists>resp. t (listing_query r i) x = (Inr resp, x') \<and> h_status resp = 200
          \<and> folder_info depth r i (invent x i) (h_read resp (MAX_LISTING_BYTES + 1)))"
    unfolding serves_storage_def by meson
  have inv: "sorted (invent x i)" "distinct (invent x i)" "list_all valid_segment (invent x i)"
    using srv unfolding serves_storage_def by blast+
  from t have "list_image_entries depth t r i x = (Inr (invent x i), x')"
    by (auto simp: list_image_entries_run [OF ok] answer_def request_failure_def response_body_def
        dest!: listing_of_listed [OF _ inv]) (simp_all add: listing_of_def)
  with x' show ?thesis by blast
qed

lemma artifactory_deletes:
  assumes ok: "artifactory_ok r" and srv: "serves_storage depth t r invent" and e: "valid_segment e"
  shows "\<exists>x'. delete_image t r i e x = (Inr (), x') \<and> invent x' i = removeAll e (invent x i)"
proof -
  have q: "q_method (delete_query r i e) = HTTP_DELETE" by (simp add: delete_query_def query_of_def)
  from srv q e delete_query_addresses [OF ok e] obtain x' where x': "invent x' i = removeAll e (invent x i)"
    and t: "t (delete_query r i e) x = (Inl (HTTPError 404), x')
     \<or> (\<exists>resp. t (delete_query r i e) x = (Inr resp, x') \<and> h_status resp = 204)"
    unfolding serves_storage_def by meson
  from t have "delete_image t r i e x = (Inr (), x')"
    by (auto simp: delete_image_run [OF ok e] answer_def request_failure_def response_body_def)
  with x' show ?thesis by blast
qed

text \<open>The other systems of the cascade, up and indifferent to the registry.\<close>

definition others_up :: "'x cascade_deps \<Rightarrow> ('x \<Rightarrow> uuid \<Rightarrow> pystr list) \<Rightarrow> bool" where
  "others_up deps invent \<longleftrightarrow>
     (\<forall>wl n x. \<exists>x'. d_delete_capp (cd_capp deps) wl n x = (Inr (), x') \<and> invent x' = invent x)
   \<and> (\<forall>wl n x. \<exists>x'. d_delete_secret (cd_capp deps) wl n x = (Inr (), x') \<and> invent x' = invent x)
   \<and> (\<forall>i actor x. \<exists>c x'. g_archive (cd_git deps) i actor x = (Inr c, x') \<and> invent x' = invent x)"

lemma artifactory_services_up:
  assumes "artifactory_ok r" and srv: "serves_storage depth t r invent" and "others_up deps invent"
    and "cd_registry deps = ArtifactoryRegistryClient depth t r"
  shows "services_up deps invent"
proof -
  have "valid_segment e" if "e \<in> set (invent y i)" for e y i
    using srv that unfolding serves_storage_def list_all_iff by blast
  with assms show ?thesis
    by (auto simp: services_up_def others_up_def ArtifactoryRegistryClient_def
        intro!: artifactory_lists [OF assms(1) srv] artifactory_deletes [OF assms(1) srv])
qed

section \<open>Samples\<close>

definition sample_tables :: unicode_tables where
  "sample_tables = \<lparr>u_nfkc = (\<lambda>s. s), u_lower = ascii_lower\<rparr>"

definition sample_art :: artifactory where
  "sample_art = \<lparr>ar_base_url = str ''https://registry.example/artifactory'', ar_repository = str ''docker'',
     ar_prefix = str ''automations'', ar_authorization = str ''Bearer t'', ar_timeout = PyFloat 10 0\<rparr>"

lemma sample_art_built:
  "new_artifactory sample_tables (str ''https://registry.example/artifactory/'') (str ''docker'')
     (str ''automations'') (str ''t'') [] [] (PyFloat 10 0) = Inr sample_art"
proof -
  have "valid_base_url sample_tables (str ''https://registry.example/artifactory/'')"
    by (simp add: valid_base_url_def sample_tables_def url_hostname_def url_username_def url_password_def
        before_last_def url_defs str_def is_space_def)
  moreover have "rstrip_char 47 (str ''https://registry.example/artifactory/'')
      = str ''https://registry.example/artifactory''"
    by (simp add: rstrip_char_def str_def)
  ultimately show ?thesis
    by (simp add: new_artifactory_def valid_segment_def segment_char_def char_class_defs str_def isfinite_def
        py_float_le_zero_def authorization_of_def sample_art_def)
qed

lemmas sample_art_ok = new_artifactory_ok(1) [OF sample_art_built]

definition sample_body :: pystr where
  "sample_body = 123 # dumps_str (str ''repo'') @ [58] @ dumps_scalar (Some (str ''docker'')) @ 44
     # dumps_str (str ''path'') @ [58] @ dumps_scalar (Some (str ''/'' @ image_path sample_art sample_id)) @ 44
     # dumps_str (str ''children'') @ [58] @ [91] @ dumps [(str ''uri'', Some (str ''/v1''))] @ [93, 125]"

definition sample_listing :: json where
  "sample_listing = JObj [(str ''repo'', JStr (str ''docker'')),
     (str ''path'', JStr (str ''/'' @ image_path sample_art sample_id)),
     (str ''children'', JList [JObj [(str ''uri'', JStr (str ''/v1''))]])]"

lemma proper_ascii: "list_all (\<lambda>c. c < 128) s \<Longrightarrow> proper_text s"
  by (auto simp: proper_text_def is_surrogate_def list_all_iff)

lemma sample_proper:
  "proper_text (str ''repo'')" "proper_text (str ''docker'')" "proper_text (str ''path'')"
  "proper_text (str ''/'' @ image_path sample_art sample_id)" "proper_text (str ''children'')"
  "proper_text (str ''uri'')" "proper_text (str ''/v1'')"
proof -
  have "list_all (\<lambda>c. c < 128) (ar_repository sample_art @ str ''/'' @ image_path sample_art sample_id)"
    using image_path_facts(2) [OF sample_art_ok] .
  then have "list_all (\<lambda>c. c < 128) (str ''/'' @ image_path sample_art sample_id)" by simp
  then show "proper_text (str ''/'' @ image_path sample_art sample_id)" by (rule proper_ascii)
qed (simp_all add: proper_text_def is_surrogate_def str_def)

lemma dumps_str_opens [simp]:
  "skip (dumps_str s @ r) = dumps_str s @ r" "take (Suc 0) (dumps_str s) = [34]"
  "Suc 0 - length (dumps_str s) = 0"
  by (simp_all add: dumps_str_def)

lemma sample_child_parses:
  assumes "0 < d"
  shows "parse_value (Suc (Suc (Suc n))) d (dumps [(str ''uri'', Some (str ''/v1''))] @ r)
    = Parsed (JObj [(str ''uri'', JStr (str ''/v1''))]) r"
proof -
  have "parse_members (Suc (Suc n)) (d - 1) [] (dumps_members [(str ''uri'', Some (str ''/v1''))] @ 125 # r)
      = Parsed (JObj [(str ''uri'', JStr (str ''/v1''))]) r"
    using parse_dumps_members [of "[(str ''uri'', Some (str ''/v1''))]" "Suc (Suc n)" "[]" "d - 1" r] sample_proper
    by (simp add: json_scalar_def)
  with assms show ?thesis by (simp add: dumps_def parse_value.simps(2) [of "Suc (Suc n)"])
qed

lemma sample_children_parse:
  assumes "1 < d"
  shows "parse_members (Suc (Suc (Suc (Suc (Suc (Suc n)))))) d acc
     (dumps_str (str ''children'') @ [58] @ [91] @ dumps [(str ''uri'', Some (str ''/v1''))] @ [93, 125])
   = Parsed (JObj (dict_put (str ''children'') (JList [JObj [(str ''uri'', JStr (str ''/v1''))]]) acc)) []"
proof -
  let ?child = "dumps [(str ''uri'', Some (str ''/v1''))]"
  have "skip (?child @ [93, 125]) = ?child @ [93, 125]" and "take 1 (?child @ [93, 125]) \<noteq> [93]"
    by (simp_all add: dumps_def)
  moreover have "parse_items (Suc (Suc (Suc (Suc n)))) (d - 1) [] (?child @ [93, 125])
      = Parsed (JList [JObj [(str ''uri'', JStr (str ''/v1''))]]) [125]"
    using assms by (simp add: parse_items.simps(2) [of "Suc (Suc (Suc n))"] sample_child_parses json_space_def)
  ultimately have "parse_value (Suc (Suc (Suc (Suc (Suc n))))) d (91 # ?child @ [93, 125])
      = Parsed (JList [JObj [(str ''uri'', JStr (str ''/v1''))]]) [125]"
    using assms by (simp add: parse_value.simps(2) [of "Suc (Suc (Suc (Suc n)))"])
  then show ?thesis
    by (simp add: parse_members.simps(2) [of "Suc (Suc (Suc (Suc (Suc n))))"] dumps_str_def scan_dumps_str
        sample_proper json_space_def)
qed

lemma sample_body_loads: "json_loads 3 sample_body = Inr sample_listing"
proof -
  let ?kids = "dumps_str (str ''children'') @ [58] @ [91] @ dumps [(str ''uri'', Some (str ''/v1''))] @ [93, 125]"
  let ?path = "str ''/'' @ image_path sample_art sample_id"
  have parts: "list_all (\<lambda>c. 0 < c \<and> c < 128) (dumps_str s)" if "proper_text s" for s
    using dumps_ascii [OF that] by (simp add: dumps_str_def)
  have "list_all (\<lambda>c. 0 < c \<and> c < 128) (dumps_members [(str ''uri'', Some (str ''/v1''))])"
    by (rule dumps_members_ascii) (simp add: sample_proper)
  then have "list_all (\<lambda>c. 0 < c \<and> c < 128) sample_body"
    using parts sample_proper by (simp add: sample_body_def dumps_def dumps_scalar_def)
  then have dec: "decode_json_bytes sample_body = Some sample_body" by (rule decode_ascii)
  have "8 \<le> length sample_body" by (simp add: sample_body_def dumps_str_def dumps_def)
  then obtain n where n: "parse_fuel sample_body = Suc (Suc (Suc (Suc (Suc (Suc (Suc (Suc (Suc n))))))))"
    by (intro that [of "2 * length sample_body - 8"]) (simp add: parse_fuel_def)
  have "parse_value (Suc (Suc (Suc (Suc (Suc (Suc (Suc (Suc (Suc n))))))))) 3 sample_body = Parsed sample_listing []"
    using parse_dumps_member [OF sample_proper(1), of "Some (str ''docker'')" 44 "Suc (Suc (Suc (Suc (Suc (Suc n)))))" 2 "[]"
        "dumps_str (str ''path'') @ [58] @ dumps_scalar (Some ?path) @ 44 # ?kids"]
      parse_dumps_member [OF sample_proper(3), of "Some ?path" 44 "Suc (Suc (Suc (Suc (Suc n))))" 2
        "[(str ''repo'', JStr (str ''docker''))]" ?kids]
      sample_children_parse [of 2 n "[(str ''repo'', JStr (str ''docker'')), (str ''path'', JStr ?path)]"]
      sample_proper
    by (simp add: sample_body_def parse_value.simps(2) [of "Suc (Suc (Suc (Suc (Suc (Suc (Suc (Suc n)))))))"]
        json_scalar_def dict_put_def sample_listing_def)
  moreover have "skip sample_body = sample_body" by (simp add: sample_body_def)
  ultimately show ?thesis by (simp add: json_loads_def dec json_decode_def n)
qed

text \<open>A small server for the sample client: it decodes the path it is asked for and holds one image
  of one automation, or none.\<close>

definition asked_segments :: "pystr \<Rightarrow> http_request \<Rightarrow> pystr list" where
  "asked_segments api q = split_at 47 (unquote_bytes (drop (length (ar_base_url sample_art @ str ''/'' @ api)) (q_url q)))"

definition sample_server :: "bool transport" where
  "sample_server q present =
     (if q_method q = GET then
        (if asked_segments (str ''api/storage/'') q = image_segments sample_art sample_id \<and> present
         then (Inr \<lparr>h_status = 200, h_read = (\<lambda>n. Inr (take n sample_body))\<rparr>, present)
         else (Inl (HTTPError 404), present))
      else if asked_segments [] q = image_segments sample_art sample_id @ [str ''v1'']
      then (Inr \<lparr>h_status = 204, h_read = (\<lambda>n. Inr [])\<rparr>, False)
      else (Inl (HTTPError 404), present))"

definition sample_invent :: "bool \<Rightarrow> uuid \<Rightarrow> pystr list" where
  "sample_invent present i = (if present \<and> i = sample_id then [str ''v1''] else [])"

lemma asked_addresses: "addresses sample_art api segs q \<Longrightarrow> asked_segments api q = segs"
  by (auto simp: addresses_def asked_segments_def)

lemma image_segments_eq [simp]: "image_segments r i = image_segments r j \<longleftrightarrow> i = j"
  by (simp add: image_segments_def)

lemma sample_body_short: "length sample_body \<le> MAX_LISTING_BYTES"
proof -
  have esc: "length (escape_char c) \<le> 12" for c by (simp add: escape_char_def)
  then have "length (concat (map escape_char s)) \<le> 12 * length s" for s
    by (induction s) (auto intro: add_mono order_trans [OF add_mono])
  then have str: "length (dumps_str s) \<le> 12 * length s + 2" for s by (simp add: dumps_str_def)
  have "length (image_path sample_art sample_id) \<le> 60"
    by (simp add: image_path_def sample_art_def str_def uuid_str_def Let_def length_uuid_hex)
  with str [of "str ''/'' @ image_path sample_art sample_id"] str [of "str ''repo''"] str [of "str ''docker''"]
    str [of "str ''path''"] str [of "str ''children''"] str [of "str ''uri''"] str [of "str ''/v1''"]
  show ?thesis
    by (simp add: sample_body_def dumps_def dumps_scalar_def MAX_LISTING_BYTES_def str_def)
qed

lemma sample_lists: "folder_info 3 sample_art sample_id [str ''v1''] (Inr sample_body)"
  unfolding folder_info_def
  by (intro exI [of _ sample_body] exI [of _ sample_listing] exI [of _ "[JObj [(str ''uri'', JStr (str ''/v1''))]]"]
      exI [of _ "[str ''v1'']"])
    (simp add: sample_body_short sample_body_loads, simp add: sample_listing_def json_get_def sample_art_def str_def)

lemma sample_server_serves: "serves_storage 3 sample_server sample_art sample_invent"
proof -
  have v1: "valid_segment (str ''v1'')" by (simp add: valid_segment_def segment_char_def char_class_defs str_def)
  have body: "take (Suc MAX_LISTING_BYTES) sample_body = sample_body" using sample_body_short by simp
  show ?thesis
    unfolding serves_storage_def
  proof (intro conjI allI impI, goal_cases)
    case (4 i q x)
    then have "asked_segments (str ''api/storage/'') q = image_segments sample_art i" by (simp add: asked_addresses)
    with 4 show ?case
      by (intro exI [of _ x]) (auto simp: sample_server_def sample_invent_def body sample_lists)
  next
    case (5 i e q x)
    then have "asked_segments [] q = image_segments sample_art i @ [e]" by (simp add: asked_addresses)
    with 5 show ?case
      by (intro exI [of _ "if i = sample_id \<and> e = str ''v1'' then False else x"])
        (auto simp: sample_server_def sample_invent_def)
  qed (simp_all add: sample_invent_def v1)
qed

section \<open>Properties\<close>

text \<open>C16. The delete cascade through the real registry client completes: with the client built from
  accepted settings over a server that keeps the storage API, and CAPP and git up, a cascade from
  any checkpoint finishes with the row deleted, having deleted every image the server held below
  the automation's path and nothing else, and having seen the path empty before it checkpointed.\<close>

theorem cascade_completes_through_artifactory:
  assumes "new_artifactory u base repo prefix token user pass timeout = Inr r"
    and "serves_storage depth t r invent" and "others_up deps invent"
    and "cd_registry deps = ArtifactoryRegistryClient depth t r"
    and "w_env w = []" and "find_automation (w_db w) i = Some a" and "in_cascade a"
  shows "cascade_done i a (invent (w_ext w) i) w (run_cascade deps i w)"
  using run_cascade_up [OF assms(5) artifactory_services_up [OF new_artifactory_ok(1) [OF assms(1)] assms(2,3,4)] assms(6,7)] .

definition deps_with :: "'x registry_client \<Rightarrow> 'x cascade_deps" where
  "deps_with registry =
     \<lparr>cd_capp = \<lparr>d_delete_capp = (\<lambda>w n x. (Inr (), x)), d_delete_secret = (\<lambda>w n x. (Inr (), x))\<rparr>,
      cd_registry = registry,
      cd_git = \<lparr>g_commit_script = (\<lambda>p s m x. (Inr [], x)), g_read_script = (\<lambda>p x. (Inr None, x)),
                g_archive = (\<lambda>i a x. (Inr [], x))\<rparr>\<rparr>"

theorem cascade_completes_through_artifactory_witness:
  "w_trace (snd (run_cascade (deps_with (ArtifactoryRegistryClient 3 sample_server sample_art)) sample_id
      (sample_world [] True (sample_row DELETING IDLE None (Some 2) (Some (str ''dep'')))))) =
    [Called (RegistryList sample_id), Called (RegistryDelete sample_id (str ''v1'')),
     Called (RegistryList sample_id), Committed,
     Called (GitArchive sample_id (str ''bob'')), Committed, Committed]"
proof -
  let ?a = "sample_row DELETING IDLE None (Some 2) (Some (str ''dep''))"
  let ?w = "sample_world [] True ?a"
  let ?deps = "deps_with (ArtifactoryRegistryClient 3 sample_server sample_art)"
  have up: "others_up ?deps sample_invent" by (simp add: others_up_def deps_with_def)
  have "cascade_done sample_id ?a (sample_invent (w_ext ?w) sample_id) ?w (run_cascade ?deps sample_id ?w)"
    by (rule cascade_completes_through_artifactory [OF sample_art_built sample_server_serves up])
      (simp_all add: deps_with_def sample_in_cascade)
  then show ?thesis
    by (simp add: cascade_done_def cascade_trace_def cascade_position_def step_trace_def upt_conv_Cons sample_invent_def)
qed

text \<open>C17. The cleanup never leaves the automation's image path: whatever a server answers (redirects,
  hostile listings, errors), every HTTP exchange of the image-deletion step carries the configured
  credentials to the configured base URL, is a folder listing of \<open>repository/prefix/uuid\<close> or a
  deletion of one immediate child of it, as the server decodes the path, and no entry can smuggle
  in a separator, a dot segment, a query or a fragment. The credentials never break the header.\<close>

theorem image_cleanup_is_confined:
  assumes "new_artifactory u base repo prefix token user pass timeout = Inr r"
    and "cd_registry deps = ArtifactoryRegistryClient depth (request_opener None (recording exchange)) r"
    and "step_delete_images deps a w = (res, w')"
  shows "\<exists>qs. fst (w_ext w') = fst (w_ext w) @ qs \<and> list_all (confined r (a_id a)) qs
    \<and> image_segments r (a_id a) = repo # split_at 47 prefix @ [uuid_str (a_id a)]
    \<and> 13 \<notin> set (ar_authorization r) \<and> 10 \<notin> set (ar_authorization r)"
proof -
  note ok = new_artifactory_ok [OF assms(1)]
  have "moves (asked_only (confined r (a_id a))) (step_delete_images deps a)"
    using listing_asks [OF ok(1)] delete_asks [OF ok(1)] assms(2) [unfolded request_opener_recording]
    by (intro step_delete_images_moves reflpI transpI)
      (auto simp: ArtifactoryRegistryClient_def intro: asked_only_trans)
  with assms(3) have "asked_only (confined r (a_id a)) (w_ext w) (w_ext w')" by (auto simp: moves_def)
  with ok show ?thesis by (simp add: asked_only_def image_segments_def)
qed

text \<open>A server that redirects every request elsewhere gets one request and no other server gets any.\<close>

definition redirecting :: "bool exchange" where
  "redirecting q x = (Inr \<lparr>an_response = \<lparr>h_status = 302, h_read = (\<lambda>n. Inr [])\<rparr>,
     an_location = Some (Inr (str ''https://elsewhere.example/''))\<rparr>, x)"

theorem image_cleanup_is_confined_witness:
  "list_all (confined sample_art sample_id) (fst (w_ext (snd (step_delete_images
      (deps_with (ArtifactoryRegistryClient 3 (request_opener None (recording redirecting)) sample_art))
      (sample_row DELETING IDLE None (Some 2) None)
      (sample_world [] ([], True) (sample_row DELETING IDLE None (Some 2) None))))))"
proof -
  let ?a = "sample_row DELETING IDLE None (Some 2) None"
  let ?deps = "deps_with (ArtifactoryRegistryClient 3 (request_opener None (recording redirecting)) sample_art)"
  obtain res w' where run: "step_delete_images ?deps ?a (sample_world [] ([], True) ?a) = (res, w')"
    by (rule prod.exhaust)
  have "cd_registry ?deps = ArtifactoryRegistryClient 3 (request_opener None (recording redirecting)) sample_art"
    by (simp add: deps_with_def)
  from image_cleanup_is_confined [OF sample_art_built this run] show ?thesis
    by (auto simp: run)
qed

text \<open>The failures urllib documents: HTTP errors, and the errors the client lists.\<close>

definition documented_failures :: "'x transport \<Rightarrow> bool" where
  "documented_failures t \<longleftrightarrow> (\<forall>q x. case t q x of
     (Inl f, _) \<Rightarrow> (\<forall>e. f \<noteq> OtherFailure e)
   | (Inr resp, _) \<Rightarrow> (\<forall>n e. h_read resp n \<noteq> Inl (OtherFailure e)))"

lemma answer_error:
  assumes "documented_failures t" and "t q x = (a, x')" and "answer method a = Inl e"
  shows "e = RegistryError"
proof (cases a)
  case (Inl f)
  with assms(1,2) have "\<forall>e. f \<noteq> OtherFailure e"
    unfolding documented_failures_def by (metis (mono_tags, lifting) case_prod_conv old.sum.simps(5))
  with Inl assms(3) show ?thesis
    by (auto simp: answer_def request_failure_def split: http_failure.splits if_splits)
next
  case (Inr resp)
  with assms(1,2) have "\<forall>n e. h_read resp n \<noteq> Inl (OtherFailure e)"
    unfolding documented_failures_def by (metis (mono_tags, lifting) case_prod_conv old.sum.simps(6))
  with Inr assms(3) show ?thesis
    by (auto simp: answer_def response_body_def request_failure_def split: http_failure.splits sum.splits if_splits)
qed

lemma listing_of_error:
  "listing_of depth r i body = Inl e \<Longrightarrow> e = RegistryError \<or> e = RecursionError"
  using json_loads_outcome [of depth "the body"]
  by (auto simp: listing_of_def listing_entries_def split: option.splits sum.splits if_splits json.splits)

text \<open>C39. Every answer of the server becomes a listing or a sanitized error: if the transport raises
  nothing but HTTP errors and the errors the client lists, then a listing either returns sorted,
  distinct entries that the client itself accepts for deletion, or raises \<open>RegistryError\<close>, except
  that a listing nested beyond the interpreter's stack raises \<open>RecursionError\<close>, which the client
  does not translate. A deletion returns or raises \<open>RegistryError\<close>.\<close>

theorem registry_errors_are_sanitized:
  assumes "new_artifactory u base repo prefix token user pass timeout = Inr r" and "documented_failures t"
  shows "(case fst (list_image_entries depth t r i x) of
            Inr es \<Rightarrow> sorted es \<and> distinct es \<and> list_all valid_segment es
          | Inl e \<Rightarrow> e = RegistryError \<or> e = RecursionError)
       \<and> (case fst (delete_image t r i entry x) of Inr _ \<Rightarrow> True | Inl e \<Rightarrow> e = RegistryError)"
proof
  note ok = new_artifactory_ok(1) [OF assms(1)]
  show "case fst (list_image_entries depth t r i x) of
      Inr es \<Rightarrow> sorted es \<and> distinct es \<and> list_all valid_segment es | Inl e \<Rightarrow> e = RegistryError \<or> e = RecursionError"
    by (cases "t (listing_query r i) x")
      (auto simp: list_image_entries_run [OF ok] split: sum.splits
        dest: answer_error [OF assms(2)] listing_of_error listing_of_shape)
  show "case fst (delete_image t r i entry x) of Inr _ \<Rightarrow> True | Inl e \<Rightarrow> e = RegistryError"
  proof (cases "valid_segment entry")
    case False
    then show ?thesis by (simp add: delete_image_def)
  next
    case True
    then show ?thesis
      by (cases "t (delete_query r i entry) x")
        (auto simp: delete_image_run [OF ok] split: sum.splits dest: answer_error [OF assms(2)])
  qed
qed

theorem registry_errors_are_sanitized_witness:
  "case fst (list_image_entries 3 sample_server sample_art sample_id True) of
     Inr es \<Rightarrow> sorted es \<and> distinct es \<and> list_all valid_segment es
   | Inl e \<Rightarrow> e = RegistryError \<or> e = RecursionError"
proof -
  have "documented_failures sample_server"
    by (simp add: documented_failures_def sample_server_def)
  from registry_errors_are_sanitized [OF sample_art_built this, of 3 sample_id True] show ?thesis by blast
qed

end
