(* ===== verification/Guard.thy ===== *)
theory Guard
  imports Api Sha256 Pytext
begin

text \<open>
  The machine tier's gate: the token check and its throttled log of \<open>src/api/deps.py\<close>, the
  middleware of \<open>src/api/ci_webhook_guard.py\<close> that answers before the body is read, and the
  webhook endpoint behind both. Request headers are a map from lowercase names to values, as
  Starlette's \<open>Headers\<close> presents them; what pydantic made of the body is an input. Times are
  microseconds of the monotonic clock. An exception of the check is the framework's 500.
\<close>

section \<open>Throttled logging\<close>

record log_throttle =
  lt_last :: "datetime option"
  lt_suppressed :: nat

definition new_throttle :: log_throttle where
  "new_throttle = \<lparr>lt_last = None, lt_suppressed = 0\<rparr>"

definition allow :: "int \<Rightarrow> datetime \<Rightarrow> log_throttle \<Rightarrow> nat option \<times> log_throttle" where
  "allow interval now t =
     (case lt_last t of
        Some l \<Rightarrow> if now - l < interval then (None, t\<lparr>lt_suppressed := lt_suppressed t + 1\<rparr>)
                  else (Some (lt_suppressed t), \<lparr>lt_last = Some now, lt_suppressed = 0\<rparr>)
      | None \<Rightarrow> (Some (lt_suppressed t), \<lparr>lt_last = Some now, lt_suppressed = 0\<rparr>))"

definition REJECTION_LOG_INTERVAL :: int where "REJECTION_LOG_INTERVAL = 60 * 1000000"

datatype log_line = UnconfiguredRejected nat | MismatchRejected nat

record guard_state =
  gs_unconfigured :: log_throttle
  gs_mismatch :: log_throttle
  gs_log :: "log_line list"

definition initial_guard :: guard_state where
  "initial_guard = \<lparr>gs_unconfigured = new_throttle, gs_mismatch = new_throttle, gs_log = []\<rparr>"

definition log_unconfigured :: "datetime \<Rightarrow> guard_state \<Rightarrow> guard_state" where
  "log_unconfigured now gs =
     (case allow REJECTION_LOG_INTERVAL now (gs_unconfigured gs) of
        (None, t) \<Rightarrow> gs\<lparr>gs_unconfigured := t\<rparr>
      | (Some suppressed, t) \<Rightarrow>
          gs\<lparr>gs_unconfigured := t, gs_log := gs_log gs @ [UnconfiguredRejected suppressed]\<rparr>)"

definition log_mismatch :: "datetime \<Rightarrow> guard_state \<Rightarrow> guard_state" where
  "log_mismatch now gs =
     (case allow REJECTION_LOG_INTERVAL now (gs_mismatch gs) of
        (None, t) \<Rightarrow> gs\<lparr>gs_mismatch := t\<rparr>
      | (Some suppressed, t) \<Rightarrow>
          gs\<lparr>gs_mismatch := t, gs_log := gs_log gs @ [MismatchRejected suppressed]\<rparr>)"

section \<open>The token\<close>

definition ci_webhook_token_valid ::
  "pystr \<Rightarrow> datetime \<Rightarrow> pystr option \<Rightarrow> guard_state \<Rightarrow> (exn + bool) \<times> guard_state" where
  "ci_webhook_token_valid expected now x_gitlab_token gs =
     (if expected = [] then (Inr False, log_unconfigured now gs)
      else case x_gitlab_token of
        None \<Rightarrow> (Inr False, gs)
      | Some token \<Rightarrow>
          (case (utf8_encode token, utf8_encode expected) of
             (Some a, Some b) \<Rightarrow>
               if sha256 a \<noteq> sha256 b then (Inr False, log_mismatch now gs) else (Inr True, gs)
           | _ \<Rightarrow> (Inl PyUnicodeEncodeError, gs)))"

type_synonym headers = "pystr \<Rightarrow> pystr option"

text \<open>The router's dependency; \<open>Some\<close> is the \<open>HTTPException\<close> it raises.\<close>

definition verify_ci_webhook_token ::
  "pystr \<Rightarrow> datetime \<Rightarrow> headers \<Rightarrow> guard_state \<Rightarrow> (exn + response option) \<times> guard_state" where
  "verify_ci_webhook_token expected now hs gs =
     (case ci_webhook_token_valid expected now (hs (str ''x-gitlab-token'')) gs of
        (Inl e, gs') \<Rightarrow> (Inl e, gs')
      | (Inr valid, gs') \<Rightarrow>
          (Inr (if valid then None
                else Some (response_of 401 (Detail (str ''Invalid or missing CI webhook token'')))), gs'))"

text \<open>The internal tier's placeholder: any header, or none, is let through.\<close>

definition verify_service_token :: "headers \<Rightarrow> pystr option" where
  "verify_service_token hs = hs (str ''authorization'')"

section \<open>The middleware\<close>

definition CI_WEBHOOK_PATH :: pystr where "CI_WEBHOOK_PATH = str ''/internal/ci-webhook''"

definition content_length :: "(nat \<Rightarrow> nat option) \<Rightarrow> headers \<Rightarrow> int" where
  "content_length decimal hs =
     (case py_int decimal (text_of (hs (str ''content-length''))) of None \<Rightarrow> - 1 | Some n \<Rightarrow> n)"

definition length_required :: response where
  "length_required = response_of 411 (Detail (str ''Content-Length required''))"

definition reject ::
  "(nat \<Rightarrow> nat option) \<Rightarrow> pystr \<Rightarrow> int \<Rightarrow> datetime \<Rightarrow> headers \<Rightarrow> guard_state
     \<Rightarrow> (exn + response option) \<times> guard_state" where
  "reject decimal expected max_body now hs gs =
     (case ci_webhook_token_valid expected now (hs (str ''x-gitlab-token'')) gs of
        (Inl e, gs') \<Rightarrow> (Inl e, gs')
      | (Inr valid, gs') \<Rightarrow>
          (Inr (if \<not> valid
                then Some (response_of 401 (Detail (str ''Invalid or missing CI webhook token'')))
                else if hs (str ''transfer-encoding'') \<noteq> None then Some length_required
                else if content_length decimal hs < 0 then Some length_required
                else if max_body < content_length decimal hs
                then Some (response_of 413 (Detail (str ''Request body too large'')))
                else None), gs'))"

record scope =
  sc_type :: pystr
  sc_path :: pystr
  sc_headers :: headers

text \<open>\<open>CiWebhookGuard.__call__\<close>: \<open>None\<close> hands the request to the application.\<close>

definition guard_call ::
  "(nat \<Rightarrow> nat option) \<Rightarrow> pystr \<Rightarrow> int \<Rightarrow> datetime \<Rightarrow> scope \<Rightarrow> guard_state
     \<Rightarrow> (exn + response option) \<times> guard_state" where
  "guard_call decimal expected max_body now scope gs =
     (if sc_type scope \<noteq> str ''http'' \<or> sc_path scope \<noteq> CI_WEBHOOK_PATH then (Inr None, gs)
      else reject decimal expected max_body now (sc_headers scope) gs)"

section \<open>The endpoint\<close>

text \<open>What the framework made of the body: no JSON, JSON with type errors, or the typed fields.\<close>

datatype webhook_body =
    NoJson "(pystr list \<times> pystr) list"
  | IllTyped "(pystr list \<times> pystr) list"
  | Typed uuid pystr build_outcome "pystr option" "pystr option"

text \<open>Behind the middleware the body is decoded, then the dependency runs, then the model is
  validated, then the handler runs.\<close>

definition webhook_app ::
  "pystr \<Rightarrow> 'x service \<Rightarrow> datetime \<Rightarrow> headers \<Rightarrow> webhook_body \<Rightarrow> guard_state \<Rightarrow> 'x world
     \<Rightarrow> response \<times> guard_state \<times> 'x world" where
  "webhook_app expected s now hs body gs w =
     (case body of
        NoJson errs \<Rightarrow> (request_validation_handler errs, gs, w)
      | _ \<Rightarrow>
          (case verify_ci_webhook_token expected now hs gs of
             (Inl e, gs') \<Rightarrow> (error_response e, gs', w)
           | (Inr (Some resp), gs') \<Rightarrow> (resp, gs', w)
           | (Inr None, gs') \<Rightarrow>
               (case body of
                  Typed i sha st img v \<Rightarrow>
                    (case serve s (ReqWebhook i sha st img v) w of
                       (Inl e, w') \<Rightarrow> (error_response e, gs', w')
                     | (Inr resp, w') \<Rightarrow> (resp, gs', w'))
                | IllTyped errs \<Rightarrow> (request_validation_handler errs, gs', w)
                | NoJson errs \<Rightarrow> (request_validation_handler errs, gs', w))))"

definition webhook_endpoint ::
  "(nat \<Rightarrow> nat option) \<Rightarrow> pystr \<Rightarrow> int \<Rightarrow> 'x service \<Rightarrow> datetime \<Rightarrow> datetime \<Rightarrow> headers \<Rightarrow> webhook_body
     \<Rightarrow> guard_state \<Rightarrow> 'x world \<Rightarrow> response \<times> guard_state \<times> 'x world" where
  "webhook_endpoint decimal expected max_body s now now' hs body gs w =
     (case guard_call decimal expected max_body now
             \<lparr>sc_type = str ''http'', sc_path = CI_WEBHOOK_PATH, sc_headers = hs\<rparr> gs of
        (Inl e, gs') \<Rightarrow> (error_response e, gs', w)
      | (Inr (Some resp), gs') \<Rightarrow> (resp, gs', w)
      | (Inr None, gs') \<Rightarrow> webhook_app expected s now' hs body gs' w)"

section \<open>Who is admitted\<close>

text \<open>The token matches: one is configured, one was sent, and their digests agree.\<close>

definition token_matches :: "pystr \<Rightarrow> headers \<Rightarrow> bool" where
  "token_matches expected hs \<longleftrightarrow> expected \<noteq> [] \<and>
     (\<exists>token a b. hs (str ''x-gitlab-token'') = Some token \<and> utf8_encode token = Some a
        \<and> utf8_encode expected = Some b \<and> sha256 a = sha256 b)"

definition size_declared :: "(nat \<Rightarrow> nat option) \<Rightarrow> int \<Rightarrow> headers \<Rightarrow> bool" where
  "size_declared decimal max_body hs \<longleftrightarrow> hs (str ''transfer-encoding'') = None
     \<and> 0 \<le> content_length decimal hs \<and> content_length decimal hs \<le> max_body"

lemma token_valid_iff:
  "fst (ci_webhook_token_valid expected now (hs (str ''x-gitlab-token'')) gs) = Inr True \<longleftrightarrow> token_matches expected hs"
  by (auto simp: ci_webhook_token_valid_def token_matches_def split: option.splits)

lemma token_valid_state:
  "token_matches expected hs \<Longrightarrow> ci_webhook_token_valid expected now (hs (str ''x-gitlab-token'')) gs = (Inr True, gs)"
  by (auto simp: ci_webhook_token_valid_def token_matches_def)

lemma token_sent_verbatim:
  "expected \<noteq> [] \<Longrightarrow> \<not> list_ex is_surrogate expected \<Longrightarrow> hs (str ''x-gitlab-token'') = Some expected \<Longrightarrow>
     token_matches expected hs"
  by (simp add: token_matches_def utf8_encode_def)

lemma reject_admits_iff:
  "fst (reject decimal expected max_body now hs gs) = Inr None \<longleftrightarrow>
     token_matches expected hs \<and> size_declared decimal max_body hs"
proof (cases "token_matches expected hs")
  case True
  then show ?thesis by (auto simp: reject_def token_valid_state size_declared_def length_required_def)
next
  case False
  then have "fst (ci_webhook_token_valid expected now (hs (str ''x-gitlab-token'')) gs) \<noteq> Inr True"
    by (simp add: token_valid_iff)
  with False show ?thesis by (auto simp: reject_def split: prod.splits sum.splits)
qed

end
