(* ===== verification/Guard_Correct.thy ===== *)
theory Guard_Correct
  imports Guard Service
begin

text \<open>
  What the machine tier's gate guarantees: nothing behind it runs for an unauthenticated or
  unbounded request, and rejected requests cannot flood the log.
\<close>

section \<open>The throttle\<close>

text \<open>One throttle over a sequence of calls: its lines so far, what they account for, and when the
  last one was let through. \<open>first\<close> is the time of the first call.\<close>

definition throttle_ok :: "int \<Rightarrow> datetime \<Rightarrow> datetime \<Rightarrow> nat \<Rightarrow> nat \<Rightarrow> nat \<Rightarrow> log_throttle \<Rightarrow> bool" where
  "throttle_ok interval first now lines accounted calls t \<longleftrightarrow>
     accounted + lt_suppressed t = calls
   \<and> (case lt_last t of
        None \<Rightarrow> lines = 0 \<and> calls = 0
      | Some l \<Rightarrow> first \<le> l \<and> l \<le> now \<and> 0 < lines \<and> (int lines - 1) * interval \<le> l - first)"

lemma throttle_ok_new: "throttle_ok interval first now 0 0 0 new_throttle"
  by (simp add: throttle_ok_def new_throttle_def)

lemma throttle_ok_later:
  "throttle_ok interval first now n a c t \<Longrightarrow> now \<le> now' \<Longrightarrow> throttle_ok interval first now' n a c t"
  by (auto simp: throttle_ok_def split: option.splits)

text \<open>A call is let through, accounting for itself and for what was swallowed, or is swallowed.\<close>

lemma throttle_ok_allow:
  assumes "throttle_ok interval first now n a c t" and "first \<le> now" and "allow interval now t = (r, t')"
  shows "case r of
      None \<Rightarrow> throttle_ok interval first now n a (c + 1) t'
    | Some s \<Rightarrow> throttle_ok interval first now (n + 1) (a + 1 + s) (c + 1) t'"
proof (cases "lt_last t")
  case None
  with assms show ?thesis by (auto simp: allow_def throttle_ok_def)
next
  case (Some l)
  show ?thesis
  proof (cases "now - l < interval")
    case True
    with Some assms show ?thesis by (auto simp: allow_def throttle_ok_def)
  next
    case False
    have "(int n - 1) * interval \<le> l - first" using Some assms(1) by (simp add: throttle_ok_def)
    with False have "int n * interval \<le> now - first" by (simp add: algebra_simps)
    with False Some assms show ?thesis by (auto simp: allow_def throttle_ok_def)
  qed
qed

lemma throttle_ok_bound:
  assumes "throttle_ok interval first now n a c t" and "0 < interval" and "first \<le> now"
  shows "int n \<le> 1 + (now - first) div interval"
proof (cases "lt_last t")
  case None
  with assms have "int n = 0" and "0 \<le> (now - first) div interval"
    by (simp_all add: throttle_ok_def pos_imp_zdiv_nonneg_iff)
  then show ?thesis by linarith
next
  case (Some l)
  with assms(1) have "(int n - 1) * interval \<le> now - first" by (simp add: throttle_ok_def)
  then have "int n - 1 \<le> (now - first) div interval"
    using assms(2) by (metis nonzero_mult_div_cancel_right order_less_irrefl zdiv_mono1)
  then show ?thesis by simp
qed

section \<open>The log of a run of requests\<close>

fun line_accounts :: "log_line \<Rightarrow> nat" where
  "line_accounts (UnconfiguredRejected s) = 1 + s"
| "line_accounts (MismatchRejected s) = 1 + s"

text \<open>The middleware over a sequence of requests, each with its time and its headers: its answers, and
  its state in the end. \<open>decimal\<close> and \<open>max_body\<close> are what the size check needs.\<close>

primrec reject_all ::
  "(nat \<Rightarrow> nat option) \<Rightarrow> pystr \<Rightarrow> int \<Rightarrow> (datetime \<times> headers) list \<Rightarrow> guard_state
     \<Rightarrow> (exn + response option) list \<times> guard_state" where
  "reject_all decimal expected max_body [] gs = ([], gs)"
| "reject_all decimal expected max_body (req # reqs) gs =
     (case reject decimal expected max_body (fst req) (snd req) gs of
        (answer, gs1) \<Rightarrow>
          (case reject_all decimal expected max_body reqs gs1 of (answers, gs2) \<Rightarrow> (answer # answers, gs2)))"

definition gitlab_token :: "headers \<Rightarrow> pystr option" where
  "gitlab_token hs = hs (str ''x-gitlab-token'')"

text \<open>The requests whose rejection is logged: with no token configured all of them, otherwise
  those that carry a wrong token.\<close>

definition logged_rejection :: "pystr \<Rightarrow> headers \<Rightarrow> bool" where
  "logged_rejection expected hs \<longleftrightarrow>
     expected = [] \<or> (\<exists>tok a b. gitlab_token hs = Some tok \<and> utf8_encode tok = Some a \<and> utf8_encode expected = Some b
                        \<and> sha256 a \<noteq> sha256 b)"

text \<open>The requests that are rejected without a word: with a token configured, those without a token
  header, those where a token cannot be encoded, and those with the right token whose body is
  refused.\<close>

definition silent_rejection :: "(nat \<Rightarrow> nat option) \<Rightarrow> pystr \<Rightarrow> int \<Rightarrow> headers \<Rightarrow> bool" where
  "silent_rejection decimal expected max_body hs \<longleftrightarrow> expected \<noteq> [] \<and>
     (case gitlab_token hs of
        None \<Rightarrow> True
      | Some tok \<Rightarrow> utf8_encode tok = None \<or> utf8_encode expected = None
          \<or> token_matches expected hs \<and> \<not> size_declared decimal max_body hs)"

definition active_throttle :: "pystr \<Rightarrow> guard_state \<Rightarrow> log_throttle" where
  "active_throttle expected gs = (if expected = [] then gs_unconfigured gs else gs_mismatch gs)"

definition log_ok :: "pystr \<Rightarrow> datetime \<Rightarrow> datetime \<Rightarrow> nat \<Rightarrow> guard_state \<Rightarrow> bool" where
  "log_ok expected first now calls gs \<longleftrightarrow>
     throttle_ok REJECTION_LOG_INTERVAL first now (length (gs_log gs)) (sum_list (map line_accounts (gs_log gs)))
       calls (active_throttle expected gs)"

lemma unlogged_reject:
  "\<not> logged_rejection expected hs \<Longrightarrow> snd (reject decimal expected max_body now hs gs) = gs"
  by (auto simp: logged_rejection_def gitlab_token_def reject_def ci_webhook_token_valid_def split: option.splits)

lemma logged_reject:
  "logged_rejection expected hs \<Longrightarrow> snd (reject decimal expected max_body now hs gs)
     = (if expected = [] then log_unconfigured now gs else log_mismatch now gs)"
  by (auto simp: logged_rejection_def gitlab_token_def reject_def ci_webhook_token_valid_def)

text \<open>Every rejected request is logged or silent, and not both.\<close>

lemma rejected_iff:
  "fst (reject decimal expected max_body now hs gs) \<noteq> Inr None \<longleftrightarrow>
     logged_rejection expected hs \<or> silent_rejection decimal expected max_body hs"
  unfolding reject_admits_iff logged_rejection_def silent_rejection_def token_matches_def gitlab_token_def
  by (cases "hs (str ''x-gitlab-token'')"; cases "utf8_encode expected") auto

lemma not_logged_and_silent: "\<not> (logged_rejection expected hs \<and> silent_rejection decimal expected max_body hs)"
  by (auto simp: logged_rejection_def silent_rejection_def gitlab_token_def token_matches_def)

lemma rejected_count:
  "length (filter (\<lambda>a. a \<noteq> Inr None) (fst (reject_all decimal expected max_body reqs gs)))
   = length (filter (\<lambda>r. logged_rejection expected (snd r)) reqs)
   + length (filter (\<lambda>r. silent_rejection decimal expected max_body (snd r)) reqs)"
proof (induction reqs arbitrary: gs)
  case (Cons req reqs)
  show ?case
    using Cons.IH rejected_iff [of decimal expected max_body "fst req" "snd req" gs]
      not_logged_and_silent [of expected "snd req" decimal max_body]
    by (auto split: prod.splits) (metis fst_conv)+
qed simp

lemma log_ok_reject:
  assumes "log_ok expected first now calls gs" and "first \<le> now"
  shows "log_ok expected first now (if logged_rejection expected hs then calls + 1 else calls)
    (snd (reject decimal expected max_body now hs gs))"
proof (cases "logged_rejection expected hs")
  case False
  with assms(1) show ?thesis by (simp add: unlogged_reject)
next
  case True
  obtain r t' where r: "allow REJECTION_LOG_INTERVAL now (active_throttle expected gs) = (r, t')"
    by (rule prod.exhaust)
  from throttle_ok_allow [OF assms(1) [unfolded log_ok_def] assms(2) r] True r show ?thesis
    by (auto simp: logged_reject log_ok_def active_throttle_def log_unconfigured_def log_mismatch_def
        split: option.splits)
qed

lemma log_ok_later: "log_ok expected first now calls gs \<Longrightarrow> now \<le> now' \<Longrightarrow> log_ok expected first now' calls gs"
  unfolding log_ok_def by (rule throttle_ok_later)

lemma log_ok_run:
  assumes "log_ok expected first now calls gs" and "first \<le> now" and "sorted (now # map fst reqs)"
  shows "log_ok expected first (last (now # map fst reqs))
    (calls + length (filter (\<lambda>r. logged_rejection expected (snd r)) reqs))
    (snd (reject_all decimal expected max_body reqs gs))"
  using assms
proof (induction reqs arbitrary: now calls gs)
  case (Cons req reqs)
  have le: "now \<le> fst req" "first \<le> fst req" "sorted (fst req # map fst reqs)" using Cons.prems by auto
  let ?calls = "if logged_rejection expected (snd req) then calls + 1 else calls"
  have "log_ok expected first (fst req) ?calls (snd (reject decimal expected max_body (fst req) (snd req) gs))"
    by (rule log_ok_reject [OF log_ok_later [OF Cons.prems(1) le(1)] le(2)])
  from Cons.IH [OF this le(2,3)] show ?case by (simp add: case_prod_beta split: if_splits)
qed simp

section \<open>Properties\<close>

text \<open>C15. Behind the gate: the webhook's handler runs exactly for a request that carries the
  configured token (as far as SHA-256 can tell) and declares a body within the limit, without a
  transfer encoding. Every other request is answered 401, 411 or 413 (500 when a token cannot be
  encoded) before its body is read, and changes nothing. For an admitted request the second check
  at the router never refuses, and the answer is the handler's, or a 400 that changes nothing for
  a body that does not parse.\<close>

theorem webhook_gate:
  "case webhook_endpoint decimal expected max_body s now now' hs body gs w of (resp, gs', w') \<Rightarrow>
     if token_matches expected hs \<and> size_declared decimal max_body hs
     then gs' = gs \<and> (case body of
              NoJson errs \<Rightarrow> resp = request_validation_handler errs \<and> w' = w
            | IllTyped errs \<Rightarrow> resp = request_validation_handler errs \<and> w' = w
            | Typed i sha st img v \<Rightarrow> serve s (ReqWebhook i sha st img v) w = (Inr resp, w'))
     else w' = w \<and> rs_status resp \<in> (if token_matches expected hs then {411, 413} else {401, 500})"
proof (cases "token_matches expected hs")
  case token: True
  note valid = token_valid_state [OF token]
  show ?thesis
  proof (cases "size_declared decimal max_body hs")
    case True
    with token have "reject decimal expected max_body now hs gs = (Inr None, gs)"
      by (auto simp: reject_def valid size_declared_def)
    moreover have "serve s req w \<noteq> (Inl e, w1)" for req e w1
      using serve_answers [of s req w] by auto
    ultimately show ?thesis using token True
      by (auto simp: webhook_endpoint_def guard_call_def webhook_app_def verify_ci_webhook_token_def valid
          split: webhook_body.splits prod.splits sum.splits)
  next
    case False
    with token show ?thesis
      by (auto simp: webhook_endpoint_def guard_call_def reject_def valid size_declared_def length_required_def)
  qed
next
  case False
  then have "fst (ci_webhook_token_valid expected now (hs (str ''x-gitlab-token'')) gs) \<noteq> Inr True"
    by (simp add: token_valid_iff)
  moreover have "e = PyUnicodeEncodeError"
    if "ci_webhook_token_valid expected now (hs (str ''x-gitlab-token'')) gs = (Inl e, gs')" for e gs'
    using that by (auto simp: ci_webhook_token_valid_def split: if_splits option.splits)
  ultimately show ?thesis using False
    by (fastforce simp: webhook_endpoint_def guard_call_def reject_def split: prod.splits sum.splits)
qed

text \<open>C38. Rejected webhooks cannot flood the log, and what it leaves out is known: over any sequence
  of requests through the middleware, however many, the process writes at most one line per
  interval of the time they span, plus one. The lines, with the count still to be reported,
  account for exactly the requests rejected because no token is configured or because theirs is
  wrong; together with the silent rejections (no token header while one is configured, a token that
  cannot be encoded, a body refused with 411 or 413) they are all the rejected requests.\<close>

theorem rejection_log_is_bounded:
  assumes "reqs \<noteq> []" and "sorted (map fst reqs)"
  shows "case reject_all decimal expected max_body reqs initial_guard of (answers, gs) \<Rightarrow>
      int (length (gs_log gs)) \<le> 1 + (fst (last reqs) - fst (hd reqs)) div REJECTION_LOG_INTERVAL
    \<and> sum_list (map line_accounts (gs_log gs)) + lt_suppressed (active_throttle expected gs)
        = length (filter (\<lambda>r. logged_rejection expected (snd r)) reqs)
    \<and> sum_list (map line_accounts (gs_log gs)) + lt_suppressed (active_throttle expected gs)
        + length (filter (\<lambda>r. silent_rejection decimal expected max_body (snd r)) reqs)
        = length (filter (\<lambda>a. a \<noteq> Inr None) answers)"
proof -
  obtain req rest where reqs: "reqs = req # rest" using assms(1) by (cases reqs) auto
  let ?gs = "snd (reject_all decimal expected max_body reqs initial_guard)"
  have "log_ok expected (fst req) (fst req) 0 initial_guard"
    by (simp add: log_ok_def active_throttle_def initial_guard_def throttle_ok_new)
  moreover have "sorted (fst req # map fst reqs)" and last: "last (fst req # map fst reqs) = fst (last reqs)"
    using assms(2) by (simp_all add: reqs last_map)
  ultimately have "log_ok expected (fst req) (last (fst req # map fst reqs))
      (0 + length (filter (\<lambda>r. logged_rejection expected (snd r)) reqs)) ?gs"
    by (intro log_ok_run) simp_all
  then have ok: "log_ok expected (fst (hd reqs)) (fst (last reqs))
      (length (filter (\<lambda>r. logged_rejection expected (snd r)) reqs)) ?gs"
    unfolding last by (simp add: reqs)
  have "fst (hd reqs) \<le> fst (last reqs)" using assms(2) by (cases rest rule: rev_cases) (auto simp: reqs)
  from throttle_ok_bound [OF ok [unfolded log_ok_def] _ this] ok
    rejected_count [of decimal expected max_body reqs initial_guard]
  show ?thesis
    by (simp add: REJECTION_LOG_INTERVAL_def case_prod_beta) (simp add: log_ok_def throttle_ok_def)
qed

theorem rejection_log_is_bounded_witness:
  "case reject_all (\<lambda>_. None) [] 100 [(0, \<lambda>_. None), (5, \<lambda>_. Some []), (61000000, \<lambda>_. None)] initial_guard of
     (answers, gs) \<Rightarrow> int (length (gs_log gs)) \<le> 2
       \<and> sum_list (map line_accounts (gs_log gs)) + lt_suppressed (gs_unconfigured gs) = 3"
  using rejection_log_is_bounded [where reqs = "[(0, \<lambda>_. None), (5, \<lambda>_. Some []), (61000000, \<lambda>_. None)]"
      and decimal = "\<lambda>_. None" and expected = "[]" and max_body = 100]
  by (simp add: REJECTION_LOG_INTERVAL_def case_prod_beta logged_rejection_def active_throttle_def)

end
