(* ===== verification/Publishers.thy ===== *)
theory Publishers
  imports Runtime Json "HOL-Library.Sublist"
begin

text \<open>
  \<open>src/core/reload.py\<close> and \<open>src/core/automation_events.py\<close>: the best-effort Redis publishers of
  the reload signal and of the build events, with their process-wide instances. Redis is a
  parameter: building a client from a URL and publishing on a channel, each of which may raise
  anything. The locale \<open>redis_channel\<close> states the contract both publishers keep; \<open>deliver_all\<close>
  runs the process's publishers over the signals of a computation's trace.
\<close>

section \<open>Redis and the publishers\<close>

record ('c, 'x) redis =
  rd_from_url :: "pystr \<Rightarrow> pyfloat \<Rightarrow> ('x, 'c) client"
  rd_publish :: "'c \<Rightarrow> pystr \<Rightarrow> pystr \<Rightarrow> ('x, unit) client"

record ('c, 'x) redis_publisher =
  pb_url :: pystr
  pb_channel :: pystr
  pb_timeout :: pyfloat
  pb_client_factory :: "('x, 'c) client option"
  pb_client :: "'c option"

definition new_redis_publisher :: "pystr \<Rightarrow> pystr \<Rightarrow> pyfloat \<Rightarrow> ('x, 'c) client option \<Rightarrow> ('c, 'x) redis_publisher" where
  "new_redis_publisher url channel timeout_seconds client_factory =
     \<lparr>pb_url = url, pb_channel = channel, pb_timeout = timeout_seconds,
      pb_client_factory = client_factory, pb_client = None\<rparr>"

section \<open>reload.py\<close>

definition RELOAD_MESSAGE :: pystr where "RELOAD_MESSAGE = str ''reload''"

definition reload_get_client ::
  "('c, 'x) redis \<Rightarrow> ('c, 'x) redis_publisher \<Rightarrow> 'x \<Rightarrow> (exn + 'c) \<times> ('c, 'x) redis_publisher \<times> 'x" where
  "reload_get_client rd p x =
     (case pb_client p of
        Some c \<Rightarrow> (Inr c, p, x)
      | None \<Rightarrow>
          (case (case pb_client_factory p of Some factory \<Rightarrow> factory x
                 | None \<Rightarrow> rd_from_url rd (pb_url p) (pb_timeout p) x) of
             (Inl e, x') \<Rightarrow> (Inl e, p, x')
           | (Inr c, x') \<Rightarrow> (Inr c, p\<lparr>pb_client := Some c\<rparr>, x')))"

definition publish_reload ::
  "('c, 'x) redis \<Rightarrow> ('c, 'x) redis_publisher \<Rightarrow> 'x \<Rightarrow> (exn + unit) \<times> ('c, 'x) redis_publisher \<times> 'x" where
  "publish_reload rd p x =
     (case reload_get_client rd p x of
        (Inl e, p', x') \<Rightarrow> (Inr (), p', x')
      | (Inr c, p', x') \<Rightarrow>
          (case rd_publish rd c (pb_channel p') RELOAD_MESSAGE x' of
             (Inl e, x'') \<Rightarrow> (Inr (), p', x'')
           | (Inr _, x'') \<Rightarrow> (Inr (), p', x'')))"

datatype ('c, 'x) publisher = NullPublisher | RedisPublisher "('c, 'x) redis_publisher"

definition get_default_reload_publisher ::
  "pystr \<Rightarrow> pystr \<Rightarrow> pyfloat \<Rightarrow> ('c, 'x) publisher option \<Rightarrow> ('c, 'x) publisher" where
  "get_default_reload_publisher redis_url channel timeout default_publisher =
     (case default_publisher of
        Some p \<Rightarrow> p
      | None \<Rightarrow> if redis_url \<noteq> [] then RedisPublisher (new_redis_publisher redis_url channel timeout None)
                else NullPublisher)"

section \<open>automation\_events.py\<close>

definition BUILD_EVENT_TYPE :: pystr where "BUILD_EVENT_TYPE = str ''build''"

text \<open>The dictionary of a build event, in the order \<open>_build_event\<close> writes it.\<close>

definition event_members :: "build_event \<Rightarrow> (pystr \<times> pystr option) list" where
  "event_members e =
     [(str ''type'', Some BUILD_EVENT_TYPE),
      (str ''automation_id'', Some (uuid_str (be_automation_id e))),
      (str ''tenant_id'', Some (be_tenant_id e)),
      (str ''commit_sha'', Some (be_commit_sha e)),
      (str ''build_state'', Some (be_build_state e)),
      (str ''matching_state'', Some (be_matching_state e)),
      (str ''active_digest'', be_active_digest e)]"

definition new_event_publisher :: "pystr \<Rightarrow> pystr \<Rightarrow> pyfloat \<Rightarrow> ('x, 'c) client option \<Rightarrow> ('c, 'x) redis_publisher" where
  "new_event_publisher url channel timeout_seconds client_factory =
     \<lparr>pb_url = url, pb_channel = channel, pb_timeout = timeout_seconds,
      pb_client_factory = client_factory, pb_client = None\<rparr>"

lemma new_event_publisher: "new_event_publisher = new_redis_publisher"
  by (intro ext) (simp add: new_event_publisher_def new_redis_publisher_def)

definition event_get_client ::
  "('c, 'x) redis \<Rightarrow> ('c, 'x) redis_publisher \<Rightarrow> 'x \<Rightarrow> (exn + 'c) \<times> ('c, 'x) redis_publisher \<times> 'x" where
  "event_get_client rd p x =
     (case pb_client p of
        Some c \<Rightarrow> (Inr c, p, x)
      | None \<Rightarrow>
          (case (case pb_client_factory p of Some factory \<Rightarrow> factory x
                 | None \<Rightarrow> rd_from_url rd (pb_url p) (pb_timeout p) x) of
             (Inl e, x') \<Rightarrow> (Inl e, p, x')
           | (Inr c, x') \<Rightarrow> (Inr c, p\<lparr>pb_client := Some c\<rparr>, x')))"

definition publish_event ::
  "('c, 'x) redis \<Rightarrow> ('c, 'x) redis_publisher \<Rightarrow> build_event \<Rightarrow> 'x
     \<Rightarrow> (exn + unit) \<times> ('c, 'x) redis_publisher \<times> 'x" where
  "publish_event rd p event x =
     (case event_get_client rd p x of
        (Inl e, p', x') \<Rightarrow> (Inr (), p', x')
      | (Inr c, p', x') \<Rightarrow>
          (case rd_publish rd c (pb_channel p') (dumps (event_members event)) x' of
             (Inl e, x'') \<Rightarrow> (Inr (), p', x'')
           | (Inr _, x'') \<Rightarrow> (Inr (), p', x'')))"

definition get_default_event_publisher ::
  "pystr \<Rightarrow> pystr \<Rightarrow> pyfloat \<Rightarrow> ('c, 'x) publisher option \<Rightarrow> ('c, 'x) publisher" where
  "get_default_event_publisher redis_url channel timeout default_publisher =
     (case default_publisher of
        Some p \<Rightarrow> p
      | None \<Rightarrow> if redis_url \<noteq> [] then RedisPublisher (new_event_publisher redis_url channel timeout None)
                else NullPublisher)"

section \<open>The contract of a channel\<close>

text \<open>Building the client, where a publisher has none.\<close>

definition connect :: "('c, 'x) redis \<Rightarrow> ('c, 'x) redis_publisher \<Rightarrow> ('x, 'c) client" where
  "connect rd p x = (case pb_client_factory p of Some factory \<Rightarrow> factory x
     | None \<Rightarrow> rd_from_url rd (pb_url p) (pb_timeout p) x)"

text \<open>A Redis that counts the clients it builds and remembers what is sent on them.\<close>

definition recording_redis :: "('c, 'x) redis \<Rightarrow> ('c, nat \<times> (pystr \<times> pystr) list \<times> 'x) redis" where
  "recording_redis rd =
     \<lparr>rd_from_url = (\<lambda>url timeout (n, log, x). case rd_from_url rd url timeout x of
          (Inl e, x') \<Rightarrow> (Inl e, (n, log, x')) | (Inr c, x') \<Rightarrow> (Inr c, (n + 1, log, x'))),
      rd_publish = (\<lambda>c channel message (n, log, x). case rd_publish rd c channel message x of
          (r, x') \<Rightarrow> (r, (n, log @ [(channel, message)], x')))\<rparr>"

text \<open>A publisher with its fixed channel: it never raises, keeps one client once it has one, and
  sends the message of each signal once on that client, or drops it when no client can be built.\<close>

locale redis_channel =
  fixes send :: "('c, 'x) redis \<Rightarrow> ('c, 'x) redis_publisher \<Rightarrow> 'm \<Rightarrow> 'x \<Rightarrow> (exn + unit) \<times> ('c, 'x) redis_publisher \<times> 'x"
    and message :: "'m \<Rightarrow> pystr"
  assumes connected: "pb_client p = Some c \<Longrightarrow>
      send rd p m x = (Inr (), p, snd (rd_publish rd c (pb_channel p) (message m) x))"
    and connects: "pb_client p = None \<Longrightarrow> connect rd p x = (Inr c, x') \<Longrightarrow>
      send rd p m x = (Inr (), p\<lparr>pb_client := Some c\<rparr>, snd (rd_publish rd c (pb_channel p) (message m) x'))"
    and unreachable: "pb_client p = None \<Longrightarrow> connect rd p x = (Inl e, x') \<Longrightarrow> send rd p m x = (Inr (), p, x')"
begin

lemma never_raises: "fst (send rd p m x) = Inr ()"
proof (cases "pb_client p")
  case None
  then show ?thesis using connects unreachable by (cases "connect rd p x") (metis fst_conv sum.exhaust)
qed (simp add: connected)

lemma keeps_settings:
  assumes "send rd p m x = (r, p', x')"
  shows "pb_channel p' = pb_channel p \<and> pb_url p' = pb_url p \<and> pb_timeout p' = pb_timeout p
    \<and> pb_client_factory p' = pb_client_factory p \<and> (pb_client p \<noteq> None \<longrightarrow> p' = p)"
proof (cases "pb_client p")
  case (Some c)
  with assms show ?thesis by (auto simp: connected)
next
  case None
  obtain a y where a: "connect rd p x = (a, y)" by (rule prod.exhaust)
  show ?thesis
  proof (cases a)
    case (Inl e)
    with unreachable [OF None, of rd x e y m] assms a show ?thesis by auto
  next
    case (Inr c)
    with connects [OF None, of rd x c y m] assms a None show ?thesis by auto
  qed
qed

end

lemma reload_get_client_connect:
  "reload_get_client rd p x = (case pb_client p of
     Some c \<Rightarrow> (Inr c, p, x)
   | None \<Rightarrow> (case connect rd p x of (Inl e, x') \<Rightarrow> (Inl e, p, x') | (Inr c, x') \<Rightarrow> (Inr c, p\<lparr>pb_client := Some c\<rparr>, x')))"
  unfolding reload_get_client_def connect_def by (rule refl)

lemma event_get_client_connect: "event_get_client = reload_get_client"
  by (simp add: fun_eq_iff event_get_client_def reload_get_client_def)

interpretation reload: redis_channel "\<lambda>rd p (_ :: unit) x. publish_reload rd p x" "\<lambda>_. RELOAD_MESSAGE"
  by unfold_locales (auto simp: publish_reload_def reload_get_client_connect split: prod.splits sum.splits)

interpretation events: redis_channel publish_event "\<lambda>e. dumps (event_members e)"
  by unfold_locales (auto simp: publish_event_def event_get_client_connect reload_get_client_connect
      split: prod.splits sum.splits)

section \<open>A process and its signals\<close>

record publish_config =
  pc_redis_url :: pystr
  pc_reload_channel :: pystr
  pc_events_channel :: pystr
  pc_timeout :: pyfloat

record ('c, 'x) process =
  pr_reload :: "('c, 'x) publisher option"
  pr_events :: "('c, 'x) publisher option"

definition fresh_process :: "('c, 'x) process" where
  "fresh_process = \<lparr>pr_reload = None, pr_events = None\<rparr>"

text \<open>One signal: the dependency returns the process's publisher, which fires it.\<close>

fun deliver :: "publish_config \<Rightarrow> ('c, 'x) redis \<Rightarrow> effect \<Rightarrow> ('c, 'x) process \<times> 'x \<Rightarrow> ('c, 'x) process \<times> 'x" where
  "deliver cfg rd PublishReload (pr, x) =
     (case get_default_reload_publisher (pc_redis_url cfg) (pc_reload_channel cfg) (pc_timeout cfg) (pr_reload pr) of
        NullPublisher \<Rightarrow> (pr\<lparr>pr_reload := Some NullPublisher\<rparr>, x)
      | RedisPublisher p \<Rightarrow>
          (case publish_reload rd p x of (_, p', x') \<Rightarrow> (pr\<lparr>pr_reload := Some (RedisPublisher p')\<rparr>, x')))"
| "deliver cfg rd (PublishEvent e) (pr, x) =
     (case get_default_event_publisher (pc_redis_url cfg) (pc_events_channel cfg) (pc_timeout cfg) (pr_events pr) of
        NullPublisher \<Rightarrow> (pr\<lparr>pr_events := Some NullPublisher\<rparr>, x)
      | RedisPublisher p \<Rightarrow>
          (case publish_event rd p e x of (_, p', x') \<Rightarrow> (pr\<lparr>pr_events := Some (RedisPublisher p')\<rparr>, x')))"
| "deliver cfg rd Committed st = st"
| "deliver cfg rd (Called c) st = st"

definition deliver_all ::
  "publish_config \<Rightarrow> ('c, 'x) redis \<Rightarrow> effect list \<Rightarrow> ('c, 'x) process \<times> 'x \<Rightarrow> ('c, 'x) process \<times> 'x" where
  "deliver_all cfg rd tr st = foldl (\<lambda>st ef. deliver cfg rd ef st) st tr"

fun message_of :: "publish_config \<Rightarrow> effect \<Rightarrow> (pystr \<times> pystr) list" where
  "message_of cfg PublishReload = [(pc_reload_channel cfg, RELOAD_MESSAGE)]"
| "message_of cfg (PublishEvent e) = [(pc_events_channel cfg, dumps (event_members e))]"
| "message_of cfg Committed = []"
| "message_of cfg (Called c) = []"

section \<open>What reaches Redis\<close>

definition has_client :: "('c, 'x) redis_publisher \<Rightarrow> nat" where
  "has_client p = (if pb_client p = None then 0 else 1)"

lemma recorded_send:
  fixes send :: "('c, nat \<times> (pystr \<times> pystr) list \<times> 'x) redis \<Rightarrow> _ \<Rightarrow> 'm \<Rightarrow> _"
  assumes ch: "redis_channel send message" and fac: "pb_client_factory p = None"
    and run: "send (recording_redis rd) p m (n, log, x) = (r, p', (n', log', x'))"
  shows "(log' = log \<or> log' = log @ [(pb_channel p, message m)]) \<and> n' + has_client p = n + has_client p'"
proof (cases "pb_client p")
  case (Some c)
  with run redis_channel.connected [OF ch Some] show ?thesis
    by (auto simp: recording_redis_def has_client_def split: prod.splits)
next
  case None
  obtain a y where a: "rd_from_url rd (pb_url p) (pb_timeout p) x = (a, y)" by (rule prod.exhaust)
  show ?thesis
  proof (cases a)
    case (Inl e)
    with a fac have "connect (recording_redis rd) p (n, log, x) = (Inl e, (n, log, y))"
      by (simp add: connect_def recording_redis_def)
    from redis_channel.unreachable [OF ch None this] run show ?thesis by simp
  next
    case (Inr c)
    with a fac have "connect (recording_redis rd) p (n, log, x) = (Inr c, (n + 1, log, y))"
      by (simp add: connect_def recording_redis_def)
    from redis_channel.connects [OF ch None this] run None show ?thesis
      by (auto simp: recording_redis_def has_client_def split: prod.splits)
  qed
qed

text \<open>A publisher of the process on its channel, without injected factory.\<close>

definition publisher_ok :: "pystr \<Rightarrow> pystr \<Rightarrow> ('c, 'x) publisher option \<Rightarrow> bool" where
  "publisher_ok url channel d \<longleftrightarrow>
     (case d of
        None \<Rightarrow> True
      | Some NullPublisher \<Rightarrow> url = []
      | Some (RedisPublisher p) \<Rightarrow> url \<noteq> [] \<and> pb_channel p = channel \<and> pb_client_factory p = None)"

definition client_count :: "('c, 'x) publisher option \<Rightarrow> nat" where
  "client_count d = (case d of Some (RedisPublisher p) \<Rightarrow> has_client p | _ \<Rightarrow> 0)"

lemma publisher_simps:
  "publisher_ok url channel (Some NullPublisher) \<longleftrightarrow> url = []"
  "publisher_ok url channel (Some (RedisPublisher p)) \<longleftrightarrow>
     url \<noteq> [] \<and> pb_channel p = channel \<and> pb_client_factory p = None"
  "client_count (Some NullPublisher) = 0" "client_count (Some (RedisPublisher p)) = has_client p"
  by (simp_all add: publisher_ok_def client_count_def)

definition process_ok :: "publish_config \<Rightarrow> ('c, 'x) process \<Rightarrow> nat \<Rightarrow> bool" where
  "process_ok cfg pr n \<longleftrightarrow>
     publisher_ok (pc_redis_url cfg) (pc_reload_channel cfg) (pr_reload pr)
   \<and> publisher_ok (pc_redis_url cfg) (pc_events_channel cfg) (pr_events pr)
   \<and> n = client_count (pr_reload pr) + client_count (pr_events pr)"

lemma client_count_le: "client_count d \<le> 1"
  by (simp add: client_count_def has_client_def split: option.splits publisher.splits)

lemma default_publisher_ok:
  assumes "publisher_ok url channel d"
    and "d' = (case d of Some p \<Rightarrow> p | None \<Rightarrow> if url \<noteq> [] then RedisPublisher (new_redis_publisher url channel timeout None) else NullPublisher)"
  shows "publisher_ok url channel (Some d')" and "client_count (Some d') = client_count d"
  using assms by (auto simp: publisher_ok_def new_redis_publisher_def client_count_def has_client_def split: option.splits)

lemma deliver_recorded:
  assumes "process_ok cfg pr n" and "deliver cfg (recording_redis rd) ef (pr, (n, log, x)) = (pr', (n', log', x'))"
  shows "process_ok cfg pr' n' \<and> (log' = log \<or> log' = log @ message_of cfg ef)
    \<and> (pc_redis_url cfg = [] \<longrightarrow> log' = log \<and> n' = n)"
proof (cases ef)
  case PublishReload
  define d where "d = get_default_reload_publisher (pc_redis_url cfg) (pc_reload_channel cfg) (pc_timeout cfg) (pr_reload pr)"
  have ok: "publisher_ok (pc_redis_url cfg) (pc_reload_channel cfg) (Some d)" "client_count (Some d) = client_count (pr_reload pr)"
    using default_publisher_ok [of _ _ "pr_reload pr" d "pc_timeout cfg"] assms(1)
    by (auto simp: d_def get_default_reload_publisher_def process_ok_def)
  show ?thesis
  proof (cases d)
    case NullPublisher
    with assms PublishReload ok show ?thesis
      by (auto simp: d_def [symmetric] process_ok_def publisher_simps)
  next
    case (RedisPublisher p)
    obtain r p' y where y: "publish_reload (recording_redis rd) p (n, log, x) = (r, p', y)" by (metis prod_cases3)
    obtain a b c where abc: "y = (a, b, c)" by (metis prod_cases3)
    from ok RedisPublisher have fac: "pb_client_factory p = None" "pb_channel p = pc_reload_channel cfg"
      by (auto simp: publisher_simps)
    from recorded_send [OF reload.redis_channel_axioms fac(1)] y abc
    have "(b = log \<or> b = log @ [(pb_channel p, RELOAD_MESSAGE)]) \<and> a + has_client p = n + has_client p'" by blast
    with reload.keeps_settings [OF y] assms PublishReload ok RedisPublisher fac y abc show ?thesis
      by (auto simp: d_def [symmetric] process_ok_def publisher_simps)
  qed
next
  case (PublishEvent e)
  define d where "d = get_default_event_publisher (pc_redis_url cfg) (pc_events_channel cfg) (pc_timeout cfg) (pr_events pr)"
  have ok: "publisher_ok (pc_redis_url cfg) (pc_events_channel cfg) (Some d)" "client_count (Some d) = client_count (pr_events pr)"
    using default_publisher_ok [of _ _ "pr_events pr" d "pc_timeout cfg"] assms(1)
    unfolding d_def get_default_event_publisher_def new_event_publisher by (auto simp: process_ok_def)
  show ?thesis
  proof (cases d)
    case NullPublisher
    with assms PublishEvent ok show ?thesis
      by (auto simp: d_def [symmetric] process_ok_def publisher_simps)
  next
    case (RedisPublisher p)
    obtain r p' y where y: "publish_event (recording_redis rd) p e (n, log, x) = (r, p', y)" by (metis prod_cases3)
    obtain a b c where abc: "y = (a, b, c)" by (metis prod_cases3)
    from ok RedisPublisher have fac: "pb_client_factory p = None" "pb_channel p = pc_events_channel cfg"
      by (auto simp: publisher_simps)
    from recorded_send [OF events.redis_channel_axioms fac(1)] y abc
    have "(b = log \<or> b = log @ [(pb_channel p, dumps (event_members e))]) \<and> a + has_client p = n + has_client p'" by blast
    with events.keeps_settings [OF y] assms PublishEvent ok RedisPublisher fac y abc show ?thesis
      by (auto simp: d_def [symmetric] process_ok_def publisher_simps)
  qed
qed (use assms in auto)

lemma deliver_all_recorded:
  assumes "process_ok cfg pr n" and "deliver_all cfg (recording_redis rd) tr (pr, (n, log, x)) = (pr', (n', log', x'))"
  shows "process_ok cfg pr' n' \<and> (\<exists>sent. log' = log @ sent \<and> subseq sent (concat (map (message_of cfg) tr)))
    \<and> (pc_redis_url cfg = [] \<longrightarrow> log' = log \<and> n' = n)"
  using assms
proof (induction tr arbitrary: pr n log x)
  case Nil
  then show ?case by (simp add: deliver_all_def)
next
  case (Cons ef tr)
  obtain pr1 n1 log1 x1 where step: "deliver cfg (recording_redis rd) ef (pr, (n, log, x)) = (pr1, (n1, log1, x1))"
    by (metis prod_cases4)
  note one = deliver_recorded [OF Cons.prems(1) step]
  with Cons.prems(2) step have "deliver_all cfg (recording_redis rd) tr (pr1, (n1, log1, x1)) = (pr', (n', log', x'))"
    by (simp add: deliver_all_def)
  from Cons.IH [OF _ this] one obtain sent where
    rest: "process_ok cfg pr' n'" "log' = log1 @ sent" "subseq sent (concat (map (message_of cfg) tr))"
      "pc_redis_url cfg = [] \<longrightarrow> log' = log1 \<and> n' = n1" by blast
  from one consider "log1 = log" | "log1 = log @ message_of cfg ef" by blast
  then have "\<exists>sent. log' = log @ sent \<and> subseq sent (concat (map (message_of cfg) (ef # tr)))"
  proof cases
    case 1
    with rest show ?thesis by (intro exI [of _ sent]) (simp add: list_emb_append2)
  next
    case 2
    with rest show ?thesis
      by (intro exI [of _ "message_of cfg ef @ sent"]) (simp add: list_emb_append_mono)
  qed
  with rest one show ?case by simp
qed

section \<open>Properties\<close>

text \<open>C20. What subscribers can receive: over any sequence of signals a process publishes only the
  messages of those signals, each at most once, in order and on the configured channel of its
  kind, drops what it cannot send, builds at most one client per publisher, and with no Redis
  configured sends nothing. The reload channel carries the fixed token and never data.\<close>

theorem signals_reach_redis_in_order:
  "case deliver_all cfg (recording_redis rd) tr (fresh_process, (0, [], x)) of (_, (clients, sent, _)) \<Rightarrow>
     subseq sent (concat (map (message_of cfg) tr)) \<and> clients \<le> 2
     \<and> (if pc_redis_url cfg = [] then sent = [] \<and> clients = 0 else True)"
proof -
  obtain pr' n' log' x' where
    run: "deliver_all cfg (recording_redis rd) tr (fresh_process, (0, [], x)) = (pr', (n', log', x'))"
    by (metis prod_cases4)
  have "process_ok cfg fresh_process 0"
    by (simp add: process_ok_def fresh_process_def publisher_ok_def client_count_def)
  from deliver_all_recorded [OF this run] client_count_le [of "pr_reload pr'"] client_count_le [of "pr_events pr'"]
  show ?thesis by (auto simp: run process_ok_def)
qed

text \<open>The text of an event is text that UTF-8 can carry.\<close>

definition event_text_ok :: "build_event \<Rightarrow> bool" where
  "event_text_ok e \<longleftrightarrow> (\<forall>(k, v) \<in> set (event_members e). \<forall>s. v = Some s \<longrightarrow> proper_text s)"

lemma event_loads:
  assumes "event_text_ok e" and "0 < depth"
  shows "json_loads depth (dumps (event_members e))
    = Inr (JObj (map (\<lambda>(k, v). (k, json_scalar v)) (event_members e)))"
proof (rule loads_dumps)
  show "distinct (map fst (event_members e))" by (simp add: event_members_def)
  have "proper_text k" if "(k, v) \<in> set (event_members e)" for k v
    using that by (auto simp: event_members_def proper_text_def is_surrogate_def str_def)
  with assms(1) show "\<forall>(k, v) \<in> set (event_members e). proper_text k \<and> (\<forall>s. v = Some s \<longrightarrow> proper_text s)"
    by (auto simp: event_text_ok_def)
qed (simp_all add: event_members_def assms(2))

lemma json_scalar_inj [simp]: "json_scalar v = json_scalar v' \<longleftrightarrow> v = v'"
  by (auto simp: json_scalar_def split: option.splits)

lemma event_members_inj: "map (\<lambda>(k, v). (k, json_scalar v)) (event_members e)
    = map (\<lambda>(k, v). (k, json_scalar v)) (event_members e') \<Longrightarrow> e = e'"
  by (simp add: event_members_def build_event.equality)

text \<open>C21. A published event says exactly what happened: over a connected client the publisher sends
  one message on its channel; for an event whose text UTF-8 can carry, what a subscriber decodes
  from it is the event's dictionary, field for field, and no other event has the same message.\<close>

theorem event_round_trip:
  assumes "pb_client p = Some c" and "event_text_ok e" and "0 < depth"
    and "publish_event (recording_redis rd) p e (n, log, x) = (r, p', (n', log', x'))"
  shows "\<exists>msg. log' = log @ [(pb_channel p, msg)]
    \<and> json_loads depth msg = Inr (JObj (map (\<lambda>(k, v). (k, json_scalar v)) (event_members e)))
    \<and> (\<forall>e'. event_text_ok e' \<longrightarrow> dumps (event_members e') = msg \<longrightarrow> e' = e)"
proof (intro exI conjI allI impI)
  show "log' = log @ [(pb_channel p, dumps (event_members e))]"
    using events.connected [OF assms(1), of "recording_redis rd" e "(n, log, x)"] assms(4)
    by (auto simp: recording_redis_def split: prod.splits)
  show "json_loads depth (dumps (event_members e)) = Inr (JObj (map (\<lambda>(k, v). (k, json_scalar v)) (event_members e)))"
    using assms(2,3) by (rule event_loads)
  show "e' = e" if "event_text_ok e'" and "dumps (event_members e') = dumps (event_members e)" for e'
    using event_loads [OF that(1) assms(3)] event_loads [OF assms(2,3)] that(2) event_members_inj [of e' e] by simp
qed

definition sample_build_event :: build_event where
  "sample_build_event = \<lparr>be_automation_id = 1, be_tenant_id = str ''acme'', be_commit_sha = str ''0f'',
     be_build_state = str ''idle'', be_matching_state = str ''inactive'', be_active_digest = None\<rparr>"

definition sample_publisher :: "(unit, nat \<times> (pystr \<times> pystr) list \<times> unit) redis_publisher" where
  "sample_publisher = (new_redis_publisher (str ''redis://r'') (str ''events'') (PyFloat 1 0) None)\<lparr>pb_client := Some ()\<rparr>"

definition silent_redis :: "(unit, unit) redis" where
  "silent_redis = \<lparr>rd_from_url = (\<lambda>_ _ x. (Inr (), x)), rd_publish = (\<lambda>_ _ _ x. (Inr (), x))\<rparr>"

theorem event_round_trip_witness:
  "\<exists>msg. fst (snd (snd (snd (publish_event (recording_redis silent_redis) sample_publisher sample_build_event (0, [], ())))))
       = [(str ''events'', msg)]
     \<and> json_loads 10 msg = Inr (JObj (map (\<lambda>(k, v). (k, json_scalar v)) (event_members sample_build_event)))"
proof -
  have "proper_text (uuid_str i)" for i
    using uuid_str_chars by (fastforce simp: proper_text_def is_surrogate_def list_all_iff)
  then have ok: "event_text_ok sample_build_event"
    by (auto simp: event_text_ok_def event_members_def sample_build_event_def BUILD_EVENT_TYPE_def)
      (simp_all add: proper_text_def is_surrogate_def str_def)
  have client: "pb_client sample_publisher = Some ()" and channel: "pb_channel sample_publisher = str ''events''"
    by (simp_all add: sample_publisher_def new_redis_publisher_def)
  obtain r p' n' log' x' where
    run: "publish_event (recording_redis silent_redis) sample_publisher sample_build_event (0, [], ()) = (r, p', (n', log', x'))"
    by (metis prod_cases5)
  from event_round_trip [OF client ok, where depth = 10, OF _ run] show ?thesis
    by (metis channel append_Nil run fst_conv snd_conv zero_less_numeral)
qed

end
