(* ===== verification/Gitlab.thy ===== *)
theory Gitlab
  imports Git_Client Json
begin

text \<open>
  The GitLab client of \<open>src/bl/git_client.py\<close> and the guards of \<open>build_gitlab_client\<close>.
  python-gitlab is a parameter: the handle it builds for a URL, a token, a timeout and a project,
  and the handle's two REST operations, with the milliseconds a call takes. A call that outlives
  the timeout may still have had its effect. \<open>serves_files\<close> and \<open>gitlab_up\<close> state what GitLab
  documents of these operations; over such a server the client is a \<open>script_store\<close>.
\<close>

section \<open>python-gitlab\<close>

text \<open>An error of a call is one of python-gitlab's, or any other exception; \<open>FutureTimeout\<close> is the
  executor's.\<close>

datatype gitlab_error =
    GitlabCreateError "int option" pystr
  | GitlabGetError "int option"
  | OtherGitlabError
  | FutureTimeout
  | NotGitlab exn

record commit_data =
  cm_branch :: pystr
  cm_commit_message :: pystr
  cm_action :: pystr
  cm_file_path :: pystr
  cm_content :: pystr
  cm_author_name :: pystr
  cm_author_email :: pystr

datatype gitlab_raw = RawBytes "nat list" | RawText pystr

record 'x gitlab_project =
  gp_commits_create :: "commit_data \<Rightarrow> 'x \<Rightarrow> (gitlab_error + pystr) \<times> nat \<times> 'x"
  gp_files_raw :: "pystr \<Rightarrow> pystr \<Rightarrow> 'x \<Rightarrow> (gitlab_error + gitlab_raw) \<times> nat \<times> 'x"

text \<open>\<open>Gitlab(url, private_token, timeout).projects.get(project, lazy=True)\<close>.\<close>

type_synonym 'x gitlab_api = "pystr \<Rightarrow> pystr \<Rightarrow> pyfloat \<Rightarrow> pystr \<Rightarrow> exn + 'x gitlab_project"

section \<open>Bounded calls\<close>

text \<open>How long \<open>future.result(timeout)\<close> waits, in whole milliseconds: a timeout that is not above
  zero does not wait, one the platform's lock cannot represent is an \<open>OverflowError\<close> (\<open>None\<close>).\<close>

definition TIMEOUT_MAX_MS :: nat where "TIMEOUT_MAX_MS = 9223372036000"

definition float_ms :: "int \<Rightarrow> int \<Rightarrow> nat" where
  "float_ms m e = nat (if 0 \<le> e then m * 1000 * 2 ^ nat e else m * 1000 div 2 ^ nat (- e))"

definition wait_ms :: "pyfloat \<Rightarrow> nat option" where
  "wait_ms t =
     (case t of
        PyNaN \<Rightarrow> Some 0
      | PyInf negative \<Rightarrow> if negative then Some 0 else None
      | PyFloat m e \<Rightarrow> if TIMEOUT_MAX_MS < float_ms m e then None else Some (float_ms m e))"

text \<open>\<open>_bounded\<close>: the result if the call ends in time, else the timeout; the caller waits no
  longer than the timeout because the executor is shut down without waiting.\<close>

definition bounded :: "pyfloat \<Rightarrow> (gitlab_error + 'a) \<times> nat \<times> 'x \<Rightarrow> (gitlab_error + 'a) \<times> nat \<times> 'x" where
  "bounded timeout c =
     (case c of (r, ms, x) \<Rightarrow>
        if ms = 0 then (r, ms, x)
        else case wait_ms timeout of
          None \<Rightarrow> (Inl (NotGitlab (PyException (str ''OverflowError''))), 0, x)
        | Some t \<Rightarrow> if t < ms then (Inl FutureTimeout, t, x) else (r, ms, x))"

section \<open>GitlabGitClient\<close>

definition contains :: "pystr \<Rightarrow> pystr \<Rightarrow> bool" where
  "contains needle s \<longleftrightarrow> list_ex (\<lambda>i. take (length needle) (drop i s) = needle) [0..<Suc (length s)]"

fun is_missing_file :: "gitlab_error \<Rightarrow> bool" where
  "is_missing_file (GitlabCreateError code message) \<longleftrightarrow>
     code = Some 400 \<and> (contains (str ''doesn't exist'') (ascii_lower message)
       \<or> contains (str ''does not exist'') (ascii_lower message))"
| "is_missing_file _ \<longleftrightarrow> False"

fun is_create_error :: "gitlab_error \<Rightarrow> bool" where
  "is_create_error (GitlabCreateError _ _) = True"
| "is_create_error _ = False"

text \<open>\<open>except (GitlabError, FutureTimeoutError)\<close> becomes \<open>ScriptRepoUnavailableError\<close>; anything
  else propagates.\<close>

fun script_repo_error :: "gitlab_error \<Rightarrow> exn" where
  "script_repo_error (NotGitlab e) = e"
| "script_repo_error _ = ScriptRepoUnavailableError"

record gitlab_config =
  cf_AUTH_TYPE :: pystr
  cf_GITLAB_URL :: pystr
  cf_GITLAB_SCRIPTS_TOKEN :: pystr
  cf_GITLAB_SCRIPTS_PROJECT :: pystr
  cf_GITLAB_SCRIPTS_BRANCH :: pystr
  cf_GITLAB_COMMIT_AUTHOR_NAME :: pystr
  cf_GITLAB_COMMIT_AUTHOR_EMAIL :: pystr
  cf_GITLAB_TIMEOUT_SECONDS :: pyfloat

definition get_project :: "'x gitlab_api \<Rightarrow> gitlab_config \<Rightarrow> exn + 'x gitlab_project" where
  "get_project api cfg = api (cf_GITLAB_URL cfg) (cf_GITLAB_SCRIPTS_TOKEN cfg)
     (cf_GITLAB_TIMEOUT_SECONDS cfg) (cf_GITLAB_SCRIPTS_PROJECT cfg)"

definition commit_action :: "gitlab_config \<Rightarrow> pystr \<Rightarrow> pystr \<Rightarrow> pystr \<Rightarrow> string \<Rightarrow> commit_data" where
  "commit_action cfg script_path content message action =
     \<lparr>cm_branch = cf_GITLAB_SCRIPTS_BRANCH cfg, cm_commit_message = message, cm_action = str action,
      cm_file_path = script_path, cm_content = content,
      cm_author_name = cf_GITLAB_COMMIT_AUTHOR_NAME cfg, cm_author_email = cf_GITLAB_COMMIT_AUTHOR_EMAIL cfg\<rparr>"

definition gitlab_commit_script ::
  "'x gitlab_api \<Rightarrow> gitlab_config \<Rightarrow> pystr \<Rightarrow> pystr \<Rightarrow> pystr \<Rightarrow> ('x, pystr) client" where
  "gitlab_commit_script api cfg script_path content message x =
     (case get_project api cfg of
        Inl e \<Rightarrow> (Inl e, x)
      | Inr project \<Rightarrow>
          let commit = (\<lambda>action x. bounded (cf_GITLAB_TIMEOUT_SECONDS cfg)
                (gp_commits_create project (commit_action cfg script_path content message action) x))
          in case commit ''update'' x of
               (Inr sha, _, x1) \<Rightarrow> (Inr sha, x1)
             | (Inl e, _, x1) \<Rightarrow>
                 if is_create_error e \<and> is_missing_file e then
                   (case commit ''create'' x1 of
                      (Inr sha, _, x2) \<Rightarrow> (Inr sha, x2)
                    | (Inl e', _, x2) \<Rightarrow> (Inl (script_repo_error e'), x2))
                 else (Inl (script_repo_error e), x1))"

text \<open>\<open>raw.decode("utf-8")\<close>: unlike the decoder of \<open>json.loads\<close> it refuses encoded surrogates.\<close>

definition decode_raw :: "gitlab_raw \<Rightarrow> exn + pystr" where
  "decode_raw raw =
     (case raw of
        RawText s \<Rightarrow> Inr s
      | RawBytes b \<Rightarrow>
          (case utf8_decode b of
             Some s \<Rightarrow> if list_ex is_surrogate s then Inl (PyException (str ''UnicodeDecodeError'')) else Inr s
           | None \<Rightarrow> Inl (PyException (str ''UnicodeDecodeError''))))"

definition gitlab_read_script ::
  "'x gitlab_api \<Rightarrow> gitlab_config \<Rightarrow> pystr \<Rightarrow> ('x, pystr option) client" where
  "gitlab_read_script api cfg script_path x =
     (case get_project api cfg of
        Inl e \<Rightarrow> (Inl e, x)
      | Inr project \<Rightarrow>
          (case bounded (cf_GITLAB_TIMEOUT_SECONDS cfg)
                  (gp_files_raw project script_path (cf_GITLAB_SCRIPTS_BRANCH cfg) x) of
             (Inr raw, _, x1) \<Rightarrow> (case decode_raw raw of Inl e \<Rightarrow> (Inl e, x1) | Inr s \<Rightarrow> (Inr (Some s), x1))
           | (Inl (GitlabGetError code), _, x1) \<Rightarrow>
               if code = Some 404 then (Inr None, x1) else (Inl ScriptRepoUnavailableError, x1)
           | (Inl e, _, x1) \<Rightarrow> (Inl (script_repo_error e), x1)))"

definition gitlab_archive :: "uuid \<Rightarrow> pystr \<Rightarrow> ('x, pystr) client" where
  "gitlab_archive automation_id actor = raising ScriptRepoUnavailableError"

definition GitlabGitClient :: "'x gitlab_api \<Rightarrow> gitlab_config \<Rightarrow> 'x git_client" where
  "GitlabGitClient api cfg =
     \<lparr>g_commit_script = gitlab_commit_script api cfg, g_read_script = gitlab_read_script api cfg,
      g_archive = gitlab_archive\<rparr>"

definition build_gitlab_client :: "'x gitlab_api \<Rightarrow> gitlab_config \<Rightarrow> exn + 'x git_client" where
  "build_gitlab_client api cfg =
     (if cf_AUTH_TYPE cfg = str ''noauth'' then Inl PyRuntimeError
      else let missing = [n. (n, v) \<leftarrow> [(str ''GITLAB_URL'', cf_GITLAB_URL cfg),
                  (str ''GITLAB_SCRIPTS_TOKEN'', cf_GITLAB_SCRIPTS_TOKEN cfg),
                  (str ''GITLAB_SCRIPTS_PROJECT'', cf_GITLAB_SCRIPTS_PROJECT cfg)], v = []]
           in if missing \<noteq> [] then Inl PyRuntimeError
              else Inr (GitlabGitClient api cfg))"

section \<open>UTF-8 round trip\<close>

lemma utf8_decode_char:
  assumes "c < 1114112" and "\<not> is_surrogate c"
  shows "utf8_decode (utf8_bytes c @ r) = map_option (\<lambda>t. c # t) (utf8_decode r)"
proof -
  define a b d where "a = c div 64" and "b = a div 64" and "d = b div 64"
  have digits: "c = 64 * a + c mod 64" "a = 64 * b + a mod 64" "b = 64 * d + b mod 64"
    "c mod 64 < 64" "a mod 64 < 64" "b mod 64 < 64"
    by (simp_all add: a_def b_def d_def)
  have bytes: "utf8_bytes c =
     (if c < 128 then [c] else if c < 2048 then [192 + a, 128 + c mod 64]
      else if c < 65536 then [224 + b, 128 + a mod 64, 128 + c mod 64]
      else [240 + d, 128 + b mod 64, 128 + a mod 64, 128 + c mod 64])"
    by (simp add: utf8_bytes_def a_def b_def d_def flip: div_mult2_eq)
  consider "c < 128" | "128 \<le> c" "c < 2048" | "2048 \<le> c" "c < 65536" | "65536 \<le> c" by linarith
  then show ?thesis
  proof cases
    case 1
    then show ?thesis by (simp add: bytes)
  next
    case 2
    with digits have "2 \<le> a \<and> a < 32" "a * 64 + c mod 64 = c" by linarith+
    moreover have "utf8_bytes c = [192 + a, 128 + c mod 64]" using 2 by (simp add: bytes)
    ultimately show ?thesis using digits(4) by (simp add: is_cont_def)
  next
    case 3
    with digits have "b < 16" "b = 0 \<longrightarrow> 32 \<le> a mod 64" "b * 4096 + a mod 64 * 64 + c mod 64 = c" by linarith+
    moreover have "utf8_bytes c = [224 + b, 128 + a mod 64, 128 + c mod 64]" using 3 by (simp add: bytes)
    ultimately show ?thesis using digits(4,5) by (simp add: is_cont_def)
  next
    case 4
    with digits assms(1) have "d < 5" "d = 0 \<longrightarrow> 16 \<le> b mod 64" "d = 4 \<longrightarrow> b mod 64 < 16"
      "d * 262144 + b mod 64 * 4096 + a mod 64 * 64 + c mod 64 = c" by linarith+
    moreover have "utf8_bytes c = [240 + d, 128 + b mod 64, 128 + a mod 64, 128 + c mod 64]"
      using 4 by (simp add: bytes)
    ultimately show ?thesis using digits(4-6) by (simp add: is_cont_def)
  qed
qed

lemma utf8_decode_bytes: "proper_text s \<Longrightarrow> utf8_decode (concat (map utf8_bytes s)) = Some s"
  by (induction s) (simp_all add: proper_text_def utf8_decode_char)

lemma decode_raw_encoded:
  assumes "proper_text s" and "utf8_encode s = Some b"
  shows "decode_raw (RawBytes b) = Inr s"
  using assms utf8_decode_bytes [OF assms(1)] by (auto simp: decode_raw_def utf8_encode_def split: if_splits)

section \<open>What GitLab documents\<close>

text \<open>The files of a server, by branch and path. A commit touches only the file it names, and one
  that is acknowledged has written its content; reading changes nothing and returns the bytes, and
  only an absent file is a 404.\<close>

definition serves_files :: "'x gitlab_project \<Rightarrow> ('x \<Rightarrow> pystr \<times> pystr \<Rightarrow> nat list option) \<Rightarrow> bool" where
  "serves_files project files \<longleftrightarrow>
     (\<forall>d x r ms x'. gp_commits_create project d x = (r, ms, x') \<longrightarrow>
        (\<forall>q. q \<noteq> (cm_branch d, cm_file_path d) \<longrightarrow> files x' q = files x q)
      \<and> (\<forall>sha b. r = Inr sha \<longrightarrow> utf8_encode (cm_content d) = Some b \<longrightarrow> files x' (cm_branch d, cm_file_path d) = Some b))
   \<and> (\<forall>path ref x r ms x'. gp_files_raw project path ref x = (r, ms, x') \<longrightarrow> files x' = files x
      \<and> (\<forall>raw. r = Inr raw \<longrightarrow> (\<exists>b. raw = RawBytes b \<and> files x (ref, path) = Some b))
      \<and> (r = Inl (GitlabGetError (Some 404)) \<longrightarrow> files x (ref, path) = None))"

definition in_time :: "pyfloat \<Rightarrow> nat \<Rightarrow> bool" where
  "in_time timeout ms \<longleftrightarrow> ms = 0 \<or> (case wait_ms timeout of None \<Rightarrow> False | Some t \<Rightarrow> ms \<le> t)"

text \<open>A server that answers in time: an update of an existing file and a create of an absent one
  are accepted, an update of an absent one is the 400 that says so; an existing file is returned.\<close>

definition gitlab_up :: "pyfloat \<Rightarrow> 'x gitlab_project \<Rightarrow> ('x \<Rightarrow> pystr \<times> pystr \<Rightarrow> nat list option) \<Rightarrow> bool" where
  "gitlab_up timeout project files \<longleftrightarrow>
     (\<forall>d x. utf8_encode (cm_content d) \<noteq> None \<longrightarrow>
        (\<exists>r ms x'. gp_commits_create project d x = (r, ms, x') \<and> in_time timeout ms
        \<and> (cm_action d = str ''update'' \<longrightarrow> files x (cm_branch d, cm_file_path d) \<noteq> None \<longrightarrow> \<not> isl r)
        \<and> (cm_action d = str ''create'' \<longrightarrow> files x (cm_branch d, cm_file_path d) = None \<longrightarrow> \<not> isl r)
        \<and> (cm_action d = str ''update'' \<longrightarrow> files x (cm_branch d, cm_file_path d) = None \<longrightarrow>
             files x' = files x \<and> (\<exists>m. r = Inl (GitlabCreateError (Some 400) m)
               \<and> is_missing_file (GitlabCreateError (Some 400) m)))))
   \<and> (\<forall>path ref x. files x (ref, path) \<noteq> None \<longrightarrow>
        (\<exists>raw ms x'. gp_files_raw project path ref x = (Inr raw, ms, x') \<and> in_time timeout ms))"

definition gitlab_content ::
  "gitlab_config \<Rightarrow> ('x \<Rightarrow> pystr \<times> pystr \<Rightarrow> nat list option) \<Rightarrow> 'x \<Rightarrow> pystr \<Rightarrow> pystr option" where
  "gitlab_content cfg files x path =
     (case files x (cf_GITLAB_SCRIPTS_BRANCH cfg, path) of
        None \<Rightarrow> None
      | Some b \<Rightarrow> (case decode_raw (RawBytes b) of Inl _ \<Rightarrow> None | Inr s \<Rightarrow> Some s))"

section \<open>The client is a script store\<close>

lemma bounded_in_time [simp]: "in_time timeout ms \<Longrightarrow> bounded timeout (r, ms, x) = (r, ms, x)"
  by (auto simp: in_time_def bounded_def split: option.splits)

lemma bounded_state:
  assumes "bounded timeout (r, ms, x) = (r', ms', x')"
  shows "x' = x" and "\<And>a. r' = Inr a \<Longrightarrow> r = Inr a"
    and "r' = Inl (GitlabGetError code) \<Longrightarrow> r = Inl (GitlabGetError code)"
  using assms by (auto simp: bounded_def split: if_splits option.splits)

lemma commit_call:
  assumes "serves_files project files"
    and "bounded timeout (gp_commits_create project (commit_action cfg path c m a) x) = (r, ms, x1)"
  shows "q \<noteq> (cf_GITLAB_SCRIPTS_BRANCH cfg, path) \<Longrightarrow> files x1 q = files x q"
    and "r = Inr sha \<Longrightarrow> utf8_encode c = Some b \<Longrightarrow> files x1 (cf_GITLAB_SCRIPTS_BRANCH cfg, path) = Some b"
proof -
  obtain r0 ms0 x0 where call: "gp_commits_create project (commit_action cfg path c m a) x = (r0, ms0, x0)"
    by (rule prod_cases3)
  have run: "bounded timeout (r0, ms0, x0) = (r, ms, x1)" using assms(2) by (simp add: call)
  have srv: "\<forall>q. q \<noteq> (cf_GITLAB_SCRIPTS_BRANCH cfg, path) \<longrightarrow> files x0 q = files x q"
    "\<forall>sha b. r0 = Inr sha \<longrightarrow> utf8_encode c = Some b \<longrightarrow> files x0 (cf_GITLAB_SCRIPTS_BRANCH cfg, path) = Some b"
    using conjunct1 [OF assms(1) [unfolded serves_files_def], THEN spec, THEN spec, THEN spec, THEN spec, THEN spec,
        THEN mp, OF call] by (simp_all add: commit_action_def)
  have x1: "x1 = x0" using bounded_state(1) [OF run] .
  show "q \<noteq> (cf_GITLAB_SCRIPTS_BRANCH cfg, path) \<Longrightarrow> files x1 q = files x q"
    unfolding x1 using srv(1) by blast
  show "r = Inr sha \<Longrightarrow> utf8_encode c = Some b \<Longrightarrow> files x1 (cf_GITLAB_SCRIPTS_BRANCH cfg, path) = Some b"
    unfolding x1 using srv(2) bounded_state(2) [OF run] by blast
qed

lemma gitlab_commit_files:
  assumes "get_project api cfg = Inr project" and srv: "serves_files project files"
    and run: "gitlab_commit_script api cfg path c m x = (r, x1)"
  shows "q \<noteq> (cf_GITLAB_SCRIPTS_BRANCH cfg, path) \<Longrightarrow> files x1 q = files x q"
    and "r = Inr sha \<Longrightarrow> utf8_encode c = Some b \<Longrightarrow> files x1 (cf_GITLAB_SCRIPTS_BRANCH cfg, path) = Some b"
proof -
  let ?call = "\<lambda>a x. bounded (cf_GITLAB_TIMEOUT_SECONDS cfg) (gp_commits_create project (commit_action cfg path c m a) x)"
  obtain r0 ms0 x0 where update: "?call ''update'' x = (r0, ms0, x0)" by (rule prod_cases3)
  obtain r2 ms2 x2 where create: "?call ''create'' x0 = (r2, ms2, x2)" by (rule prod_cases3)
  consider "x1 = x0" "\<And>sha. r = Inr sha \<Longrightarrow> r0 = Inr sha" | "x1 = x2" "\<And>sha. r = Inr sha \<Longrightarrow> r2 = Inr sha"
    using run update create assms(1)
    by (auto simp: gitlab_commit_script_def split: sum.splits if_splits)
  note cases = this
  show "files x1 q = files x q" if "q \<noteq> (cf_GITLAB_SCRIPTS_BRANCH cfg, path)"
    using cases
  proof cases
    case 1
    then show ?thesis using commit_call(1) [OF srv update that] by simp
  next
    case 2
    then show ?thesis using commit_call(1) [OF srv update that] commit_call(1) [OF srv create that] by simp
  qed
  show "files x1 (cf_GITLAB_SCRIPTS_BRANCH cfg, path) = Some b" if "r = Inr sha" "utf8_encode c = Some b"
    using cases
  proof cases
    case 1
    then show ?thesis using commit_call(2) [OF srv update _ that(2)] that(1) by simp
  next
    case 2
    then show ?thesis using commit_call(2) [OF srv create _ that(2)] that(1) by simp
  qed
qed

lemma gitlab_read_content:
  assumes "get_project api cfg = Inr project" and srv: "serves_files project files"
    and run: "gitlab_read_script api cfg path x = (r, x1)"
  shows "files x1 = files x" and "r = Inr c \<Longrightarrow> c = gitlab_content cfg files x path"
proof -
  obtain r0 ms0 x0 where call: "gp_files_raw project path (cf_GITLAB_SCRIPTS_BRANCH cfg) x = (r0, ms0, x0)"
    by (rule prod_cases3)
  obtain r2 ms2 x2 where waited: "bounded (cf_GITLAB_TIMEOUT_SECONDS cfg) (r0, ms0, x0) = (r2, ms2, x2)"
    by (rule prod_cases3)
  have srv': "files x0 = files x"
    "\<forall>raw. r0 = Inr raw \<longrightarrow> (\<exists>b. raw = RawBytes b \<and> files x (cf_GITLAB_SCRIPTS_BRANCH cfg, path) = Some b)"
    "r0 = Inl (GitlabGetError (Some 404)) \<longrightarrow> files x (cf_GITLAB_SCRIPTS_BRANCH cfg, path) = None"
    using conjunct2 [OF srv [unfolded serves_files_def], THEN spec, THEN spec, THEN spec, THEN spec, THEN spec, THEN spec,
        THEN mp, OF call] by blast+
  have read: "(r, x1) = (case r2 of
      Inr raw \<Rightarrow> (case decode_raw raw of Inl e \<Rightarrow> Inl e | Inr s \<Rightarrow> Inr (Some s))
    | Inl e \<Rightarrow> (if e = GitlabGetError (Some 404) then Inr None else Inl (script_repo_error e)), x2)"
    using run assms(1)
    by (cases r2; simp add: gitlab_read_script_def call waited split: sum.splits gitlab_error.splits if_splits)
  with bounded_state(1) [OF waited] srv'(1) show "files x1 = files x" by simp
  show "c = gitlab_content cfg files x path" if "r = Inr c"
  proof (cases r2)
    case (Inl e)
    with read that have "e = GitlabGetError (Some 404)" "c = None" by (auto split: if_splits)
    with Inl bounded_state(3) [OF waited] srv'(3) show ?thesis by (simp add: gitlab_content_def)
  next
    case (Inr raw)
    with bounded_state(2) [OF waited] srv'(2) obtain b
      where "raw = RawBytes b" "files x (cf_GITLAB_SCRIPTS_BRANCH cfg, path) = Some b" by blast
    with Inr read that show ?thesis by (auto simp: gitlab_content_def split: sum.splits)
  qed
qed

lemma proper_text_encodes: "proper_text s \<Longrightarrow> \<exists>b. utf8_encode s = Some b"
  by (auto simp: proper_text_def utf8_encode_def list_ex_iff list_all_iff)

lemma gitlab_script_store:
  assumes "get_project api cfg = Inr project" and "serves_files project files"
  shows "script_store proper_text (gitlab_commit_script api cfg) (gitlab_read_script api cfg) (gitlab_content cfg files)"
proof
  show "gitlab_content cfg files x' p = Some c"
    if "gitlab_commit_script api cfg p c m x = (Inr s, x')" and c: "proper_text c" for p c m x s x'
  proof -
    obtain b where "utf8_encode c = Some b" using proper_text_encodes [OF c] by blast
    with gitlab_commit_files(2) [OF assms that(1) refl] decode_raw_encoded [OF c] show ?thesis
      by (simp add: gitlab_content_def)
  qed
  show "gitlab_content cfg files x' q = gitlab_content cfg files x q"
    if "gitlab_commit_script api cfg p c m x = (r, x')" and "q \<noteq> p" for p c m x r x' q
    using gitlab_commit_files(1) [OF assms that(1), of "(cf_GITLAB_SCRIPTS_BRANCH cfg, q)"] that(2)
    by (simp add: gitlab_content_def)
  show "c' = gitlab_content cfg files x p" if "gitlab_read_script api cfg p x = (Inr c', x')" for p x c' x'
    using gitlab_read_content(2) [OF assms that refl] .
  show "gitlab_content cfg files x' = gitlab_content cfg files x" if "gitlab_read_script api cfg p x = (r', x')" for p x r' x'
    using gitlab_read_content(1) [OF assms that] by (simp add: fun_eq_iff gitlab_content_def)
qed

lemma gitlab_commit_succeeds:
  assumes "get_project api cfg = Inr project" and up: "gitlab_up (cf_GITLAB_TIMEOUT_SECONDS cfg) project files"
    and c: "utf8_encode c \<noteq> None"
  shows "\<exists>sha x1. gitlab_commit_script api cfg path c m x = (Inr sha, x1)"
proof -
  let ?d = "commit_action cfg path c m" and ?key = "(cf_GITLAB_SCRIPTS_BRANCH cfg, path)"
  note answers = conjunct1 [OF up [unfolded gitlab_up_def], THEN spec, THEN spec, THEN mp]
  have key: "(cm_branch (?d a), cm_file_path (?d a)) = ?key" "cm_action (?d a) = str a" "cm_content (?d a) = c" for a
    by (simp_all add: commit_action_def)
  obtain r ms x1 where update: "gp_commits_create project (?d ''update'') x = (r, ms, x1)" "in_time (cf_GITLAB_TIMEOUT_SECONDS cfg) ms"
    and kinds: "files x ?key \<noteq> None \<Longrightarrow> \<not> isl r"
      "files x ?key = None \<Longrightarrow> files x1 = files x \<and> (\<exists>e. r = Inl e \<and> is_create_error e \<and> is_missing_file e)"
    using answers [of "?d ''update''" x] c unfolding key by (metis is_create_error.simps(1))
  show ?thesis
  proof (cases "files x ?key = None")
    case False
    with kinds(1) obtain sha where "r = Inr sha" by (cases r) auto
    with update assms(1) show ?thesis by (simp add: gitlab_commit_script_def)
  next
    case True
    with kinds(2) obtain e where e: "r = Inl e" "is_create_error e" "is_missing_file e" "files x1 ?key = None" by auto
    obtain r2 ms2 x2 where create: "gp_commits_create project (?d ''create'') x1 = (r2, ms2, x2)"
        "in_time (cf_GITLAB_TIMEOUT_SECONDS cfg) ms2" and "\<not> isl r2"
      using answers [of "?d ''create''" x1] c e(4) unfolding key by metis
    then obtain sha where "r2 = Inr sha" by (cases r2) auto
    with update create e assms(1) show ?thesis by (simp add: gitlab_commit_script_def)
  qed
qed

lemma gitlab_read_succeeds:
  assumes "get_project api cfg = Inr project" and srv: "serves_files project files"
    and up: "gitlab_up (cf_GITLAB_TIMEOUT_SECONDS cfg) project files"
    and stored: "gitlab_content cfg files x path = Some c"
  shows "\<exists>x1. gitlab_read_script api cfg path x = (Inr (Some c), x1)"
proof -
  obtain b where b: "files x (cf_GITLAB_SCRIPTS_BRANCH cfg, path) = Some b" "decode_raw (RawBytes b) = Inr c"
    using stored by (auto simp: gitlab_content_def split: option.splits sum.splits)
  then obtain raw ms x1 where call: "gp_files_raw project path (cf_GITLAB_SCRIPTS_BRANCH cfg) x = (Inr raw, ms, x1)"
      "in_time (cf_GITLAB_TIMEOUT_SECONDS cfg) ms"
    using conjunct2 [OF up [unfolded gitlab_up_def]] by blast
  have "raw = RawBytes b"
    using conjunct2 [OF srv [unfolded serves_files_def], THEN spec, THEN spec, THEN spec, THEN spec, THEN spec, THEN spec,
        THEN mp, OF call(1)] b(1) by auto
  with call b(2) assms(1) show ?thesis by (simp add: gitlab_read_script_def)
qed

lemma build_gitlab_client_Inr: "build_gitlab_client api cfg = Inr git \<Longrightarrow> git = GitlabGitClient api cfg"
  by (auto simp: build_gitlab_client_def Let_def split: if_splits)

text \<open>C19. The GitLab client is the script repository authoring relies on. Over a server that keeps
  files as GitLab documents, and whatever errors and delays it answers with: a commit changes no
  file but the script at its path on the configured branch; an acknowledged commit has stored the
  script, and a read of the path that returns gives that script back. If the server is up and
  answers within the timeout, a commit is acknowledged whether the script is new or not, and the
  read returns.\<close>

theorem gitlab_round_trip:
  assumes "build_gitlab_client api cfg = Inr git" and "get_project api cfg = Inr project"
    and "serves_files project files" and "proper_text content"
    and "g_commit_script git path content message x = (r, x1)"
  shows "(\<forall>q. q \<noteq> (cf_GITLAB_SCRIPTS_BRANCH cfg, path) \<longrightarrow> files x1 q = files x q)
    \<and> (\<forall>sha. r = Inr sha \<longrightarrow> gitlab_content cfg files x1 path = Some content
         \<and> (\<forall>c x2. g_read_script git path x1 = (Inr c, x2) \<longrightarrow> c = Some content))
    \<and> (gitlab_up (cf_GITLAB_TIMEOUT_SECONDS cfg) project files \<longrightarrow>
         (\<exists>sha x2. r = Inr sha \<and> g_read_script git path x1 = (Inr (Some content), x2)))"
proof -
  have git: "g_commit_script git = gitlab_commit_script api cfg" "g_read_script git = gitlab_read_script api cfg"
    using build_gitlab_client_Inr [OF assms(1)] by (simp_all add: GitlabGitClient_def)
  note store = gitlab_script_store [OF assms(2,3)]
  note run = assms(5) [unfolded git]
  have stored: "gitlab_content cfg files x1 path = Some content" if "r = Inr sha" for sha
    using script_store.commit_stores [OF store] run that assms(4) by blast
  show ?thesis
  proof (intro conjI allI impI)
    show "files x1 q = files x q" if "q \<noteq> (cf_GITLAB_SCRIPTS_BRANCH cfg, path)" for q
      by (rule gitlab_commit_files(1) [OF assms(2,3) run that])
    show "c = Some content" if "r = Inr sha" and "g_read_script git path x1 = (Inr c, x2)" for sha c x2
      using script_store.commit_reads_back [OF store] run that assms(4) git(2) by metis
    assume up: "gitlab_up (cf_GITLAB_TIMEOUT_SECONDS cfg) project files"
    obtain sha where "r = Inr sha"
      using gitlab_commit_succeeds [OF assms(2) up] proper_text_encodes [OF assms(4)] run by (metis option.simps(3) prod.inject)
    with gitlab_read_succeeds [OF assms(2,3) up stored] git(2)
    show "\<exists>sha x2. r = Inr sha \<and> g_read_script git path x1 = (Inr (Some content), x2)" by metis
  qed (rule stored)
qed

definition sample_project :: "(pystr \<times> pystr \<rightharpoonup> nat list) gitlab_project" where
  "sample_project =
     \<lparr>gp_commits_create = (\<lambda>d x.
        if cm_action d = str ''update'' \<and> x (cm_branch d, cm_file_path d) = None
        then (Inl (GitlabCreateError (Some 400) (str ''A file with this name doesn't exist'')), 40, x)
        else case utf8_encode (cm_content d) of
          None \<Rightarrow> (Inl OtherGitlabError, 40, x)
        | Some b \<Rightarrow> (Inr (str ''0a1b''), 40, x((cm_branch d, cm_file_path d) \<mapsto> b))),
      gp_files_raw = (\<lambda>path ref x. case x (ref, path) of
          None \<Rightarrow> (Inl (GitlabGetError (Some 404)), 15, x)
        | Some b \<Rightarrow> (Inr (RawBytes b), 15, x))\<rparr>"

definition sample_gitlab :: gitlab_config where
  "sample_gitlab = \<lparr>cf_AUTH_TYPE = str ''keycloak'', cf_GITLAB_URL = str ''https://git'',
     cf_GITLAB_SCRIPTS_TOKEN = str ''t'', cf_GITLAB_SCRIPTS_PROJECT = str ''scripts'',
     cf_GITLAB_SCRIPTS_BRANCH = str ''main'', cf_GITLAB_COMMIT_AUTHOR_NAME = str ''keep'',
     cf_GITLAB_COMMIT_AUTHOR_EMAIL = str ''k@keep'', cf_GITLAB_TIMEOUT_SECONDS = PyFloat 5 0\<rparr>"

lemma sample_project_serves: "serves_files sample_project (\<lambda>x. x)"
  by (auto simp: serves_files_def sample_project_def split: option.splits if_splits)

lemma sample_project_up: "gitlab_up (PyFloat 5 0) sample_project (\<lambda>x. x)"
proof -
  have "in_time (PyFloat 5 0) 40" "in_time (PyFloat 5 0) 15"
    by (simp_all add: in_time_def wait_ms_def float_ms_def TIMEOUT_MAX_MS_def)
  moreover have "is_missing_file (GitlabCreateError (Some 400) (str ''A file with this name doesn't exist''))"
    by (simp add: contains_def ascii_lower_def is_ascii_upper_def str_def upt_conv_Cons)
  ultimately show ?thesis
    by (auto simp: gitlab_up_def sample_project_def str_def split: option.splits)
qed

theorem gitlab_round_trip_witness:
  "\<exists>sha x1 x2. gitlab_commit_script (\<lambda>_ _ _ _. Inr sample_project) sample_gitlab (str ''a/script.py'') [233, 10] [] Map.empty = (Inr sha, x1)
     \<and> gitlab_read_script (\<lambda>_ _ _ _. Inr sample_project) sample_gitlab (str ''a/script.py'') x1 = (Inr (Some [233, 10]), x2)"
proof -
  let ?api = "\<lambda>_ _ _ _. Inr sample_project"
  have git: "build_gitlab_client ?api sample_gitlab = Inr (GitlabGitClient ?api sample_gitlab)"
    by (simp add: build_gitlab_client_def sample_gitlab_def str_def)
  have project: "get_project ?api sample_gitlab = Inr sample_project" by (simp add: get_project_def)
  have script: "proper_text [233, 10]" by (simp add: proper_text_def is_surrogate_def)
  have up: "gitlab_up (cf_GITLAB_TIMEOUT_SECONDS sample_gitlab) sample_project (\<lambda>x. x)"
    using sample_project_up by (simp add: sample_gitlab_def)
  obtain r x1 where run: "gitlab_commit_script ?api sample_gitlab (str ''a/script.py'') [233, 10] [] Map.empty = (r, x1)"
    by (rule prod.exhaust)
  then have "g_commit_script (GitlabGitClient ?api sample_gitlab) (str ''a/script.py'') [233, 10] [] Map.empty = (r, x1)"
    by (simp add: GitlabGitClient_def)
  from gitlab_round_trip [OF git project sample_project_serves script this] up run show ?thesis
    by (simp add: GitlabGitClient_def)
qed

end
