(* ===== verification/App.thy ===== *)
theory App
  imports Guard Registry Publishers Config Gitlab
begin

text \<open>
  The application as it is shipped: the dependencies of \<open>src/api/deps.py\<close> that build the clients a
  route receives, the process-wide registry client of \<open>src/bl/cascade_adapters.py\<close>, the health,
  event-stream and submit routes, and the whole user and machine tier over the configured clients
  (\<open>app_serve\<close>). What the repository does not contain (GitLab, the HTTP exchange, the parsers and
  resolvers of validation) is the record \<open>backends\<close>.
\<close>

record 'x backends =
  bk_env :: validation_env
  bk_gitlab :: "'x gitlab_api"
  bk_exchange :: "'x exchange"
  bk_json_depth :: nat

section \<open>Dependencies\<close>

definition gitlab_config_of :: "settings \<Rightarrow> gitlab_config" where
  "gitlab_config_of st =
     \<lparr>cf_AUTH_TYPE = st_AUTH_TYPE st, cf_GITLAB_URL = st_GITLAB_URL st,
      cf_GITLAB_SCRIPTS_TOKEN = st_GITLAB_SCRIPTS_TOKEN st,
      cf_GITLAB_SCRIPTS_PROJECT = st_GITLAB_SCRIPTS_PROJECT st,
      cf_GITLAB_SCRIPTS_BRANCH = st_GITLAB_SCRIPTS_BRANCH st,
      cf_GITLAB_COMMIT_AUTHOR_NAME = st_GITLAB_COMMIT_AUTHOR_NAME st,
      cf_GITLAB_COMMIT_AUTHOR_EMAIL = st_GITLAB_COMMIT_AUTHOR_EMAIL st,
      cf_GITLAB_TIMEOUT_SECONDS = st_GITLAB_TIMEOUT_SECONDS st\<rparr>"

definition get_git_client :: "'x backends \<Rightarrow> settings \<Rightarrow> exn + 'x git_client" where
  "get_git_client bk st = build_gitlab_client (bk_gitlab bk) (gitlab_config_of st)"

definition get_default_capp_client :: "'x capp_client" where
  "get_default_capp_client = UnconfiguredCappClient"

definition get_capp_client :: "'x capp_client" where
  "get_capp_client = get_default_capp_client"

definition get_default_capp_deletion_client :: "'x capp_deletion_client" where
  "get_default_capp_deletion_client = UnconfiguredCappDeletionClient"

definition get_capp_deletion_client :: "'x capp_deletion_client" where
  "get_capp_deletion_client = get_default_capp_deletion_client"

text \<open>The process-wide registry client: built once from the settings; when the constructor refuses
  them it raises and nothing is kept.\<close>

datatype registry_instance = UnconfiguredRegistry | Artifactory artifactory

definition get_default_registry_client ::
  "'x backends \<Rightarrow> settings \<Rightarrow> registry_instance option \<Rightarrow> (exn + registry_instance) \<times> registry_instance option" where
  "get_default_registry_client bk st default_registry =
     (case default_registry of
        Some r \<Rightarrow> (Inr r, default_registry)
      | None \<Rightarrow>
          if st_ARTIFACTORY_URL st = [] then (Inr UnconfiguredRegistry, Some UnconfiguredRegistry)
          else (case new_artifactory (ve_unicode (bk_env bk)) (st_ARTIFACTORY_URL st) (st_ARTIFACTORY_REPOSITORY st)
                       (st_ARTIFACTORY_IMAGE_PREFIX st) (st_ARTIFACTORY_TOKEN st) (st_ARTIFACTORY_USERNAME st)
                       (st_ARTIFACTORY_PASSWORD st) (st_ARTIFACTORY_TIMEOUT_SECONDS st) of
                  Inl e \<Rightarrow> (Inl e, None)
                | Inr r \<Rightarrow> (Inr (Artifactory r), Some (Artifactory r))))"

fun registry_client_of :: "'x backends \<Rightarrow> registry_instance \<Rightarrow> 'x registry_client" where
  "registry_client_of bk UnconfiguredRegistry = UnconfiguredRegistryClient"
| "registry_client_of bk (Artifactory r) = ArtifactoryRegistryClient (bk_json_depth bk) (request_opener None (bk_exchange bk)) r"

definition get_registry_client ::
  "'x backends \<Rightarrow> settings \<Rightarrow> registry_instance option \<Rightarrow> exn + 'x registry_client" where
  "get_registry_client bk st default_registry =
     (case get_default_registry_client bk st default_registry of
        (Inl e, _) \<Rightarrow> Inl e | (Inr r, _) \<Rightarrow> Inr (registry_client_of bk r))"

definition get_cascade_deps ::
  "'x backends \<Rightarrow> settings \<Rightarrow> registry_instance option \<Rightarrow> exn + 'x cascade_deps" where
  "get_cascade_deps bk st default_registry =
     (case get_registry_client bk st default_registry of
        Inl e \<Rightarrow> Inl e
      | Inr registry \<Rightarrow>
          (case get_git_client bk st of
             Inl e \<Rightarrow> Inl e
           | Inr git \<Rightarrow> Inr \<lparr>cd_capp = get_capp_deletion_client, cd_registry = registry, cd_git = git\<rparr>))"

definition publish_config_of :: "settings \<Rightarrow> publish_config" where
  "publish_config_of st =
     \<lparr>pc_redis_url = st_REDIS_URL st, pc_reload_channel = st_AUTOMATION_RELOAD_CHANNEL st,
      pc_events_channel = st_AUTOMATION_EVENTS_CHANNEL st, pc_timeout = st_REDIS_PUBLISH_TIMEOUT_SECONDS st\<rparr>"

section \<open>Health, events, submit\<close>

definition root_route :: "settings \<Rightarrow> response" where
  "root_route st = response_of 200
     (Object [(str ''service'', str ''keep-automation-api''), (str ''version'', st_KEEP_VERSION st)])"

definition healthcheck_route ::
  "(engine_options \<Rightarrow> exn + 'e) \<Rightarrow> ('e, 'x) db_driver \<Rightarrow> settings \<Rightarrow> 'e option \<Rightarrow> 'x \<Rightarrow> response \<times> 'e option \<times> 'x" where
  "healthcheck_route create_engine drv st engine x =
     (case check_database create_engine drv st engine x of
        (Inl e, engine', x') \<Rightarrow>
          (response_of 503 (Object [(str ''status'', str ''unavailable''), (str ''database'', str ''unreachable'')]), engine', x')
      | (Inr _, engine', x') \<Rightarrow>
          (response_of 200 (Object [(str ''status'', str ''ok''), (str ''database'', str ''ok'')]), engine', x'))"

definition livez_route :: response where
  "livez_route = response_of 200 (Object [(str ''status'', str ''ok'')])"

definition events_route :: response where
  "events_route = response_of 200 (EventStream (str '': keep-alive'' @ [10, 10]))"

definition submit_route :: "headers \<Rightarrow> response" where
  "submit_route hs = (let _ = verify_service_token hs in response_of 200 (Object [(str ''status'', str ''ok'')]))"

section \<open>Requests over the shipped dependencies\<close>

text \<open>The place of a client in the service record that the route at hand does not depend on.\<close>

definition unwired_git :: "'x git_client" where
  "unwired_git = \<lparr>g_commit_script = (\<lambda>p s m. raising PyRuntimeError), g_read_script = (\<lambda>p. raising PyRuntimeError),
     g_archive = (\<lambda>i a. raising PyRuntimeError)\<rparr>"

definition unwired_deps :: "'x cascade_deps" where
  "unwired_deps = \<lparr>cd_capp = get_capp_deletion_client, cd_registry = UnconfiguredRegistryClient, cd_git = unwired_git\<rparr>"

definition service_of :: "'x backends \<Rightarrow> settings \<Rightarrow> 'x git_client \<Rightarrow> 'x cascade_deps \<Rightarrow> 'x service" where
  "service_of bk st git deps =
     \<lparr>sv_env = bk_env bk, sv_build_lock_timeout = st_BUILD_LOCK_TIMEOUT_SECONDS st, sv_auth_type = st_AUTH_TYPE st,
      sv_image_repository = st_AUTOMATION_IMAGE_REPOSITORY st, sv_git = git, sv_capp = get_capp_client, sv_deps = deps\<rparr>"

text \<open>The git dependency of the authoring routes; the gate of the lifecycle router, which comes
  before the dependencies of its routes; the cascade dependency of the delete route.\<close>

definition authoring_service :: "'x backends \<Rightarrow> settings \<Rightarrow> exn + 'x service" where
  "authoring_service bk st =
     (case get_git_client bk st of Inl err \<Rightarrow> Inl err | Inr git \<Rightarrow> Inr (service_of bk st git unwired_deps))"

definition lifecycle_gate :: "settings \<Rightarrow> authenticated_entity \<Rightarrow> exn + 'x service \<Rightarrow> exn + 'x service" where
  "lifecycle_gate st e deps =
     (case require_lifecycle_auth (st_AUTH_TYPE st) e of Inl err \<Rightarrow> Inl err | Inr _ \<Rightarrow> deps)"

definition delete_service :: "'x backends \<Rightarrow> settings \<Rightarrow> registry_instance option \<Rightarrow> exn + 'x service" where
  "delete_service bk st rg =
     (case get_cascade_deps bk st rg of Inl err \<Rightarrow> Inl err | Inr deps \<Rightarrow> Inr (service_of bk st unwired_git deps))"

lemmas dependency_defs [simp] = authoring_service_def lifecycle_gate_def delete_service_def

text \<open>What the framework resolves before it calls a route of the mounted routers.\<close>

fun resolve :: "'x backends \<Rightarrow> settings \<Rightarrow> registry_instance option \<Rightarrow> request \<Rightarrow> exn + 'x service" where
  "resolve bk st rg (ReqList e ns ms bs) = Inr (service_of bk st unwired_git unwired_deps)"
| "resolve bk st rg (ReqCreate e data fresh) = authoring_service bk st"
| "resolve bk st rg (ReqGet e i) = authoring_service bk st"
| "resolve bk st rg (ReqUpdate e i data) = authoring_service bk st"
| "resolve bk st rg (ReqEnable e i) = lifecycle_gate st e (Inr (service_of bk st unwired_git unwired_deps))"
| "resolve bk st rg (ReqDisable e i) = lifecycle_gate st e (Inr (service_of bk st unwired_git unwired_deps))"
| "resolve bk st rg (ReqDelete e i) = lifecycle_gate st e (delete_service bk st rg)"
| "resolve bk st rg (ReqWebhook i sha status img v) = Inr (service_of bk st unwired_git unwired_deps)"

definition app_serve :: "'x backends \<Rightarrow> settings \<Rightarrow> registry_instance option \<Rightarrow> request \<Rightarrow> ('x, response) io" where
  "app_serve bk st rg req =
     handled (io_bind (io_lift (resolve bk st rg req)) (\<lambda>s. route s req))"

lemma app_serve_cases:
  "app_serve bk st rg req w =
     (case resolve bk st rg req of
        Inl e \<Rightarrow> (Inr (error_response e), w)
      | Inr s \<Rightarrow> serve s req w)"
  by (simp add: app_serve_def serve_def handled_def io_catch_def io_bind_def io_lift_def io_return_def split: sum.splits)

text \<open>The kept registry client is the one the settings give, so keeping it changes nothing.\<close>

lemma registry_client_kept:
  assumes "get_default_registry_client bk st None = (r, kept)"
  shows "get_default_registry_client bk st kept = (r, kept)"
  using assms by (auto simp: get_default_registry_client_def split: if_splits sum.splits)

end
