(* ===== verification/App_Correct.thy ===== *)
theory App_Correct
  imports App Service
begin

text \<open>
  The application over its shipped dependencies, and the shape of its answers. \<open>yields\<close> is a
  logic for what a computation can return; with it every success answer is shown to be of the
  type, and about the automation, that the request asked for.
\<close>

section \<open>What a computation returns\<close>

definition yields :: "('x, 'a) io \<Rightarrow> ('a \<Rightarrow> bool) \<Rightarrow> bool" where
  "yields m Q \<longleftrightarrow> (\<forall>w a w'. m w = (Inr a, w') \<longrightarrow> Q a)"

lemma yieldsD: "yields m Q \<Longrightarrow> m w = (Inr a, w') \<Longrightarrow> Q a"
  by (auto simp: yields_def)

lemma yields_any: "yields m (\<lambda>_. True)"
  by (simp add: yields_def)

lemma yields_return: "Q a \<Longrightarrow> yields (io_return a) Q"
  by (simp add: yields_def io_return_def)

lemma yields_raise: "yields (io_raise e) Q"
  by (simp add: yields_def io_raise_def)

lemma yields_bind:
  assumes "yields m Q" and "\<And>a. Q a \<Longrightarrow> yields (k a) Q'"
  shows "yields (io_bind m k) Q'"
  using assms by (fastforce simp: yields_def elim!: io_bind_InrE)

lemma yields_then: "(\<And>a. yields (k a) Q) \<Longrightarrow> yields (io_bind m k) Q"
  by (rule yields_bind [OF yields_any])

lemma yields_session: "(\<And>now d a d'. t now d = Inr (a, d') \<Longrightarrow> Q a) \<Longrightarrow> yields (get_session lock t) Q"
  by (auto simp: yields_def get_session_def split: prod.splits session_outcome.splits sum.splits)

lemma yields_session_opt: "(\<And>now d a d'. t now d = Inr (a, d') \<Longrightarrow> Q a) \<Longrightarrow> yields (get_session_opt lock t) Q"
  by (auto simp: yields_def get_session_opt_def split: prod.splits session_outcome.splits sum.splits option.splits if_splits)

lemma yields_read: "(\<And>d a. q d = Inr a \<Longrightarrow> Q a) \<Longrightarrow> yields (read_session lock q) Q"
  by (auto simp: yields_def read_session_def split: prod.splits session_outcome.splits)

lemma yields_create: "yields (create_automation env ts git i t data actor) (\<lambda>a. a_id a = i)"
  unfolding create_automation_def
  by (intro yields_then yields_session)
    (auto simp: create_tx_def new_automation_def Let_def split: sum.splits)

lemma yields_update: "yields (update_automation env ts git t i data actor) (\<lambda>a. a_id a = i)"
  unfolding update_automation_def
  by (intro yields_then yields_session)
    (auto simp: finish_edit_tx_def Let_def split: sum.splits if_splits dest: scoped_get_InrD)

lemma yields_get: "yields (get_automation git t i) (\<lambda>(a, script). a_id a = i)"
  unfolding get_automation_def
  by (rule yields_bind [OF yields_read [where Q = "\<lambda>a. a_id a = i"]])
    (auto intro!: yields_then yields_return dest: scoped_get_InrD)

lemma yields_toggle: "yields (toggle t i actor target action) (\<lambda>a. a_id a = i)"
  unfolding toggle_def
  by (rule yields_bind [OF yields_session [where Q = "\<lambda>a. a_id a = i"]])
    (auto intro!: yields_then yields_return elim!: toggle_tx_InrD dest: scoped_get_InrD)

definition admission_ok :: "uuid \<Rightarrow> delete_admission \<Rightarrow> bool" where
  "admission_ok i adm \<longleftrightarrow> a_id (da_automation adm) = i
     \<and> a_matching_state (da_automation adm) \<in> set DELETION_STATES
     \<and> (da_started adm \<longrightarrow> a_matching_state (da_automation adm) = DELETING)"

lemma yields_begin_delete: "yields (begin_delete t i actor) (admission_ok i)"
  unfolding begin_delete_def
  by (rule yields_bind [OF yields_session_opt [where Q = "admission_ok i"]])
    (auto simp: begin_delete_tx_def admission_ok_def Let_def intro!: yields_then yields_return
      split: sum.splits if_splits dest: scoped_get_InrD)

definition webhook_out_ok :: "ci_webhook_out \<Rightarrow> bool" where
  "webhook_out_ok out \<longleftrightarrow> (o_status out = IGNORED) = (o_reason out \<noteq> None)"

lemma webhook_out_simps [simp]: "webhook_out_ok (ignored r)" "webhook_out_ok applied"
  by (simp_all add: webhook_out_ok_def ignored_def applied_def)

lemma yields_record_failure: "yields (record_failure event) webhook_out_ok"
  unfolding record_failure_def
  by (rule yields_then) (auto split: sum.split intro!: yields_then yields_return)

lemma yields_apply: "yields (apply_build_result repo capp del event) webhook_out_ok"
  unfolding apply_build_result_def Let_def
  by (rule yields_then)
    (auto split: option.split sum.split intro!: yields_then yields_return yields_record_failure)

section \<open>The shape of an answer\<close>

definition is_matching_state :: "pystr \<Rightarrow> bool" where
  "is_matching_state s \<longleftrightarrow> s \<in> {str ''inactive'', str ''active'', str ''deleting'', str ''deleted''}"

definition is_build_state :: "pystr \<Rightarrow> bool" where
  "is_build_state s \<longleftrightarrow> s \<in> {str ''idle'', str ''building'', str ''build_failed''}"

lemma state_values [simp]: "is_matching_state (matching_state_value m)" "is_build_state (build_state_value b)"
  by (cases m; simp add: is_matching_state_def) (cases b; simp add: is_build_state_def)

definition detail_ok :: "uuid \<Rightarrow> automation_out \<Rightarrow> bool" where
  "detail_ok i out \<longleftrightarrow> li_id out = i \<and> is_matching_state (li_matching_state out) \<and> is_build_state (li_build_state out)"

definition status_ok :: "uuid \<Rightarrow> lifecycle_status_out \<Rightarrow> bool" where
  "status_ok i out \<longleftrightarrow> ls_id out = i \<and> is_matching_state (ls_matching_state out) \<and> is_build_state (ls_build_state out)"

lemma detail_okI: "a_id a = i \<Longrightarrow> detail_ok i (detail a script)"
  by (simp add: detail_ok_def detail_def)

lemma status_okI: "a_id a = i \<Longrightarrow> status_ok i (lifecycle_status_of a)"
  by (simp add: status_ok_def lifecycle_status_of_def)

text \<open>The success answers of each request.\<close>

fun success_of :: "request \<Rightarrow> nat \<Rightarrow> body \<Rightarrow> bool" where
  "success_of (ReqList e ns ms bs) code b \<longleftrightarrow> code = 200 \<and> (\<exists>items. b = ListBody items
     \<and> (\<forall>it \<in> set items. is_matching_state (li_matching_state it) \<and> is_build_state (li_build_state it)))"
| "success_of (ReqCreate e data fresh) code b \<longleftrightarrow> code = 201
     \<and> (\<exists>out. b = DetailBody out \<and> detail_ok fresh out \<and> ao_script out = Some (in_script data))"
| "success_of (ReqGet e i) code b \<longleftrightarrow> code = 200 \<and> (\<exists>out. b = DetailBody out \<and> detail_ok i out)"
| "success_of (ReqUpdate e i data) code b \<longleftrightarrow> code = 200
     \<and> (\<exists>out. b = DetailBody out \<and> detail_ok i out \<and> ao_script out = Some (in_script data))"
| "success_of (ReqEnable e i) code b \<longleftrightarrow> code = 200 \<and> (\<exists>out. b = StatusBody out \<and> status_ok i out)"
| "success_of (ReqDisable e i) code b \<longleftrightarrow> code = 200 \<and> (\<exists>out. b = StatusBody out \<and> status_ok i out)"
| "success_of (ReqDelete e i) code b \<longleftrightarrow> (\<exists>out. b = StatusBody out \<and> status_ok i out
     \<and> code = (if ls_matching_state out = str ''deleted'' then 200 else 202)
     \<and> ls_matching_state out \<in> {str ''deleting'', str ''deleted''})"
| "success_of (ReqWebhook i sha st img v) code b \<longleftrightarrow> code = 200 \<and> (\<exists>out. b = WebhookBody out \<and> webhook_out_ok out)"

text \<open>The error answers: the body is of the kind its status announces, and only a 503 asks for a
  retry after a delay.\<close>

definition error_shape :: "response \<Rightarrow> bool" where
  "error_shape resp \<longleftrightarrow>
     (case rs_body resp of
        Errors errs \<Rightarrow> rs_status resp = 400
      | Detail s \<Rightarrow> rs_status resp \<in> {404, 409, 503}
      | DetailWithState s m \<Rightarrow> rs_status resp = 409 \<and> is_matching_state m
      | InternalServerError \<Rightarrow> rs_status resp = 500
      | _ \<Rightarrow> False)
   \<and> (if rs_status resp = 503 then rs_retry_after resp \<in> {None, Some (str ''1'')} else rs_retry_after resp = None)"

definition well_typed :: "request \<Rightarrow> response \<Rightarrow> bool" where
  "well_typed req resp \<longleftrightarrow>
     (if rs_status resp < 300 then success_of req (rs_status resp) (rs_body resp) \<and> rs_retry_after resp = None
      else error_shape resp)"

lemma error_response_shape: "300 \<le> rs_status (error_response e) \<and> error_shape (error_response e)"
  by (cases e) (simp_all add: error_shape_def)

lemma well_typed_error: "well_typed req (error_response e)"
  using error_response_shape [of e] by (simp add: well_typed_def)

lemma success_well_typed: "code < 300 \<Longrightarrow> success_of req code b \<Longrightarrow> well_typed req (response_of code b)"
  by (simp add: well_typed_def)

lemma yields_delete_route: "yields (delete_automation_route auth deps e i) (well_typed (ReqDelete e i))"
proof -
  have "well_typed (ReqDelete e i) (response_of
      (if \<not> da_started adm \<and> a_matching_state (da_automation adm) = DELETED then 200 else 202)
      (StatusBody (lifecycle_status_of (da_automation adm))))"
    if "admission_ok i adm" for adm
    using that by (auto simp: admission_ok_def lifecycle_status_of_def status_ok_def is_matching_state_def
        intro!: success_well_typed)
  then show ?thesis
    unfolding delete_automation_route_def Let_def
    by (intro yields_then yields_bind [OF yields_begin_delete] yields_return)
qed

lemma yields_route: "yields (route s req) (well_typed req)"
proof (cases req)
  case (ReqList e ns ms bs)
  then show ?thesis
    by (auto simp: list_automations_route_def list_item_of_def intro!: yields_then yields_return success_well_typed)
next
  case (ReqCreate e data fresh)
  then show ?thesis
    by (auto simp: create_automation_route_def intro!: yields_bind [OF yields_create] yields_return
        success_well_typed detail_okI) (simp add: detail_def)
next
  case (ReqGet e i)
  then show ?thesis
    by (auto simp: get_automation_route_def intro!: yields_bind [OF yields_get] yields_return
        success_well_typed detail_okI)
next
  case (ReqUpdate e i data)
  then show ?thesis
    by (auto simp: update_automation_route_def intro!: yields_bind [OF yields_update] yields_return
        success_well_typed detail_okI) (simp add: detail_def)
next
  case (ReqEnable e i)
  then show ?thesis
    by (auto simp: enable_automation_route_def enable_automation_def intro!: yields_then
        yields_bind [OF yields_toggle] yields_return success_well_typed status_okI)
next
  case (ReqDisable e i)
  then show ?thesis
    by (auto simp: disable_automation_route_def disable_automation_def intro!: yields_then
        yields_bind [OF yields_toggle] yields_return success_well_typed status_okI)
next
  case (ReqDelete e i)
  then show ?thesis by (simp add: yields_delete_route)
next
  case (ReqWebhook i sha st img v)
  show ?thesis
  proof (cases "parse_ci_webhook i sha st img v")
    case (Inl errs)
    with ReqWebhook show ?thesis
      by (auto simp: ci_webhook_route_def well_typed_def error_shape_def intro!: yields_return)
  next
    case (Inr event)
    with ReqWebhook show ?thesis
      by (auto simp: ci_webhook_route_def intro!: yields_bind [OF yields_apply] yields_return success_well_typed)
  qed
qed

lemma serve_well_typed:
  assumes "serve s req w = (r, w')"
  shows "\<exists>resp. r = Inr resp \<and> well_typed req resp"
proof (cases "route s req w")
  case (Pair r1 w1)
  show ?thesis
  proof (cases r1)
    case (Inl e)
    with Pair assms show ?thesis by (auto simp: serve_def handled_def io_simps io_catch_Inl well_typed_error)
  next
    case (Inr resp)
    with Pair assms yieldsD [OF yields_route, of s req w] show ?thesis
      by (auto simp: serve_def handled_def io_catch_Inr)
  qed
qed

section \<open>Fail closed\<close>

text \<open>The requests the shipped dependencies never let through to a write: the user tier without an
  identity provider, and the success of a build while no CAPP client is wired.\<close>

definition closed_request :: "settings \<Rightarrow> request \<Rightarrow> bool" where
  "closed_request st req \<longleftrightarrow>
     (case req of ReqWebhook i sha status img v \<Rightarrow> status = SUCCESS | _ \<Rightarrow> st_AUTH_TYPE st = str ''noauth'')"

definition closed_statuses :: "request \<Rightarrow> nat set" where
  "closed_statuses req =
     (case req of
        ReqList e ns ms bs \<Rightarrow> {200, 500}
      | ReqEnable e i \<Rightarrow> {503} | ReqDisable e i \<Rightarrow> {503} | ReqDelete e i \<Rightarrow> {503}
      | ReqWebhook i sha status img v \<Rightarrow> {200, 400, 404, 409, 500, 503}
      | _ \<Rightarrow> {500})"

text \<open>The call the webhook makes before the unwired client refuses it.\<close>

definition capp_attempts :: "effect set" where
  "capp_attempts = {Called (CappCreate i w img refs) | i w img refs. True}
     \<union> {Called (CappRollout d img refs) | d img refs. True}"

lemma noauth_git: "st_AUTH_TYPE st = str ''noauth'' \<Longrightarrow> get_git_client bk st = Inl PyRuntimeError"
  by (simp add: get_git_client_def build_gitlab_client_def gitlab_config_of_def)

lemma list_route_quiet:
  "list_automations_route e ns ms bs w = (r, w') \<Longrightarrow> w_trace w' = w_trace w \<and> w_ext w' = w_ext w
     \<and> (\<forall>err. r = Inl err \<longrightarrow> err = SQLAlchemyError)"
  by (auto simp: list_automations_route_def list_automations_def io_bind_def io_return_def read_session_def
      begin_session_def session_error_def split: prod.splits sum.splits session_outcome.splits list.splits)

lemma noauth_list:
  assumes "serve s (ReqList e ns ms bs) w = (Inr resp, w')"
  shows "w_trace w' = w_trace w \<and> w_ext w' = w_ext w \<and> rs_status resp \<in> {200, 500}"
proof -
  obtain r w1 where r: "list_automations_route e ns ms bs w = (r, w1)" by (rule prod.exhaust)
  note quiet = list_route_quiet [OF r]
  show ?thesis
  proof (cases r)
    case (Inl err)
    with quiet r assms show ?thesis by (auto simp: serve_def handled_def io_catch_def io_return_def)
  next
    case (Inr v)
    with r have "rs_status v = 200"
      by (auto simp: list_automations_route_def io_bind_def io_return_def split: prod.splits sum.splits)
    with Inr quiet r assms show ?thesis by (auto simp: serve_def handled_def io_catch_def)
  qed
qed

lemma unwired_deploy: "\<exists>c \<in> capp_attempts. deploy get_capp_client event target w
    = (Inl CappUnavailableError, w\<lparr>w_trace := w_trace w @ [c]\<rparr>)"
  by (auto simp: deploy_def get_capp_client_def get_default_capp_client_def UnconfiguredCappClient_def raising_def io_bind_def io_call_def
      capp_attempts_def Let_def split: option.splits)

lemma unwired_success:
  assumes "e_status event = SUCCESS" and "apply_build_result repo get_capp_client del event w = (r, w')"
  shows "(\<exists>tr. w_trace w' = w_trace w @ tr \<and> set tr \<subseteq> capp_attempts) \<and> w_ext w' = w_ext w"
proof -
  obtain oc w1 where b: "begin_session w = (oc, w1)" by (rule prod.exhaust)
  have w1: "w_trace w1 = w_trace w" "w_ext w1 = w_ext w"
    using b by (auto simp: begin_session_def split: list.splits)
  have deploy: "(\<exists>tr. w_trace w2 = w_trace w1 @ tr \<and> set tr \<subseteq> capp_attempts) \<and> w_ext w2 = w_ext w1"
    if "io_bind (io_lift x) (\<lambda>_. io_bind (deploy get_capp_client event target) k) w1 = (r2, w2)" for x target k r2 w2
    using that unwired_deploy [of event target w1]
    by (cases x) (auto simp: io_bind_def io_lift_def)
  from assms b w1 show ?thesis
    by (auto simp: apply_build_result_def Let_def io_bind_def [of "read_session _ _"] read_session_def io_return_def
        split: session_outcome.splits sum.splits option.splits dest!: deploy)
qed

lemma unwired_webhook:
  assumes "serve (service_of bk st git deps) (ReqWebhook i sha SUCCESS img v) w = (r, w')"
  shows "(\<exists>tr. w_trace w' = w_trace w @ tr \<and> set tr \<subseteq> capp_attempts) \<and> w_ext w' = w_ext w"
proof (cases "parse_ci_webhook i sha SUCCESS img v")
  case (Inl errs)
  with assms show ?thesis
    by (auto simp: serve_def handled_def ci_webhook_route_def io_catch_def io_return_def)
next
  case (Inr event)
  then have status: "e_status event = SUCCESS" by (simp add: parse_ci_webhook_ok)
  obtain a w1 where a: "apply_build_result (st_AUTOMATION_IMAGE_REPOSITORY st) get_capp_client (Some (cd_capp deps)) event w
      = (a, w1)" by (rule prod.exhaust)
  with Inr assms have "w' = w1"
    by (cases a) (auto simp: serve_def handled_def service_of_def ci_webhook_route_def io_catch_def io_bind_def io_return_def)
  with unwired_success [OF status a] show ?thesis by simp
qed

lemma typed_webhook_status:
  "well_typed (ReqWebhook i sha status img v) resp \<Longrightarrow> rs_status resp \<in> {200, 400, 404, 409, 500, 503}"
  by (auto simp: well_typed_def error_shape_def split: if_splits body.splits)

section \<open>Properties\<close>

text \<open>C22. Every answer is well typed: whatever the database, the external systems and the
  concurrent requests do, a request gets one answer; a success answer has the status and the
  body type of its route, is about the automation the request names, and carries only pinned
  state values; an error answer has the body its status announces (field errors for 400, a
  detail for 404, 409 and 503, nothing but the status for 500), and only a 503 asks to retry.\<close>

theorem responses_are_well_typed:
  "case app_serve bk st rg req w of (r, w') \<Rightarrow> \<exists>resp. r = Inr resp \<and> well_typed req resp"
proof (cases "resolve bk st rg req")
  case (Inl e)
  then show ?thesis by (simp add: app_serve_cases well_typed_error)
next
  case (Inr s)
  then show ?thesis using serve_well_typed [of s req w] by (auto simp: app_serve_cases split: prod.split)
qed

text \<open>C18. The shipped wiring fails closed: while the authentication type is \<open>noauth\<close>, no user-tier
  request commits anything, calls an external system or sends a signal, and every one of them but
  the listing is refused (500 for authoring, 503 for lifecycle); and while no CAPP client is
  wired, no success webhook writes or signals anything: the most it does is the call that the
  unconfigured client refuses.\<close>

theorem shipped_app_fails_closed:
  assumes "closed_request st req" and "app_serve bk st rg req w = (r, w')"
  shows "\<exists>resp tr. r = Inr resp \<and> rs_status resp \<in> closed_statuses req \<and> w_ext w' = w_ext w
    \<and> w_trace w' = w_trace w @ tr
    \<and> set tr \<subseteq> (case req of ReqWebhook i sha status img v \<Rightarrow> capp_attempts | _ \<Rightarrow> {})"
proof -
  have auth: "require_lifecycle_auth (st_AUTH_TYPE st) e = Inl LifecycleAuthenticationNotConfiguredError"
    if "st_AUTH_TYPE st = str ''noauth''" for e using that by (simp add: require_lifecycle_auth_def)
  show ?thesis
  proof (cases req)
    case (ReqList e ns ms bs)
    let ?s = "service_of bk st unwired_git unwired_deps"
    from ReqList assms(2) have run: "serve ?s req w = (r, w')" by (simp add: app_serve_cases)
    then obtain resp where "r = Inr resp" using serve_answers [of ?s req w] by auto
    with noauth_list [of ?s e ns ms bs w resp w'] run ReqList show ?thesis
      by (simp add: closed_statuses_def)
  next
    case (ReqWebhook i sha status img v)
    with assms(1) have status: "status = SUCCESS" by (simp add: closed_request_def)
    let ?s = "service_of bk st unwired_git unwired_deps"
    from ReqWebhook assms(2) have run: "serve ?s req w = (r, w')" by (simp add: app_serve_cases)
    obtain resp where resp: "r = Inr resp" and typed: "well_typed req resp"
      using serve_well_typed [OF run] by blast
    have "rs_status resp \<in> closed_statuses req"
      using typed_webhook_status [OF typed [unfolded ReqWebhook]] by (simp add: ReqWebhook closed_statuses_def)
    with unwired_webhook [OF run [unfolded ReqWebhook status]] show ?thesis using resp ReqWebhook by auto
  qed (use assms auth in \<open>auto simp: app_serve_cases closed_request_def closed_statuses_def noauth_git\<close>)
qed

text \<open>The settings of an empty environment.\<close>

definition sample_text_tables :: text_tables where
  "sample_text_tables = \<lparr>u_nfkc = (\<lambda>s. s), u_lower = ascii_lower, u_upper = (\<lambda>s. s), u_decimal = (\<lambda>_. None)\<rparr>"

definition default_settings :: settings where
  "default_settings = the (load_settings sample_text_tables (\<lambda>_. None))"

lemma load_settings_auth:
  "load_settings u environ = Some st \<Longrightarrow> st_AUTH_TYPE st = u_lower u (env_str environ ''AUTH_TYPE'' ''noauth'')"
  by (auto simp: load_settings_def bind_eq_Some_conv)

lemma default_auth: "st_AUTH_TYPE default_settings = str ''noauth''"
proof -
  obtain st where st: "load_settings sample_text_tables (\<lambda>_. None) = Some st"
    using load_settings_total [of "\<lambda>_. None" sample_text_tables] by auto
  from load_settings_auth [OF st] have "st_AUTH_TYPE st = str ''noauth''"
    by (simp add: sample_text_tables_def env_str_def ascii_lower_def is_ascii_upper_def str_def)
  then show ?thesis by (simp add: default_settings_def st)
qed

definition sample_backends :: "nat backends" where
  "sample_backends = \<lparr>bk_env = sample_env, 
     bk_gitlab = (\<lambda>_ _ _ _. Inl PyValueError),
     bk_exchange = (\<lambda>q x. (Inl TransportError, x)), bk_json_depth = 1000\<rparr>"

theorem shipped_app_fails_closed_witness:
  "\<exists>resp. app_serve sample_backends default_settings None (ReqDelete get_authenticated_entity sample_id)
      (sample_world [] 0 (sample_row ACTIVE IDLE None None None))
    = (Inr resp, sample_world [] 0 (sample_row ACTIVE IDLE None None None)) \<and> rs_status resp = 503"
proof -
  let ?req = "ReqDelete get_authenticated_entity sample_id" and ?w = "sample_world [] 0 (sample_row ACTIVE IDLE None None None) :: nat world"
  have "closed_request default_settings ?req" by (simp add: closed_request_def default_auth)
  moreover obtain r w' where run: "app_serve sample_backends default_settings None ?req ?w = (r, w')"
    by (rule prod.exhaust)
  ultimately obtain resp where "r = Inr resp" "rs_status resp \<in> closed_statuses ?req"
    using shipped_app_fails_closed by blast
  moreover have "w' = ?w"
    using run by (simp add: app_serve_cases require_lifecycle_auth_def default_auth)
  ultimately show ?thesis using run by (simp add: closed_statuses_def)
qed

text \<open>Authoring is guarded by the setting alone: with any other authentication type and GitLab
  configured, a create is served for every identity, the placeholder's included.\<close>

lemma authoring_guard_ignores_identity:
  assumes "st_AUTH_TYPE st \<noteq> str ''noauth''" and "st_GITLAB_URL st \<noteq> []"
    and "st_GITLAB_SCRIPTS_TOKEN st \<noteq> []" and "st_GITLAB_SCRIPTS_PROJECT st \<noteq> []"
  shows "app_serve bk st rg (ReqCreate get_authenticated_entity data fresh)
    = serve (service_of bk st (GitlabGitClient (bk_gitlab bk) (gitlab_config_of st)) unwired_deps)
        (ReqCreate get_authenticated_entity data fresh)"
  using assms by (simp add: fun_eq_iff app_serve_cases get_git_client_def build_gitlab_client_def gitlab_config_of_def)

end
