(* ===== verification/Spec2Isabelle.thy ===== *)
theory Spec2Isabelle
  imports Authoring_Correct Lifecycle_Correct Builds_Correct Cascade_Correct Deboard Runs_Correct Lifetime
    Provenance Accounting
    Validation History Isolation Registry_Correct Guard_Correct Publishers App_Correct
begin

text \<open>
  A verification of the Keep Automation API, the control plane that authors, builds, enables and
  deletes automations. All file names are relative to the repository's \<open>src/\<close> directory.

  \<^bold>\<open>The program.\<close> Users create and edit automations through HTTP routes (\<open>src/api/routes/\<close>).
  A create or an edit validates the payload (\<open>src/bl/validation.py\<close> and its helpers), commits the
  script to git, and leaves the row \<open>building\<close> (\<open>src/bl/automations_bl.py\<close>). CI builds an image
  and reports through a webhook, which deploys it and cuts the row over (\<open>src/bl/builds.py\<close>).
  Users enable and disable matching (\<open>src/bl/lifecycle.py\<close>) and delete (\<open>src/bl/cascade.py\<close>): a
  delete marks the row and starts a checkpointed cascade through CAPP, the image registry and
  git, which other runners can resume. Runs killed by a deletion are attributed by
  \<open>src/bl/run_finalization.py\<close>. All state is in three tables; requests run concurrently, hold a
  row lock only inside one short transaction, and never hold a session across an external call.
  The webhook is guarded before its body is read (\<open>src/api/ci_webhook_guard.py\<close>), images are
  deleted through Artifactory (\<open>src/bl/registry_client.py\<close>), and committed changes are announced
  over Redis (\<open>src/core/reload.py\<close>, \<open>src/core/automation_events.py\<close>).

  \<^bold>\<open>Layers.\<close>
  \<^item> \<open>Prelude\<close>, \<open>Pylib\<close>: Python strings as lists of code points, UTF-8, UUID rendering, and the
    parts of \<open>urllib.parse\<close> and \<open>ipaddress\<close> the code uses.
  \<^item> \<open>Pytext\<close>, \<open>Json\<close>, \<open>Sha256\<close>: more of the standard library, executable: \<open>int\<close> and \<open>float\<close> of a
    string, percent and base64 encoding, \<open>json.loads\<close> and \<open>json.dumps\<close>, SHA-256.
  \<^item> \<open>Schema\<close>, \<open>Store\<close>: the enums, rows, limits, error codes and exceptions
    (\<open>src/models/db/\<close>, \<open>src/contracts/\<close>, \<open>src/exceptions.py\<close>); the tables, with the locale
    \<open>row_store\<close> for what a keyed table promises.
  \<^item> \<open>Runtime\<close>: computations over a world of database, clock, external systems and emitted
    effects. A session of \<open>src/core/db.py\<close> is one transaction; before it the other requests may
    have committed anything, and it may land, fail, or commit without the caller learning it.
    The theory has a trace logic (\<open>emits\<close>) and a rely-guarantee logic (\<open>io_spec\<close>, locale
    \<open>db_rely\<close>) for such computations.
  \<^item> \<open>Clients\<close>, \<open>Git_Client\<close>, \<open>Gitlab\<close>: the protocols of the external systems as records of
    functions, the clients the repository ships, and the locales \<open>capp_service\<close>, \<open>script_store\<close> and
    \<open>git_repo\<close> with what the contracts promise, interpreted on the in-memory clients; over a
    server that keeps files, the GitLab client is a \<open>script_store\<close> too.
  \<^item> \<open>Validation\<close>, \<open>Authoring\<close>, \<open>Lifecycle\<close>, \<open>Ci_Webhook\<close>, \<open>Builds\<close>, \<open>Cascade\<close>, \<open>Runs\<close>, \<open>Api\<close>:
    one theory per module, each operation composed as the code composes it. A definition that
    ends in \<open>_tx\<close> is the body of one \<open>with get_session()\<close> block.
  \<^item> \<open>Registry\<close>: the Artifactory client and its opener over single HTTP exchanges. \<open>Guard\<close>: the webhook's token
    check, log throttles and middleware. \<open>Publishers\<close>: the two Redis publishers, with the locale
    \<open>redis_channel\<close> for what both promise. \<open>Config\<close>: the settings (\<open>src/config.py\<close>), the engine and
    the startup of \<open>src/main.py\<close>. \<open>App\<close>: the dependencies of \<open>src/api/deps.py\<close> that build the
    clients from the settings, and the application over them (\<open>app_serve\<close>).

  \<^bold>\<open>Specifications and proofs.\<close>
  \<^item> \<open>Protocol\<close>: the service as a state machine over its database, one rule per transaction
    (\<open>service_step\<close>); the invariant \<open>db_ok\<close> and the order \<open>db_progress\<close>, proved for each rule.
  \<^item> \<open>Refinement\<close>, \<open>Service\<close>: the locales \<open>serving\<close>, \<open>cascade_rely\<close>, \<open>service_rely\<close> and
    \<open>edit_rely\<close> carry a contract of the transactions to every operation and to every request;
    interpreted for the state machine, they say that each request implements it.
  \<^item> \<open>Claims\<close>: edits as multi-transaction operations, their claims as ghost state, interleaved
    with each other, with every other transaction, with the clock and with a reconciler that
    releases expired build locks; mutual exclusion, the fencing of an edit that lost its claim,
    and the wallet of a deployed automation.
  \<^item> \<open>Provenance\<close>: every image in the tables belongs to its automation, by a second interpretation
    of \<open>edit_rely\<close>.
  \<^item> \<open>Accounting\<close>: how often a requested build takes effect, on the same machine: one account per
    automation and commit, kept by every step; only an edit whose expired claim the reconciler fails
    can let a commit be cut over once more than it was requested.
  \<^item> \<open>History\<close>: the audit trail against the rows. \<open>Isolation\<close>: tenants, for writes by an instance
    of \<open>serving\<close> and \<open>cascade_rely\<close>, for answers by a relational logic (\<open>blind\<close>).
  \<^item> \<open>Authoring_Correct\<close>, \<open>Lifecycle_Correct\<close>, \<open>Builds_Correct\<close>, \<open>Cascade_Correct\<close>,
    \<open>Runs_Correct\<close>: the behaviour of each operation on every branch and the races its comments
    describe. \<open>Deboard\<close>: a deboard pass, in every environment and with the external systems up.
    \<open>Validation\<close> holds the properties of the validators.
  \<^item> \<open>Lifetime\<close>: the components composed: one automation followed through the routes from its
    creation to its deletion, request by request.
  \<^item> \<open>Registry_Correct\<close>: what the Artifactory client asks and returns, the locale \<open>image_registry\<close>,
    and the cascade run over it. \<open>Guard_Correct\<close>: who passes the webhook's gate, and the bound on
    its log. \<open>App_Correct\<close>: the type of every response, and the shipped application failing closed.
  \<^item> \<open>Samples\<close>: concrete inputs on which the properties with hypotheses are applied.

  \<^bold>\<open>Bounds.\<close> The cascade runner's loop has the code's own bound of 20 iterations
  (\<open>MAX_ITERATIONS\<close>); \<open>cascade_stops_safely\<close> shows that a runner alone on its row never reaches
  it. The finalizer's loop has the code's two attempts. The JSON parser has fuel of twice the
  text's length plus one, and \<open>parse_fuel_enough\<close> shows that it never runs out; its other argument
  is the nesting the interpreter's stack allows, beyond which it raises.

  \<^bold>\<open>Parameters.\<close> \<open>ast.parse\<close>, \<open>getaddrinfo\<close>, the Unicode tables, the hash of the in-memory git
  client, python-gitlab, CAPP, the HTTP exchange, Redis, the database driver, the clocks, the
  environment, the supported nesting of JSON, the random UUID of a create and what pydantic makes
  of a request body are arguments of the definitions that use them.

  \<^bold>\<open>Simplifications.\<close> Most log lines and human-readable error messages are left out. A row returned
  after \<open>session.refresh\<close> is the row as committed; a failing refresh is a commit whose answer is
  lost. One clock serves the process and the database. Rows that tie in a sort keep the table's
  order. \<open>Accounting\<close> assumes that the requests of one automation are stamped in order
  (\<open>requests_in_order\<close>). The stuck-build reconciler and the submit worker mentioned in comments are not in the
  repository; where the code relies on them, what is assumed of them is stated (\<open>reconcile_step\<close> of
  \<open>Claims\<close>: it releases only builds whose deadline has passed; \<open>Runs_Correct\<close>: workers respect the
  order of run states).

  \<^bold>\<open>Not modelled.\<close> The framework around the routes (URL routing, body parsing, the CORS headers),
  reading a \<open>.env\<close> file and starting the server. The submit route and the event stream are stubs in the
  repository and are modelled as such.
\<close>

section \<open>The service as a whole\<close>

text \<open>C2. The tables are well formed in every reachable state: whatever transactions of whatever
  requests run, in whatever order, starting from a database without automations, automations
  and runs keep distinct keys, every row passed validation and names an existing tenant, an
  active automation has a digest-pinned image, a build in progress has a deadline, is not being
  deleted and was requested by an audited create or edit, no other row carries a commit or a
  deadline, and the cascade checkpoint agrees with the matching state.\<close>

theorem reachable_databases_are_well_formed:
  assumes "automations d = []" and "distinct (map r_run_id (runs d))" and "service_step\<^sup>*\<^sup>* d d'"
  shows "db_ok d'"
  using service_steps_ok [OF assms(3)] assms(1,2) by (simp add: db_ok_def)

lemma created_db_step: "service_step empty_db created_db"
  using sample_authoring_ok created_db_tx by (rule step_create)

theorem reachable_databases_are_well_formed_witness: "db_ok created_db"
proof (rule reachable_databases_are_well_formed)
  show "service_step\<^sup>*\<^sup>* empty_db created_db" using created_db_step by (rule r_into_rtranclp)
qed (simp_all add: empty_db_def)

text \<open>C3. What is never undone: along any sequence of transactions a row keeps its identity, its
  tenant, its script path and its creation, its generation and its cascade checkpoint never fall,
  a row whose deletion began stays in deletion with every other column frozen, a deleted row and
  a finished run never change again, and the audit trail only grows (an entry may only learn the
  digest its build produced).\<close>

theorem history_is_monotone:
  assumes "db_ok d" and "service_step\<^sup>*\<^sup>* d d'"
  shows "db_progress d d'"
  using service_steps_progress [OF assms(2,1)] .

theorem history_is_monotone_witness: "db_progress empty_db created_db"
proof (rule history_is_monotone)
  show "db_ok empty_db" by (simp add: db_ok_def empty_db_def)
  show "service_step\<^sup>*\<^sup>* empty_db created_db" using created_db_step by (rule r_into_rtranclp)
qed

text \<open>C1. Every request implements the state machine: a request always gets a response, and
  from a well-formed database, with the other requests, the external systems and the database
  faults behaving in any way the machine allows, it moves the database along transactions of the
  machine only and leaves it well formed. So what each request relies on from the others is what
  every request guarantees.\<close>

theorem requests_implement_the_machine:
  assumes "env_rely service_steps w" and "db_ok (w_db w)" and "serve s req w = (r, w')"
  shows "(\<exists>resp. r = Inr resp) \<and> service_steps (w_db w) (w_db w') \<and> db_ok (w_db w')"
proof -
  have "\<exists>resp. r = Inr resp" using serve_answers [of s req w] assms(3) by simp
  with svc.serve_guarantee [OF assms refl] show ?thesis by blast
qed

theorem requests_implement_the_machine_witness:
  "db_ok (w_db (snd (serve sample_service (ReqEnable (sample_user (str ''acme'')) sample_id)
     (sample_world [] 0 (sample_row INACTIVE IDLE None None None)))))"
proof -
  let ?w = "sample_world [] (0::nat) (sample_row INACTIVE IDLE None None None)"
  obtain r w' where run: "serve sample_service (ReqEnable (sample_user (str ''acme'')) sample_id) ?w = (r, w')"
    by fastforce
  have "db_ok (w_db ?w)" using sample_db_ok [of IDLE None INACTIVE None None] by simp
  from requests_implement_the_machine [OF _ this run] run show ?thesis by simp
qed

text \<open>No lifecycle operation without a real identity: while authentication is off, or the
  caller is the development identity, enabling, disabling and deleting answer 503 and do nothing
  at all: no session, no call to an external system, no signal.\<close>

lemma lifecycle_refused_without_identity:
  assumes "sv_auth_type s = str ''noauth'' \<or> en_email e = str ''noauth@keep''"
    and "req \<in> {ReqEnable e i, ReqDisable e i, ReqDelete e i}"
  shows "serve s req w = (Inr (response_of 503 (Detail
       (str ''Lifecycle operations are unavailable until the identity provider is configured''))), w)"
  using assms
  by (auto simp: serve_def handled_def enable_automation_route_def disable_automation_route_def
      delete_automation_route_def require_lifecycle_auth_def io_defs)

lemma lifecycle_refused_without_identity_witness:
  "serve sample_service (ReqDelete get_authenticated_entity sample_id)
     (sample_world [] 0 (sample_row ACTIVE IDLE None None None))
   = (Inr (response_of 503 (Detail
       (str ''Lifecycle operations are unavailable until the identity provider is configured''))),
      sample_world [] 0 (sample_row ACTIVE IDLE None None None))"
  by (rule lifecycle_refused_without_identity [where e = get_authenticated_entity and i = sample_id])
    (simp_all add: get_authenticated_entity_def)

end
